(* ===== verification/Prelude.thy ===== *)
theory Prelude
  imports Main "HOL-Library.Word"
begin

text \<open>
  Shared vocabulary of the LS-8 development. The emulator is Python code: its registers,
  memory cells and program counter are unbounded Python \<open>int\<close>s, its lists are indexed
  with Python's rules (negative indices count from the end, anything else out of range
  raises \<open>IndexError\<close>), and a method that raises leaves the object in the state it had
  reached when the exception was raised. This theory fixes those three conventions:
  the exception type \<open>exn\<close>, the Python list accessors \<open>py_get\<close> and \<open>py_set\<close>, and
  the decimal rendering \<open>py_str\<close> used by \<open>print\<close>. It also declares the
  collection \<open>py_simps\<close> that carries the component proofs.
\<close>

named_theorems py_simps "facts about the Python list model used by the component proofs"

section \<open>Exceptions\<close>

text \<open>
  The exceptions the emulator can raise. \<open>Exception msg\<close> is a bare \<^verbatim>\<open>raise
  Exception(msg)\<close>; the others are the Python built-in exceptions of the same name.
\<close>

datatype exn =
    IndexError
  | TypeError
  | ValueError
  | ZeroDivisionError
  | UnboundLocalError
  | Exception string

text \<open>
  A method that may raise returns either the exception together with the state at the
  point of the raise (\<open>Inl\<close>), or its normal result (\<open>Inr\<close>).
\<close>

type_synonym ('s, 'a) raising = "(exn \<times> 's) + 'a"

text \<open>
  Sequencing of computations that may raise: the first exception is propagated, as a
  Python exception leaves the rest of the expression unevaluated.
\<close>

definition ebind :: "'e + 'a \<Rightarrow> ('a \<Rightarrow> 'e + 'b) \<Rightarrow> 'e + 'b" where
  "ebind m f = (case m of Inl e \<Rightarrow> Inl e | Inr x \<Rightarrow> f x)"

section \<open>Python list indexing\<close>

text \<open>
  \<^verbatim>\<open>xs[i]\<close> on a Python list of length \<open>n\<close>: a negative \<open>i\<close> is first
  replaced by \<open>i + n\<close>; the index is valid if it then lies in \<open>[0, n)\<close>.
\<close>

definition py_index :: "nat \<Rightarrow> int \<Rightarrow> nat option" where
  "py_index n i =
     (let j = (if i < 0 then i + int n else i)
      in if 0 \<le> j \<and> j < int n then Some (nat j) else None)"

definition py_get :: "'a list \<Rightarrow> int \<Rightarrow> exn + 'a" where
  "py_get xs i = (case py_index (length xs) i of None \<Rightarrow> Inl IndexError | Some j \<Rightarrow> Inr (xs ! j))"

definition py_set :: "'a list \<Rightarrow> int \<Rightarrow> 'a \<Rightarrow> exn + 'a list" where
  "py_set xs i v = (case py_index (length xs) i of None \<Rightarrow> Inl IndexError | Some j \<Rightarrow> Inr (xs[j := v]))"

section \<open>Decimal rendering\<close>

text \<open>Python's \<^verbatim>\<open>str\<close> of an \<open>int\<close>: decimal digits, a leading minus sign for negatives.\<close>

fun nat_str :: "nat \<Rightarrow> string" where
  "nat_str n =
     (if n < 10 then [char_of (48 + n)] else nat_str (n div 10) @ [char_of (48 + n mod 10)])"

definition py_str :: "int \<Rightarrow> string" where
  "py_str i = (if i < 0 then CHR ''-'' # nat_str (nat (- i)) else nat_str (nat i))"

section \<open>Lemmas on exception propagation and Python indexing\<close>

lemma ebind_Inl [simp]: "ebind (Inl e) f = Inl e"
  and ebind_Inr [simp]: "ebind (Inr x) f = f x"
  by (simp_all add: ebind_def)

lemma ebind_eq_Inr_iff: "ebind m f = Inr y \<longleftrightarrow> (\<exists>x. m = Inr x \<and> f x = Inr y)"
  by (cases m) simp_all


lemma py_index_Some_iff:
  "py_index n i = Some j \<longleftrightarrow>
     (0 \<le> i \<and> i < int n \<and> j = nat i) \<or> (i < 0 \<and> - int n \<le> i \<and> j = nat (i + int n))"
  by (auto simp: py_index_def Let_def)

lemma py_index_None_iff [py_simps]: "py_index n i = None \<longleftrightarrow> i < - int n \<or> int n \<le> i"
  by (auto simp: py_index_def Let_def)

lemma py_index_lt: "py_index n i = Some j \<Longrightarrow> j < n"
  by (auto simp: py_index_Some_iff)

lemma py_index_nonneg [py_simps]: "0 \<le> i \<Longrightarrow> i < int n \<Longrightarrow> py_index n i = Some (nat i)"
  by (simp add: py_index_Some_iff)

lemma py_index_neg [py_simps]: "i < 0 \<Longrightarrow> - int n \<le> i \<Longrightarrow> py_index n i = Some (nat (i + int n))"
  by (simp add: py_index_Some_iff)

text \<open>On its valid range, a Python index is the index taken modulo the length.\<close>

lemma py_index_mod:
  assumes "- int n \<le> i" and "i < int n"
  shows "py_index n i = Some (nat (i mod int n))"
proof (cases "i < 0")
  case True
  with assms have "0 \<le> i + int n" and "i + int n < int n" by linarith+
  then have "(i + int n) mod int n = i + int n" by (rule mod_pos_pos_trivial)
  then have "i mod int n = i + int n" by simp
  with True assms show ?thesis by (simp add: py_index_neg)
next
  case False
  with assms show ?thesis by (simp add: py_index_nonneg)
qed

lemma py_get_Inr_iff: "py_get xs i = Inr v \<longleftrightarrow> (\<exists>j. py_index (length xs) i = Some j \<and> v = xs ! j)"
  by (auto simp: py_get_def split: option.splits)

lemma py_get_Inl_iff [py_simps]: "py_get xs i = Inl e \<longleftrightarrow> e = IndexError \<and> py_index (length xs) i = None"
  by (auto simp: py_get_def split: option.splits)

lemma py_set_Inl_iff [py_simps]: "py_set xs i v = Inl e \<longleftrightarrow> e = IndexError \<and> py_index (length xs) i = None"
  by (auto simp: py_set_def split: option.splits)

lemma py_set_Inr_length: "py_set xs i v = Inr ys \<Longrightarrow> length ys = length xs"
  by (auto simp: py_set_def split: option.splits)

lemma py_get_valid [py_simps]:
  "py_index (length xs) i = Some j \<Longrightarrow> py_get xs i = Inr (xs ! j)"
  by (simp add: py_get_def)

lemma py_set_valid [py_simps]:
  "py_index (length xs) i = Some j \<Longrightarrow> py_set xs i v = Inr (xs[j := v])"
  by (simp add: py_set_def)

text \<open>Reading back what was written, at the same index and at another one.\<close>

lemma py_get_set_same:
  "py_set xs i v = Inr ys \<Longrightarrow> py_get ys i = Inr v"
  by (auto simp: py_set_def py_get_def py_index_lt split: option.splits)

lemma py_get_set_other:
  assumes "py_set xs i v = Inr ys" and "py_index (length xs) k \<noteq> py_index (length xs) i"
  shows "py_get ys k = py_get xs k"
  using assms by (auto simp: py_set_def py_get_def split: option.splits)

text \<open>Writing back the value just read leaves the list unchanged.\<close>

lemma py_set_get_same:
  "py_get xs i = Inr v \<Longrightarrow> py_set xs i v = Inr xs"
  by (auto simp: py_set_def py_get_def split: option.splits)

end
