(* ===== verification/Opcodes.thy ===== *)
theory Opcodes
  imports Prelude
begin

text \<open>
  The module-level constants of \<^verbatim>\<open>src/cpu.py\<close> (lines 6 to 50): the opcode byte of
  every LS-8 instruction, the list \<^verbatim>\<open>MUTATORS\<close> of instructions that write the
  program counter, and the register index \<^verbatim>\<open>SP\<close> of the stack pointer. The source
  writes them as binary literals; they are written here in decimal, with the binary
  literal in a comment. The bitwise opcodes \<^verbatim>\<open>AND\<close>, \<^verbatim>\<open>OR\<close>,
  \<^verbatim>\<open>XOR\<close>, \<^verbatim>\<open>NOT\<close> and the interrupt opcode \<^verbatim>\<open>INT\<close> carry the suffix
  \<open>_op\<close>, since their bare names are HOL syntax. The top two bits of an opcode give
  the number of operand bytes that follow it (lemma \<open>opcode_operand_counts\<close>).
\<close>

definition NOP :: int where "NOP = 0"      \<comment> \<open>0b00000000\<close>
definition LDI :: int where "LDI = 130"    \<comment> \<open>0b10000010\<close>
definition HLT :: int where "HLT = 1"      \<comment> \<open>0b00000001\<close>
definition PRN :: int where "PRN = 71"     \<comment> \<open>0b01000111\<close>
definition LD :: int where "LD = 131"      \<comment> \<open>0b10000011\<close>
definition ST :: int where "ST = 132"      \<comment> \<open>0b10000100\<close>
definition PUSH :: int where "PUSH = 69"   \<comment> \<open>0b01000101\<close>
definition POP :: int where "POP = 70"     \<comment> \<open>0b01000110\<close>
definition PRA :: int where "PRA = 72"     \<comment> \<open>0b01001000\<close>
definition CMP :: int where "CMP = 167"    \<comment> \<open>0b10100111\<close>

definition ADD :: int where "ADD = 160"    \<comment> \<open>0b10100000\<close>
definition SUB :: int where "SUB = 161"    \<comment> \<open>0b10100001\<close>
definition MUL :: int where "MUL = 162"    \<comment> \<open>0b10100010\<close>
definition MOD :: int where "MOD = 164"    \<comment> \<open>0b10100100\<close>
definition INC :: int where "INC = 101"    \<comment> \<open>0b01100101\<close>
definition DEC :: int where "DEC = 102"    \<comment> \<open>0b01100110\<close>
definition AND_op :: int where "AND_op = 168"  \<comment> \<open>0b10101000\<close>
definition NOT_op :: int where "NOT_op = 105"  \<comment> \<open>0b01101001\<close>
definition OR_op :: int where "OR_op = 170"    \<comment> \<open>0b10101010\<close>
definition XOR_op :: int where "XOR_op = 171"  \<comment> \<open>0b10101011\<close>
definition SHL :: int where "SHL = 172"    \<comment> \<open>0b10101100\<close>
definition SHR :: int where "SHR = 173"    \<comment> \<open>0b10101101\<close>

definition CALL :: int where "CALL = 80"   \<comment> \<open>0b01010000\<close>
definition RET :: int where "RET = 17"     \<comment> \<open>0b00010001\<close>
definition INT_op :: int where "INT_op = 82"  \<comment> \<open>0b01010010\<close>
definition IRET :: int where "IRET = 19"   \<comment> \<open>0b00010011\<close>
definition JMP :: int where "JMP = 84"     \<comment> \<open>0b01010100\<close>
definition JEQ :: int where "JEQ = 85"     \<comment> \<open>0b01010101\<close>
definition JNE :: int where "JNE = 86"     \<comment> \<open>0b01010110\<close>
definition JGT :: int where "JGT = 87"     \<comment> \<open>0b01010111\<close>
definition JLT :: int where "JLT = 88"     \<comment> \<open>0b01011000\<close>
definition JLE :: int where "JLE = 89"     \<comment> \<open>0b01011001\<close>
definition JGE :: int where "JGE = 90"     \<comment> \<open>0b01011010\<close>

definition MUTATORS :: "int list" where
  "MUTATORS = [CALL, RET, INT_op, IRET, JMP, JEQ, JNE, JGT, JLT, JLE, JGE]"

definition SP :: int where "SP = 7"

lemmas opcode_defs =
  NOP_def LDI_def HLT_def PRN_def LD_def ST_def PUSH_def POP_def PRA_def CMP_def
  ADD_def SUB_def MUL_def MOD_def INC_def DEC_def AND_op_def NOT_op_def OR_op_def XOR_op_def
  SHL_def SHR_def CALL_def RET_def INT_op_def IRET_def JMP_def JEQ_def JNE_def JGT_def
  JLT_def JLE_def JGE_def SP_def

text \<open>
  The operand count the decoder of \<^verbatim>\<open>CPU.run\<close> reads from an opcode byte:
  \<^verbatim>\<open>(IR & 0b11000000) >> 6\<close>, on a Python \<open>int\<close>.
\<close>

unbundle bit_operations_syntax

definition operand_count :: "int \<Rightarrow> int" where
  "operand_count ir = drop_bit 6 (ir AND 192)"

text \<open>Whatever integer is fetched, the operand count is one of 0, 1, 2, 3.\<close>

lemma operand_count_range: "0 \<le> operand_count ir \<and> operand_count ir \<le> 3"
proof -
  have "0 \<le> ir AND 192" and "ir AND 192 \<le> 192"
    by (simp_all add: and_less_eq)
  then show ?thesis
    by (simp add: operand_count_def drop_bit_eq_div zdiv_mono1 [of _ 192 64, simplified] pos_imp_zdiv_nonneg_iff)
qed

lemma opcode_operand_counts:
  "operand_count LDI = 2" "operand_count CMP = 2" "operand_count ADD = 2" "operand_count SUB = 2"
  "operand_count MUL = 2" "operand_count MOD = 2" "operand_count AND_op = 2"
  "operand_count OR_op = 2" "operand_count XOR_op = 2" "operand_count SHL = 2"
  "operand_count SHR = 2" "operand_count LD = 2" "operand_count ST = 2"
  "operand_count PRN = 1" "operand_count PUSH = 1" "operand_count POP = 1"
  "operand_count PRA = 1" "operand_count INC = 1" "operand_count DEC = 1"
  "operand_count NOT_op = 1" "operand_count CALL = 1" "operand_count INT_op = 1"
  "operand_count JMP = 1" "operand_count JEQ = 1" "operand_count JNE = 1"
  "operand_count JGT = 1" "operand_count JLT = 1" "operand_count JLE = 1" "operand_count JGE = 1"
  "operand_count NOP = 0" "operand_count HLT = 0" "operand_count RET = 0" "operand_count IRET = 0"
  by (simp_all add: operand_count_def opcode_defs)

end
