(* ===== verification/ALU.thy ===== *)
theory ALU
  imports Opcodes
begin

text \<open>
  The arithmetic-logic unit of \<^verbatim>\<open>src/cpu.py\<close>: the table \<^verbatim>\<open>ALU_DISPATCH\<close>
  (lines 30 to 34), built with \<^verbatim>\<open>dict(zip(ALU_OP_LIST, ALU_OP_FUNC))\<close> from a list
  of opcodes and a list of lambdas, and the method \<^verbatim>\<open>CPU.alu\<close> (lines 90 to 100),
  which looks the opcode up, reads one or two registers and applies the lambda. The
  register file is passed in explicitly (\<open>regs\<close>), since \<^verbatim>\<open>alu\<close> only reads
  it. A lambda is a \<open>Unary\<close> or a \<open>Binary\<close> function; calling it with the wrong
  number of arguments raises \<open>TypeError\<close>, as in Python. The lambdas work on unbounded
  Python integers: \<open>&\<close>, \<open>|\<close>, \<open>^\<close> are the two's-complement operations of
  HOL's \<open>int\<close>, \<open><<\<close> and \<open>>>\<close> raise \<open>ValueError\<close> on a negative count
  and \<open>>>\<close> rounds towards minus infinity, \<open>%\<close> raises \<open>ZeroDivisionError\<close> on a
  zero divisor and otherwise takes the sign of the divisor, as HOL's \<open>mod\<close> on \<open>int\<close>.

  \<open>alu_spec\<close> is the 8-bit ALU of the specification (section 4.2): every result is
  truncated to a byte. The lemmas show that the code's ALU refines it modulo 256 for the
  ring and bitwise operations on any integers, and for all twelve operations on byte
  operands; and that the code itself does not truncate.
\<close>

unbundle bit_operations_syntax

datatype alu_fn = Unary "int \<Rightarrow> exn + int" | Binary "int \<Rightarrow> int \<Rightarrow> exn + int"

text \<open>Python's \<open>a << b\<close>, \<open>a >> b\<close> and \<open>a % b\<close> on \<open>int\<close>.\<close>

definition py_lshift :: "int \<Rightarrow> int \<Rightarrow> exn + int" where
  "py_lshift a b = (if b < 0 then Inl ValueError else Inr (push_bit (nat b) a))"

definition py_rshift :: "int \<Rightarrow> int \<Rightarrow> exn + int" where
  "py_rshift a b = (if b < 0 then Inl ValueError else Inr (drop_bit (nat b) a))"

definition py_mod :: "int \<Rightarrow> int \<Rightarrow> exn + int" where
  "py_mod a b = (if b = 0 then Inl ZeroDivisionError else Inr (a mod b))"

definition ALU_OP_LIST :: "int list" where
  "ALU_OP_LIST = [ADD, SUB, MUL, INC, DEC, AND_op, NOT_op, OR_op, XOR_op, SHL, SHR, MOD]"

definition ALU_OP_FUNC :: "alu_fn list" where
  "ALU_OP_FUNC =
     [Binary (\<lambda>a b. Inr (b + a)), Binary (\<lambda>a b. Inr (a - b)), Binary (\<lambda>a b. Inr (b * a)),
      Unary (\<lambda>a. Inr (a + 1)), Unary (\<lambda>a. Inr (a - 1)), Binary (\<lambda>a b. Inr (b AND a)),
      Unary (\<lambda>a. Inr (a XOR 255)), Binary (\<lambda>a b. Inr (a OR b)), Binary (\<lambda>a b. Inr (b XOR a)),
      Binary py_lshift, Binary py_rshift, Binary py_mod]"

definition ALU_DISPATCH :: "int \<Rightarrow> alu_fn option" where
  "ALU_DISPATCH = map_of (zip ALU_OP_LIST ALU_OP_FUNC)"

text \<open>Calling a lambda with a list of arguments; a wrong count raises \<open>TypeError\<close>.\<close>

fun call_fn :: "alu_fn \<Rightarrow> int list \<Rightarrow> exn + int" where
  "call_fn (Unary f) [x] = f x"
| "call_fn (Binary f) [x, y] = f x y"
| "call_fn _ _ = Inl TypeError"

text \<open>
  \<^verbatim>\<open>CPU.alu(op, reg_a, reg_b)\<close>; \<open>reg_b = None\<close> is Python's \<open>None\<close>.
  Arguments are evaluated left to right before the call.
\<close>

definition alu :: "int \<Rightarrow> int \<Rightarrow> int option \<Rightarrow> int list \<Rightarrow> exn + int" where
  "alu op reg_a reg_b regs =
     (case ALU_DISPATCH op of
        None \<Rightarrow> Inl (Exception ''Unsupported ALU operation'')
      | Some foo \<Rightarrow>
          (case reg_b of
             Some rb \<Rightarrow>
               ebind (py_get regs reg_a) (\<lambda>x. ebind (py_get regs rb) (\<lambda>y. call_fn foo [x, y]))
           | None \<Rightarrow> ebind (py_get regs reg_a) (\<lambda>x. call_fn foo [x])))"

text \<open>The ALU of the specification, on bytes.\<close>

definition alu_spec :: "int \<Rightarrow> 8 word \<Rightarrow> 8 word \<Rightarrow> exn + 8 word" where
  "alu_spec op a b =
     (if op = ADD then Inr (a + b)
      else if op = SUB then Inr (a - b)
      else if op = MUL then Inr (a * b)
      else if op = MOD then (if b = 0 then Inl ZeroDivisionError else Inr (a mod b))
      else if op = INC then Inr (a + 1)
      else if op = DEC then Inr (a - 1)
      else if op = AND_op then Inr (a AND b)
      else if op = OR_op then Inr (a OR b)
      else if op = XOR_op then Inr (a XOR b)
      else if op = NOT_op then Inr (NOT a)
      else if op = SHL then Inr (push_bit (unat b) a)
      else if op = SHR then Inr (drop_bit (unat b) a)
      else Inl (Exception ''Unsupported ALU operation''))"

section \<open>The dispatch table\<close>

lemma ALU_DISPATCH_simps:
  "ALU_DISPATCH ADD = Some (Binary (\<lambda>a b. Inr (b + a)))"
  "ALU_DISPATCH SUB = Some (Binary (\<lambda>a b. Inr (a - b)))"
  "ALU_DISPATCH MUL = Some (Binary (\<lambda>a b. Inr (b * a)))"
  "ALU_DISPATCH INC = Some (Unary (\<lambda>a. Inr (a + 1)))"
  "ALU_DISPATCH DEC = Some (Unary (\<lambda>a. Inr (a - 1)))"
  "ALU_DISPATCH AND_op = Some (Binary (\<lambda>a b. Inr (b AND a)))"
  "ALU_DISPATCH NOT_op = Some (Unary (\<lambda>a. Inr (a XOR 255)))"
  "ALU_DISPATCH OR_op = Some (Binary (\<lambda>a b. Inr (a OR b)))"
  "ALU_DISPATCH XOR_op = Some (Binary (\<lambda>a b. Inr (b XOR a)))"
  "ALU_DISPATCH SHL = Some (Binary py_lshift)"
  "ALU_DISPATCH SHR = Some (Binary py_rshift)"
  "ALU_DISPATCH MOD = Some (Binary py_mod)"
  by (simp_all add: ALU_DISPATCH_def ALU_OP_LIST_def ALU_OP_FUNC_def opcode_defs)

lemma ALU_DISPATCH_None_iff: "ALU_DISPATCH op = None \<longleftrightarrow> op \<notin> set ALU_OP_LIST"
  by (simp add: ALU_DISPATCH_def ALU_OP_LIST_def ALU_OP_FUNC_def)

lemma ALU_OP_LIST_distinct: "distinct ALU_OP_LIST"
  by (simp add: ALU_OP_LIST_def opcode_defs)

lemma alu_spec_simps:
  "alu_spec ADD a b = Inr (a + b)" "alu_spec SUB a b = Inr (a - b)" "alu_spec MUL a b = Inr (a * b)"
  "alu_spec MOD a b = (if b = 0 then Inl ZeroDivisionError else Inr (a mod b))"
  "alu_spec INC a b = Inr (a + 1)" "alu_spec DEC a b = Inr (a - 1)"
  "alu_spec AND_op a b = Inr (a AND b)" "alu_spec OR_op a b = Inr (a OR b)"
  "alu_spec XOR_op a b = Inr (a XOR b)" "alu_spec NOT_op a b = Inr (NOT a)"
  "alu_spec SHL a b = Inr (push_bit (unat b) a)" "alu_spec SHR a b = Inr (drop_bit (unat b) a)"
  by (simp_all add: alu_spec_def opcode_defs)

section \<open>Behaviour of \<open>alu\<close>\<close>

text \<open>With valid register indices, \<open>alu\<close> calls the table's lambda on the two values.\<close>

lemma alu_binary:
  assumes "ALU_DISPATCH op = Some f" "py_get regs ra = Inr x" "py_get regs rb = Inr y"
  shows "alu op ra (Some rb) regs = call_fn f [x, y]"
  using assms by (simp add: alu_def)

lemma alu_unary:
  assumes "ALU_DISPATCH op = Some f" "py_get regs ra = Inr x"
  shows "alu op ra None regs = call_fn f [x]"
  using assms by (simp add: alu_def)

lemmas alu_eval = alu_binary alu_unary ALU_DISPATCH_simps alu_spec_simps

section \<open>Python integers against 8-bit words\<close>

lemma uint_byte: "0 \<le> x \<Longrightarrow> x < 256 \<Longrightarrow> uint (word_of_int x :: 8 word) = x"
  by (simp add: uint_word_of_int)

lemma w8_xor_255: "(word_of_int (a XOR 255) :: 8 word) = NOT (word_of_int a)"
proof -
  have m: "(255 :: 8 word) = - 1" by simp
  have "(word_of_int (a XOR 255) :: 8 word) = word_of_int a XOR 255"
    by (simp add: of_int_xor_eq)
  also have "\<dots> = NOT (word_of_int a)"
    unfolding m by (rule bit_eqI) (simp add: bit_xor_iff bit_not_iff)
  finally show ?thesis .
qed

lemma w8_mod:
  "0 \<le> x \<Longrightarrow> x < 256 \<Longrightarrow> 0 \<le> y \<Longrightarrow> y < 256 \<Longrightarrow>
   (word_of_int (x mod y) :: 8 word) = word_of_int x mod word_of_int y"
  by (simp add: word_mod_def uint_byte)

lemma w8_drop:
  assumes "0 \<le> x" "x < 256"
  shows "(word_of_int (drop_bit n x) :: 8 word) = drop_bit n (word_of_int x)"
proof -
  have "0 \<le> drop_bit n x" using assms by simp
  moreover have "drop_bit n x \<le> x"
    using assms int_div_le_self [of x "2 ^ n"] by (cases "x = 0") (simp_all add: drop_bit_eq_div)
  ultimately have "uint (word_of_int (drop_bit n x) :: 8 word) = drop_bit n x"
    using assms by (simp add: uint_byte)
  moreover have "uint (drop_bit n (word_of_int x :: 8 word)) = drop_bit n x"
    using assms by (simp add: unsigned_drop_bit_eq uint_byte take_bit_int_eq_self)
  ultimately show ?thesis by (metis word_uint_eq_iff)
qed

lemma w8_push: "(word_of_int (push_bit n x) :: 8 word) = push_bit n (word_of_int x)"
  by (simp add: of_int_push_bit)

section \<open>Refinement of the 8-bit ALU\<close>

text \<open>
  Claim C13. For the binary ring and bitwise operations (ADD, SUB,
  MUL, AND, OR, XOR), whatever integers the two registers hold, the result of the code's
  \<open>alu\<close> reduced modulo 256 is the result of the specification's 8-bit ALU on the
  operands reduced modulo 256: the code computes the specified byte arithmetic up to the
  missing truncation.
\<close>

theorem alu_refines_spec_binary:
  assumes "op \<in> {ADD, SUB, MUL, AND_op, OR_op, XOR_op}"
    and "py_get regs ra = Inr x" and "py_get regs rb = Inr y"
  shows "map_sum id word_of_int (alu op ra (Some rb) regs) = alu_spec op (word_of_int x) (word_of_int y)"
  using assms
  by (auto simp: alu_eval wi_hom_syms of_int_and_eq of_int_or_eq of_int_xor_eq ac_simps)

theorem alu_refines_spec_binary_witness:
  "ADD \<in> {ADD, SUB, MUL, AND_op, OR_op, XOR_op} \<and>
   py_get [200, 100, 0, 0, 0, 0, 0, 244] 0 = Inr 200 \<and> py_get [200, 100, 0, 0, 0, 0, 0, 244] 1 = Inr 100 \<and>
   map_sum id word_of_int (alu ADD 0 (Some 1) [200, 100, 0, 0, 0, 0, 0, 244]) =
     alu_spec ADD (word_of_int 200) (word_of_int 100)"
  using alu_refines_spec_binary [where op = ADD and regs = "[200, 100, 0, 0, 0, 0, 0, 244]" and ra = 0 and x = 200
      and rb = 1 and y = 100]
  by (simp add: py_get_def py_index_def)

text \<open>
  Claim C14. The same for the unary operations INC, DEC and NOT,
  called as the decoder calls them, with no second register: \<open>a ^ 0b11111111\<close> on an
  unbounded integer is the bitwise complement modulo 256.
\<close>

theorem alu_refines_spec_unary:
  assumes "op \<in> {INC, DEC, NOT_op}" and "py_get regs ra = Inr x"
  shows "map_sum id word_of_int (alu op ra None regs) = alu_spec op (word_of_int x) b"
  using assms
  by (auto simp: alu_eval wi_hom_syms w8_xor_255)

theorem alu_refines_spec_unary_witness:
  "NOT_op \<in> {INC, DEC, NOT_op} \<and> py_get [200, 100, 0, 0, 0, 0, 0, 244] 0 = Inr 200 \<and>
   map_sum id word_of_int (alu NOT_op 0 None [200, 100, 0, 0, 0, 0, 0, 244]) = alu_spec NOT_op (word_of_int 200) 0"
  using alu_refines_spec_unary [where op = NOT_op and regs = "[200, 100, 0, 0, 0, 0, 0, 244]" and ra = 0 and x = 200
      and b = 0]
  by (simp add: py_get_def py_index_def)

text \<open>
  Claim C8. For the shifts and MOD the congruence needs byte
  operands: when both registers hold values in \<open>[0, 256)\<close>, SHL, SHR and MOD agree
  with the 8-bit specification, the zero-divisor error of MOD included.
\<close>

theorem alu_refines_spec_bytes:
  assumes "op \<in> {SHL, SHR, MOD}"
    and "py_get regs ra = Inr x" and "py_get regs rb = Inr y"
    and "0 \<le> x" "x < 256" "0 \<le> y" "y < 256"
  shows "map_sum id word_of_int (alu op ra (Some rb) regs) = alu_spec op (word_of_int x) (word_of_int y)"
proof -
  have u: "unat (word_of_int y :: 8 word) = nat y"
    using assms by (simp add: unat_eq_nat_uint uint_byte)
  have z: "(word_of_int y :: 8 word) = 0 \<longleftrightarrow> y = 0"
    using assms by (metis uint_byte word_of_int_0 uint_0_eq)
  show ?thesis
    using assms
    by (auto simp: alu_eval py_lshift_def py_rshift_def py_mod_def u z w8_push w8_drop w8_mod)
qed

theorem alu_refines_spec_bytes_witness:
  "SHL \<in> {SHL, SHR, MOD} \<and> py_get [200, 100, 0, 0, 0, 0, 0, 244] 0 = Inr 200 \<and> py_get [200, 100, 0, 0, 0, 0, 0, 244] 1 = Inr 100 \<and>
   map_sum id word_of_int (alu SHL 0 (Some 1) [200, 100, 0, 0, 0, 0, 0, 244]) =
     alu_spec SHL (word_of_int 200) (word_of_int 100)"
  using alu_refines_spec_bytes [where op = SHL and regs = "[200, 100, 0, 0, 0, 0, 0, 244]" and ra = 0 and x = 200
      and rb = 1 and y = 100]
  by (simp add: py_get_def py_index_def)

section \<open>Error paths of \<open>alu\<close>\<close>

text \<open>
  Claim C23. The ALU raises on each of its error paths: a bare \<open>Exception\<close>
  for an opcode that is not in the table, \<open>IndexError\<close> for a first register index
  outside the register file, \<open>ZeroDivisionError\<close> for MOD by a register holding 0,
  and \<open>ValueError\<close> for a shift by a negative count.
\<close>

theorem alu_errors:
  "(op \<notin> set ALU_OP_LIST \<longrightarrow> alu op ra ob regs = Inl (Exception ''Unsupported ALU operation'')) \<and>
   (op \<in> set ALU_OP_LIST \<and> py_index (length regs) ra = None \<longrightarrow> alu op ra ob regs = Inl IndexError) \<and>
   (py_get regs ra = Inr x \<and> py_get regs rb = Inr 0 \<longrightarrow> alu MOD ra (Some rb) regs = Inl ZeroDivisionError) \<and>
   (op \<in> {SHL, SHR} \<and> py_get regs ra = Inr x \<and> py_get regs rb = Inr y \<and> y < 0 \<longrightarrow>
     alu op ra (Some rb) regs = Inl ValueError)"
proof (intro conjI impI)
  show "alu op ra ob regs = Inl (Exception ''Unsupported ALU operation'')"
    if "op \<notin> set ALU_OP_LIST"
    using that by (simp add: alu_def ALU_DISPATCH_None_iff [symmetric])
  show "alu op ra ob regs = Inl IndexError"
    if "op \<in> set ALU_OP_LIST \<and> py_index (length regs) ra = None"
    using that ALU_DISPATCH_None_iff [of op]
    by (auto simp: alu_def py_get_def split: option.splits)
  show "alu MOD ra (Some rb) regs = Inl ZeroDivisionError"
    if "py_get regs ra = Inr x \<and> py_get regs rb = Inr 0"
    using that by (simp add: alu_eval py_mod_def)
  show "alu op ra (Some rb) regs = Inl ValueError"
    if "op \<in> {SHL, SHR} \<and> py_get regs ra = Inr x \<and> py_get regs rb = Inr y \<and> y < 0"
    using that by (auto simp: alu_eval py_lshift_def py_rshift_def)
qed

theorem alu_errors_witness:
  "alu 1 0 None [200, 100, 0, 0, 0, 0, 0, 244] = Inl (Exception ''Unsupported ALU operation'') \<and>
   alu ADD 8 (Some 1) [200, 100, 0, 0, 0, 0, 0, 244] = Inl IndexError \<and>
   alu MOD 0 (Some 2) [200, 100, 0, 0, 0, 0, 0, 244] = Inl ZeroDivisionError \<and>
   alu SHR 0 (Some 3) [200, 100, 0, -1, 0, 0, 0, 244] = Inl ValueError"
proof -
  have "(1::int) \<notin> set ALU_OP_LIST" "ADD \<in> set ALU_OP_LIST"
    by (simp_all add: ALU_OP_LIST_def opcode_defs)
  then show ?thesis
    using alu_errors [where op = 1 and ra = 0 and ob = None and regs = "[200, 100, 0, 0, 0, 0, 0, 244]" and x = 0 and rb = 0 and y = 0]
      alu_errors [where op = ADD and ra = 8 and ob = "Some 1" and regs = "[200, 100, 0, 0, 0, 0, 0, 244]" and x = 0 and rb = 0 and y = 0]
      alu_errors [where op = MOD and ra = 0 and rb = 2 and x = 200 and regs = "[200, 100, 0, 0, 0, 0, 0, 244]" and ob = None and y = 0]
      alu_errors [where op = SHR and ra = 0 and rb = 3 and x = 200 and y = "-1" and ob = None
        and regs = "[200, 100, 0, -1, 0, 0, 0, 244]"]
    by (simp add: py_get_def py_index_def)
qed

end
