(* ===== verification/Machine.thy ===== *)
theory Machine
  imports ALU
begin

text \<open>
  The state of a \<^verbatim>\<open>CPU\<close> object of \<^verbatim>\<open>src/cpu.py\<close> and its memory and stack
  methods. The record \<open>cpu\<close> has the four attributes set by \<^verbatim>\<open>__init__\<close>
  (\<open>reg\<close>, \<open>pc\<close>, \<open>fl\<close>, \<open>ram\<close>) and one more field, \<open>out\<close>, for the
  lines the object has printed to standard output, oldest first. Every value is a
  Python \<open>int\<close>, unbounded: nothing in the class masks a register, a memory cell or the
  program counter to 8 bits. A method that may raise returns \<open>Inl (e, c)\<close> with the
  state \<open>c\<close> reached when the exception \<open>e\<close> was raised, or \<open>Inr\<close> of its result.

  Modelled here: \<^verbatim>\<open>__init__\<close> (\<open>cpu_init\<close>), \<^verbatim>\<open>ram_read\<close>, \<^verbatim>\<open>ram_write\<close>,
  \<^verbatim>\<open>load\<close>, \<^verbatim>\<open>push_mdr\<close>, \<^verbatim>\<open>pop_mdr\<close>, \<^verbatim>\<open>push_from_reg\<close> and
  \<^verbatim>\<open>pop_to_reg\<close>. The lemmas give the shape invariant (8 registers, 256 cells) kept
  by every method, the behaviour of push and pop, their round trip, and the asymmetric
  guard of \<^verbatim>\<open>pop_mdr\<close>.
\<close>

record cpu =
  reg :: "int list"
  pc :: int
  fl :: int
  ram :: "int list"
  out :: "string list"

text \<open>A failure that does not change the state, raised in state \<open>c\<close>.\<close>

definition lift_exn :: "cpu \<Rightarrow> exn + 'a \<Rightarrow> (cpu, 'a) raising" where
  "lift_exn c m = (case m of Inl e \<Rightarrow> Inl (e, c) | Inr x \<Rightarrow> Inr x)"

text \<open>\<^verbatim>\<open>CPU.__init__\<close>: R0 to R6, PC and FL cleared, R7 (the stack pointer) set to \<open>0xF4\<close>.\<close>

definition cpu_init :: cpu where
  "cpu_init =
     \<lparr>reg = (replicate 8 0)[nat SP := 244], pc = 0, fl = 0, ram = replicate 256 0, out = []\<rparr>"

text \<open>\<^verbatim>\<open>self.reg[i]\<close> read and \<^verbatim>\<open>self.reg[i] = v\<close>.\<close>

definition get_reg :: "int \<Rightarrow> cpu \<Rightarrow> exn + int" where
  "get_reg i c = py_get (reg c) i"

definition set_reg :: "int \<Rightarrow> int \<Rightarrow> cpu \<Rightarrow> (cpu, cpu) raising" where
  "set_reg i v c = lift_exn c (map_sum id (\<lambda>r. c\<lparr>reg := r\<rparr>) (py_set (reg c) i v))"

definition ram_read :: "int \<Rightarrow> cpu \<Rightarrow> exn + int" where
  "ram_read mar c = py_get (ram c) mar"

definition ram_write :: "int \<Rightarrow> int \<Rightarrow> cpu \<Rightarrow> (cpu, cpu) raising" where
  "ram_write mar mdr c = lift_exn c (map_sum id (\<lambda>m. c\<lparr>ram := m\<rparr>) (py_set (ram c) mar mdr))"

text \<open>
  \<^verbatim>\<open>CPU.load\<close>: \<open>None\<close> prints a message and returns; otherwise the bytes are
  stored from address 0 on, and a program longer than memory raises \<open>IndexError\<close> with
  the cells before it already written.
\<close>

fun load_from :: "int \<Rightarrow> int list \<Rightarrow> cpu \<Rightarrow> (cpu, cpu) raising" where
  "load_from address [] c = Inr c"
| "load_from address (instruction # program) c =
     (case py_set (ram c) address instruction of
        Inl e \<Rightarrow> Inl (e, c)
      | Inr m \<Rightarrow> load_from (address + 1) program (c\<lparr>ram := m\<rparr>))"

definition load :: "int list option \<Rightarrow> cpu \<Rightarrow> (cpu, cpu) raising" where
  "load program c =
     (case program of
        None \<Rightarrow> Inr (c\<lparr>out := out c @ [''no program specified'']\<rparr>)
      | Some p \<Rightarrow> load_from 0 p c)"

text \<open>\<^verbatim>\<open>CPU.push_mdr\<close>: decrement the stack pointer, then write at the new address.\<close>

definition push_mdr :: "int \<Rightarrow> cpu \<Rightarrow> (cpu, cpu) raising" where
  "push_mdr mdr c =
     ebind (lift_exn c (get_reg SP c)) (\<lambda>sp.
     ebind (set_reg SP (sp - 1) c) (\<lambda>c1.
     ebind (lift_exn c1 (get_reg SP c1)) (\<lambda>mar.
     ram_write mar mdr c1)))"

text \<open>
  \<^verbatim>\<open>CPU.pop_mdr\<close>: read at the stack pointer, and increment the stack pointer only
  if it is below \<open>0xF4\<close>. Returns the popped value with the new state.
\<close>

definition pop_mdr :: "cpu \<Rightarrow> (cpu, int \<times> cpu) raising" where
  "pop_mdr c =
     ebind (lift_exn c (get_reg SP c)) (\<lambda>mar.
     ebind (lift_exn c (ram_read mar c)) (\<lambda>popped.
       if mar < 244 then
         ebind (lift_exn c (get_reg SP c)) (\<lambda>sp.
         ebind (set_reg SP (sp + 1) c) (\<lambda>c1. Inr (popped, c1)))
       else Inr (popped, c)))"

definition push_from_reg :: "int \<Rightarrow> cpu \<Rightarrow> (cpu, cpu) raising" where
  "push_from_reg from_register c =
     ebind (lift_exn c (get_reg from_register c)) (\<lambda>mdr. push_mdr mdr c)"

text \<open>
  \<^verbatim>\<open>self.reg[to_register] = self.pop_mdr()\<close>: the right-hand side runs first, so an
  invalid \<open>to_register\<close> raises after the stack pointer has moved.
\<close>

definition pop_to_reg :: "int \<Rightarrow> cpu \<Rightarrow> (cpu, cpu) raising" where
  "pop_to_reg to_register c =
     ebind (pop_mdr c) (\<lambda>(v, c1). set_reg to_register v c1)"

text \<open>The shape every \<open>CPU\<close> object has: eight registers and 256 memory cells.\<close>

definition wf_cpu :: "cpu \<Rightarrow> bool" where
  "wf_cpu c \<longleftrightarrow> length (reg c) = 8 \<and> length (ram c) = 256"

text \<open>The state after a method, whether it returned or raised, has that shape.\<close>

definition wf_after :: "(cpu, cpu) raising \<Rightarrow> bool" where
  "wf_after r = (case r of Inl (e, c) \<Rightarrow> wf_cpu c | Inr c \<Rightarrow> wf_cpu c)"

section \<open>Evaluation lemmas\<close>

lemma lift_exn_simps [simp]: "lift_exn c (Inl e) = Inl (e, c)" "lift_exn c (Inr x) = Inr x"
  by (simp_all add: lift_exn_def)

lemma py_index_SP [simp]: "py_index 8 SP = Some 7"
  by (simp add: SP_def py_index_def)

lemma wf_cpu_updates [simp]:
  "wf_cpu (c\<lparr>reg := (reg c)[i := v]\<rparr>) = wf_cpu c"
  "wf_cpu (c\<lparr>ram := (ram c)[i := v]\<rparr>) = wf_cpu c"
  "wf_cpu (c\<lparr>pc := p\<rparr>) = wf_cpu c"
  "wf_cpu (c\<lparr>fl := f\<rparr>) = wf_cpu c"
  "wf_cpu (c\<lparr>out := o'\<rparr>) = wf_cpu c"
  by (simp_all add: wf_cpu_def)

lemma get_reg_SP: "wf_cpu c \<Longrightarrow> get_reg SP c = Inr (reg c ! 7)"
  by (simp add: wf_cpu_def get_reg_def py_get_def)

lemma set_reg_SP: "wf_cpu c \<Longrightarrow> set_reg SP v c = Inr (c\<lparr>reg := (reg c)[7 := v]\<rparr>)"
  by (simp add: wf_cpu_def set_reg_def py_set_def)

lemma ram_read_ok:
  "wf_cpu c \<Longrightarrow> - 256 \<le> a \<Longrightarrow> a < 256 \<Longrightarrow> ram_read a c = Inr (ram c ! nat (a mod 256))"
  by (simp add: wf_cpu_def ram_read_def py_get_def py_index_mod)

lemma ram_write_ok:
  "wf_cpu c \<Longrightarrow> - 256 \<le> a \<Longrightarrow> a < 256 \<Longrightarrow>
   ram_write a v c = Inr (c\<lparr>ram := (ram c)[nat (a mod 256) := v]\<rparr>)"
  by (simp add: wf_cpu_def ram_write_def py_set_def py_index_mod)

lemma push_mdr_ok:
  assumes "wf_cpu c" and "- 255 \<le> reg c ! 7" and "reg c ! 7 \<le> 256"
  shows "push_mdr v c =
    Inr (c\<lparr>reg := (reg c)[7 := reg c ! 7 - 1], ram := (ram c)[nat ((reg c ! 7 - 1) mod 256) := v]\<rparr>)"
  using assms by (simp add: push_mdr_def get_reg_SP set_reg_SP ram_write_ok wf_cpu_def)

lemma pop_mdr_ok:
  assumes "wf_cpu c" and "- 256 \<le> reg c ! 7" and "reg c ! 7 < 256"
  shows "pop_mdr c =
    Inr (ram c ! nat (reg c ! 7 mod 256),
         if reg c ! 7 < 244 then c\<lparr>reg := (reg c)[7 := reg c ! 7 + 1]\<rparr> else c)"
  using assms by (simp add: pop_mdr_def get_reg_SP set_reg_SP ram_read_ok)

lemma load_from_ok:
  "0 \<le> a \<Longrightarrow> nat a + length p \<le> length (ram c) \<Longrightarrow>
   load_from a p c = Inr (c\<lparr>ram := take (nat a) (ram c) @ p @ drop (nat a + length p) (ram c)\<rparr>)"
proof (induction p arbitrary: a c)
  case Nil
  then show ?case by simp
next
  case (Cons i p)
  let ?c1 = "c\<lparr>ram := (ram c)[nat a := i]\<rparr>"
  have set: "py_set (ram c) a i = Inr ((ram c)[nat a := i])"
    using Cons.prems by (simp add: py_set_def py_index_nonneg)
  have "load_from (a + 1) p ?c1 =
        Inr (?c1\<lparr>ram := take (nat (a + 1)) (ram ?c1) @ p @ drop (nat (a + 1) + length p) (ram ?c1)\<rparr>)"
    using Cons.prems by (intro Cons.IH) simp_all
  moreover have "take (nat (a + 1)) ((ram c)[nat a := i]) = take (nat a) (ram c) @ [i]"
    using Cons.prems by (simp add: nat_add_distrib take_Suc_conv_app_nth)
  moreover have "drop (nat (a + 1) + length p) ((ram c)[nat a := i]) = drop (nat a + length (i # p)) (ram c)"
    using Cons.prems by (simp add: nat_add_distrib)
  ultimately show ?case using set by simp
qed


lemma load_from_overflow:
  "0 \<le> a \<Longrightarrow> nat a \<le> length (ram c) \<Longrightarrow> length (ram c) < nat a + length p \<Longrightarrow>
   load_from a p c =
     Inl (IndexError, c\<lparr>ram := take (nat a) (ram c) @ take (length (ram c) - nat a) p\<rparr>)"
proof (induction p arbitrary: a c)
  case Nil
  then show ?case by simp
next
  case (Cons i p)
  show ?case
  proof (cases "nat a = length (ram c)")
    case True
    then have "py_set (ram c) a i = Inl IndexError"
      using Cons.prems by (simp add: py_set_def py_index_def)
    with True show ?thesis by simp
  next
    case False
    let ?c1 = "c\<lparr>ram := (ram c)[nat a := i]\<rparr>"
    have set: "py_set (ram c) a i = Inr ((ram c)[nat a := i])"
      using Cons.prems False by (simp add: py_set_def py_index_nonneg)
    have "load_from (a + 1) p ?c1 =
      Inl (IndexError, ?c1\<lparr>ram := take (nat (a + 1)) (ram ?c1) @ take (length (ram ?c1) - nat (a + 1)) p\<rparr>)"
      using Cons.prems False by (intro Cons.IH) simp_all
    moreover have "take (nat (a + 1)) ((ram c)[nat a := i]) = take (nat a) (ram c) @ [i]"
      using Cons.prems False by (simp add: nat_add_distrib take_Suc_conv_app_nth)
    moreover have "length (ram c) - nat a = Suc (length (ram c) - nat (a + 1))"
      using Cons.prems False by (simp add: nat_add_distrib)
    then have "i # take (length (ram c) - nat (a + 1)) p = take (length (ram c) - nat a) (i # p)"
      by simp
    ultimately show ?thesis using set by simp
  qed
qed


section \<open>Shape invariant\<close>

lemma lift_exn_eq_Inr_iff [simp]: "lift_exn c m = Inr x \<longleftrightarrow> m = Inr x"
  by (cases m) simp_all

lemma wf_after_simps [simp]: "wf_after (Inl (e, c)) = wf_cpu c" "wf_after (Inr c) = wf_cpu c"
  by (simp_all add: wf_after_def)

lemma wf_after_ebind_lift:
  "wf_cpu c \<Longrightarrow> (\<And>x. m = Inr x \<Longrightarrow> wf_after (f x)) \<Longrightarrow> wf_after (ebind (lift_exn c m) f)"
  by (cases m) (simp_all add: wf_after_def)

lemma set_reg_wf: "wf_cpu c \<Longrightarrow> wf_after (set_reg i v c)"
  by (auto simp: set_reg_def wf_after_def py_set_def wf_cpu_def split: option.splits)

lemma ram_write_wf: "wf_cpu c \<Longrightarrow> wf_after (ram_write a v c)"
  by (auto simp: ram_write_def wf_after_def py_set_def wf_cpu_def split: option.splits)

lemma push_mdr_wf: "wf_cpu c \<Longrightarrow> wf_after (push_mdr v c)"
  by (simp add: push_mdr_def get_reg_SP set_reg_SP ram_write_wf)

lemma pop_mdr_wf:
  "wf_cpu c \<Longrightarrow> wf_after (map_sum id snd (pop_mdr c))"
  by (auto simp: pop_mdr_def get_reg_SP set_reg_SP ram_read_def wf_after_def py_get_def split: option.splits)

lemma push_from_reg_wf: "wf_cpu c \<Longrightarrow> wf_after (push_from_reg r c)"
  unfolding push_from_reg_def by (rule wf_after_ebind_lift) (simp_all add: push_mdr_wf)

lemma pop_to_reg_wf: "wf_cpu c \<Longrightarrow> wf_after (pop_to_reg r c)"
proof (cases "pop_mdr c")
  case (Inl ec)
  moreover assume "wf_cpu c"
  ultimately show ?thesis using pop_mdr_wf [of c] by (cases ec) (simp add: pop_to_reg_def)
next
  case (Inr vc)
  moreover assume "wf_cpu c"
  ultimately show ?thesis using pop_mdr_wf [of c] by (cases vc) (simp add: pop_to_reg_def set_reg_wf)
qed

lemma load_from_wf: "wf_cpu c \<Longrightarrow> wf_after (load_from a p c)"
  by (induction a p c rule: load_from.induct)
     (auto simp: wf_after_def py_set_def wf_cpu_def split: option.splits)


section \<open>Properties of the memory and stack methods\<close>

text \<open>
  Claim C20. Popping never raises the stack pointer above the larger of
  its old value and \<open>0xF4\<close>, and at or above \<open>0xF4\<close> it does not move at all:
  the guard \<^verbatim>\<open>if mar < 0xF4\<close> of \<^verbatim>\<open>pop_mdr\<close>. An empty stack therefore
  pops the cell at \<open>0xF4\<close> again and again instead of failing.
\<close>

theorem pop_mdr_sp_bound:
  assumes "wf_cpu c" and "pop_mdr c = Inr (v, c')"
  shows "reg c' ! 7 \<le> max (reg c ! 7) 244 \<and> (244 \<le> reg c ! 7 \<longrightarrow> reg c' = reg c)"
  using assms
  by (auto simp: pop_mdr_def get_reg_SP set_reg_SP ebind_eq_Inr_iff wf_cpu_def split: if_splits)

theorem pop_mdr_sp_bound_witness:
  "wf_cpu cpu_init \<and> pop_mdr cpu_init = Inr (0, cpu_init) \<and>
   reg cpu_init ! 7 \<le> max (reg cpu_init ! 7) 244 \<and> 244 \<le> reg cpu_init ! 7"
proof -
  have w: "wf_cpu cpu_init" by (simp add: wf_cpu_def cpu_init_def)
  have p: "pop_mdr cpu_init = Inr (0, cpu_init)"
    by (simp add: pop_mdr_def cpu_init_def get_reg_def ram_read_def py_get_def py_index_def
        SP_def)
  show ?thesis using pop_mdr_sp_bound [OF w p] w p by (simp add: cpu_init_def SP_def)
qed

text \<open>
  Claim C21. The stack pointer is not masked: a push with the stack
  pointer at or below -256, or at or above 257, raises \<open>IndexError\<close> from
  \<^verbatim>\<open>ram_write\<close>, and the object is left with the stack pointer already
  decremented and memory unchanged.
\<close>

theorem push_mdr_out_of_range:
  assumes "wf_cpu c" and "reg c ! 7 \<le> - 256 \<or> 257 \<le> reg c ! 7"
  shows "push_mdr v c = Inl (IndexError, c\<lparr>reg := (reg c)[7 := reg c ! 7 - 1]\<rparr>)"
  using assms
  by (auto simp: push_mdr_def get_reg_SP set_reg_SP ram_write_def py_set_def py_index_def wf_cpu_def)

theorem push_mdr_out_of_range_witness:
  "wf_cpu (cpu_init\<lparr>reg := (reg cpu_init)[7 := 300]\<rparr>) \<and>
   push_mdr 5 (cpu_init\<lparr>reg := (reg cpu_init)[7 := 300]\<rparr>) =
     Inl (IndexError, cpu_init\<lparr>reg := (reg cpu_init)[7 := 299]\<rparr>)"
proof -
  have w: "wf_cpu (cpu_init\<lparr>reg := (reg cpu_init)[7 := 300]\<rparr>)"
    by (simp add: wf_cpu_def cpu_init_def)
  show ?thesis
    using push_mdr_out_of_range [OF w, where v = 5] w by (simp add: cpu_init_def)
qed

text \<open>
  Claim C5. Pushing a register and popping into the same register
  restores every register, the stack pointer included, and leaves the pushed value in
  the cell below the stack pointer, for any stack pointer from -255 to \<open>0xF4\<close> (a
  negative stack pointer addresses memory from the end, as Python indexing does).
\<close>

theorem push_pop_roundtrip:
  assumes "wf_cpu c" and "get_reg r c = Inr v"
    and "- 255 \<le> reg c ! 7" and "reg c ! 7 \<le> 244"
  shows "ebind (push_from_reg r c) (pop_to_reg r) =
    Inr (c\<lparr>ram := (ram c)[nat ((reg c ! 7 - 1) mod 256) := v]\<rparr>)"
proof -
  let ?sp = "reg c ! 7"
  let ?c1 = "c\<lparr>reg := (reg c)[7 := ?sp - 1], ram := (ram c)[nat ((?sp - 1) mod 256) := v]\<rparr>"
  have push: "push_from_reg r c = Inr ?c1"
    using assms by (simp add: push_from_reg_def push_mdr_ok)
  have w1: "wf_cpu ?c1" using assms(1) by (simp add: wf_cpu_def)
  have pop: "pop_mdr ?c1 = Inr (v, ?c1\<lparr>reg := (reg c)[7 := ?sp]\<rparr>)"
    using assms w1 by (simp add: pop_mdr_ok wf_cpu_def)
  have idx: "py_index (length (reg c)) r \<noteq> None"
    using assms(2) by (auto simp: get_reg_def py_get_def split: option.splits)
  have "set_reg r v (?c1\<lparr>reg := (reg c)[7 := ?sp]\<rparr>) =
      Inr (c\<lparr>ram := (ram c)[nat ((?sp - 1) mod 256) := v]\<rparr>)"
    using assms(1,2) idx
    by (auto simp: set_reg_def get_reg_def py_get_def py_set_def wf_cpu_def split: option.splits)
  then show ?thesis using push pop by (simp add: pop_to_reg_def)
qed

theorem push_pop_roundtrip_witness:
  "wf_cpu (cpu_init\<lparr>reg := (reg cpu_init)[3 := 9]\<rparr>) \<and>
   get_reg 3 (cpu_init\<lparr>reg := (reg cpu_init)[3 := 9]\<rparr>) = Inr 9 \<and>
   ebind (push_from_reg 3 (cpu_init\<lparr>reg := (reg cpu_init)[3 := 9]\<rparr>)) (pop_to_reg 3) =
     Inr (cpu_init\<lparr>reg := (reg cpu_init)[3 := 9], ram := (ram cpu_init)[243 := 9]\<rparr>)"
proof -
  have w: "wf_cpu (cpu_init\<lparr>reg := (reg cpu_init)[3 := 9]\<rparr>)"
    by (simp add: wf_cpu_def cpu_init_def)
  have g: "get_reg 3 (cpu_init\<lparr>reg := (reg cpu_init)[3 := 9]\<rparr>) = Inr 9"
    by (simp add: get_reg_def cpu_init_def py_get_def py_index_def SP_def)
  show ?thesis
    using push_pop_roundtrip [OF w g] w g by (simp add: cpu_init_def SP_def)
qed

text \<open>
  Claim C9. \<^verbatim>\<open>load\<close> copies a program of at most 256 bytes to the
  start of memory and leaves the rest of memory as it was; a longer program raises
  \<open>IndexError\<close> after the first 256 bytes have been written.
\<close>

theorem load_program:
  assumes "wf_cpu c"
  shows "(length p \<le> 256 \<longrightarrow> load (Some p) c = Inr (c\<lparr>ram := p @ drop (length p) (ram c)\<rparr>)) \<and>
    (256 < length p \<longrightarrow> load (Some p) c = Inl (IndexError, c\<lparr>ram := take 256 p\<rparr>))"
  using assms by (simp add: load_def load_from_ok load_from_overflow wf_cpu_def)

theorem load_program_witness:
  "wf_cpu cpu_init \<and>
   load (Some [130, 0, 8]) cpu_init = Inr (cpu_init\<lparr>ram := [130, 0, 8] @ drop 3 (ram cpu_init)\<rparr>) \<and>
   load (Some (replicate 257 1)) cpu_init = Inl (IndexError, cpu_init\<lparr>ram := replicate 256 1\<rparr>)"
proof -
  have w: "wf_cpu cpu_init" by (simp add: wf_cpu_def cpu_init_def)
  show ?thesis
    using load_program [OF w, of "[130, 0, 8]"] load_program [OF w, of "replicate 257 1"] w
    by (simp add: numeral_3_eq_3)
qed

end
