(* ===== verification/Handlers.thy ===== *)
theory Handlers
  imports Machine
begin

text \<open>
  The instruction handlers of \<^verbatim>\<open>src/cpu.py\<close> (\<^verbatim>\<open>ldi_foo\<close>,
  \<^verbatim>\<open>print_foo\<close>, \<^verbatim>\<open>cmp_foo\<close>, \<^verbatim>\<open>jmp_foo\<close>, \<^verbatim>\<open>jeq_foo\<close>,
  \<^verbatim>\<open>jne_foo\<close>, lines 142 to 190) and the dispatcher \<^verbatim>\<open>CPU.dispatch\<close>
  (lines 192 to 218). The dispatcher looks the opcode up in two tables of bound methods
  (built with \<^verbatim>\<open>dict(zip(...))\<close>, here \<open>memory_handlers\<close> and
  \<open>jump_handlers\<close>, each entry a constructor of \<open>handler\<close>), calls the method with
  one or two operands, and otherwise sends an ALU opcode to \<open>alu\<close> and stores the
  result in register \<open>a\<close>. Any other opcode falls through all three tests and does
  nothing. \<^verbatim>\<open>cmp_foo\<close> updates the flags through the ALU's own OR and AND lambdas,
  looked up in \<^verbatim>\<open>ALU_DISPATCH\<close>; it is modelled that way.
\<close>

unbundle bit_operations_syntax

text \<open>\<^verbatim>\<open>ldi_foo\<close>: \<^verbatim>\<open>self.reg[a] = b\<close>.\<close>

definition ldi_foo :: "int \<Rightarrow> int \<Rightarrow> cpu \<Rightarrow> (cpu, cpu) raising" where
  "ldi_foo a b c = set_reg a b c"

text \<open>\<^verbatim>\<open>print_foo\<close>: \<^verbatim>\<open>print(self.reg[a])\<close>, one line of decimal digits.\<close>

definition print_foo :: "int \<Rightarrow> cpu \<Rightarrow> (cpu, cpu) raising" where
  "print_foo a c = ebind (lift_exn c (get_reg a c)) (\<lambda>v. Inr (c\<lparr>out := out c @ [py_str v]\<rparr>))"

text \<open>Calling \<^verbatim>\<open>ALU_DISPATCH.get(op)\<close>; calling \<open>None\<close> raises \<open>TypeError\<close>.\<close>

definition call_opt :: "alu_fn option \<Rightarrow> int list \<Rightarrow> exn + int" where
  "call_opt f args = (case f of None \<Rightarrow> Inl TypeError | Some g \<Rightarrow> call_fn g args)"

text \<open>
  \<^verbatim>\<open>cmp_foo\<close>: three statements, each setting or clearing one bit of \<open>fl\<close> with
  \<open>or_foo\<close> (\<open>a | b\<close>) or \<open>and_foo\<close> (\<open>b & a\<close>).
\<close>

definition cmp_foo :: "int \<Rightarrow> int \<Rightarrow> cpu \<Rightarrow> (cpu, cpu) raising" where
  "cmp_foo addr1 addr2 c =
     ebind (lift_exn c (get_reg addr1 c)) (\<lambda>a.
     ebind (lift_exn c (get_reg addr2 c)) (\<lambda>b.
     (let or_foo = ALU_DISPATCH OR_op; and_foo = ALU_DISPATCH AND_op in
      ebind (lift_exn c (if a = b then call_opt or_foo [fl c, 1] else call_opt and_foo [fl c, 254]))
        (\<lambda>f1. let c1 = c\<lparr>fl := f1\<rparr> in
      ebind (lift_exn c1 (if a > b then call_opt or_foo [fl c1, 2] else call_opt and_foo [fl c1, 253]))
        (\<lambda>f2. let c2 = c1\<lparr>fl := f2\<rparr> in
      ebind (lift_exn c2 (if a < b then call_opt or_foo [fl c2, 4] else call_opt and_foo [fl c2, 251]))
        (\<lambda>f3. Inr (c2\<lparr>fl := f3\<rparr>)))))))"

definition jmp_foo :: "int \<Rightarrow> cpu \<Rightarrow> (cpu, cpu) raising" where
  "jmp_foo addr c = ebind (lift_exn c (get_reg addr c)) (\<lambda>destination. Inr (c\<lparr>pc := destination\<rparr>))"

definition jeq_foo :: "int \<Rightarrow> cpu \<Rightarrow> (cpu, cpu) raising" where
  "jeq_foo addr c = (if fl c AND 1 = 1 then jmp_foo addr c else Inr c)"

definition jne_foo :: "int \<Rightarrow> cpu \<Rightarrow> (cpu, cpu) raising" where
  "jne_foo addr c = (if fl c AND 1 = 0 then jmp_foo addr c else Inr c)"

text \<open>The bound methods the dispatcher's tables hold.\<close>

datatype handler = H_ldi | H_print | H_push | H_pop | H_cmp | H_jmp | H_jeq | H_jne

text \<open>Calling a bound method; a wrong number of arguments raises \<open>TypeError\<close>.\<close>

fun call_handler :: "handler \<Rightarrow> int list \<Rightarrow> cpu \<Rightarrow> (cpu, cpu) raising" where
  "call_handler H_ldi [a, b] c = ldi_foo a b c"
| "call_handler H_print [a] c = print_foo a c"
| "call_handler H_push [a] c = push_from_reg a c"
| "call_handler H_pop [a] c = pop_to_reg a c"
| "call_handler H_cmp [a, b] c = cmp_foo a b c"
| "call_handler H_jmp [a] c = jmp_foo a c"
| "call_handler H_jeq [a] c = jeq_foo a c"
| "call_handler H_jne [a] c = jne_foo a c"
| "call_handler _ _ c = Inl (TypeError, c)"

definition memory_handlers :: "int \<Rightarrow> handler option" where
  "memory_handlers = map_of (zip [LDI, PRN, PUSH, POP, CMP] [H_ldi, H_print, H_push, H_pop, H_cmp])"

definition jump_handlers :: "int \<Rightarrow> handler option" where
  "jump_handlers = map_of (zip [JMP, JEQ, JNE] [H_jmp, H_jeq, H_jne])"

text \<open>
  \<^verbatim>\<open>CPU.dispatch(i, a, b)\<close>. The run loop always passes an integer \<open>a\<close> (it is
  never \<open>None\<close> there), so the branch \<^verbatim>\<open>foo()\<close> of the source is unreachable and
  is not modelled; \<open>b = None\<close> is Python's \<open>None\<close>.
\<close>

definition dispatch :: "int \<Rightarrow> int \<Rightarrow> int option \<Rightarrow> cpu \<Rightarrow> (cpu, cpu) raising" where
  "dispatch i a b c =
     (let foo = (case memory_handlers i of None \<Rightarrow> jump_handlers i | Some h \<Rightarrow> Some h) in
      case foo of
        None \<Rightarrow>
          (case ALU_DISPATCH i of
             None \<Rightarrow> Inr c
           | Some arithmetic \<Rightarrow> ebind (lift_exn c (alu i a b (reg c))) (\<lambda>v. set_reg a v c))
      | Some h \<Rightarrow> call_handler h (case b of Some bv \<Rightarrow> [a, bv] | None \<Rightarrow> [a]) c)"

text \<open>The flag bits \<open>00000LGE\<close> a comparison of \<open>a\<close> with \<open>b\<close> should leave.\<close>

definition cmp_flags :: "int \<Rightarrow> int \<Rightarrow> int" where
  "cmp_flags a b = (if a = b then 1 else 0) + (if a > b then 2 else 0) + (if a < b then 4 else 0)"

section \<open>Evaluation lemmas\<close>

lemma high_bit_byte: "0 \<le> (k::int) \<Longrightarrow> k < 256 \<Longrightarrow> 8 \<le> n \<Longrightarrow> \<not> bit k n"
proof -
  assume a: "0 \<le> k" "k < 256" "8 \<le> n"
  have "(2::int) ^ 8 \<le> 2 ^ n" using a(3) by (rule power_increasing) simp
  then have "k div 2 ^ n = 0" using a by simp
  then show ?thesis by (simp add: bit_iff_odd)
qed

lemma nat_less_8_cases: "n < (8::nat) \<Longrightarrow> n = 0 \<or> n = 1 \<or> n = 2 \<or> n = 3 \<or> n = 4 \<or> n = 5 \<or> n = 6 \<or> n = 7"
  by arith

lemma int_eq_bits8:
  "(\<And>n. n < 8 \<Longrightarrow> bit a n = bit b n) \<Longrightarrow> (\<And>n. \<not> n < 8 \<Longrightarrow> bit a n = bit b n) \<Longrightarrow> (a::int) = b"
  by (metis bit_eqI)

lemma flag_bits:
  "251 AND (253 AND (x OR 1)) = (x AND 248) OR (1::int)"
  "251 AND ((254 AND x) OR 2) = (x AND 248) OR (2::int)"
  "(253 AND (254 AND x)) OR 4 = (x AND 248) OR (4::int)"
  by (rule int_eq_bits8; auto simp: bit_and_iff bit_or_iff high_bit_byte dest!: nat_less_8_cases)+

lemma call_opt_or_and [simp]:
  "call_opt (ALU_DISPATCH OR_op) [x, y] = Inr (x OR y)"
  "call_opt (ALU_DISPATCH AND_op) [x, y] = Inr (y AND x)"
  by (simp_all add: call_opt_def ALU_DISPATCH_simps)

lemma handler_tables:
  "memory_handlers LDI = Some H_ldi" "memory_handlers PRN = Some H_print"
  "memory_handlers PUSH = Some H_push" "memory_handlers POP = Some H_pop"
  "memory_handlers CMP = Some H_cmp"
  "jump_handlers JMP = Some H_jmp" "jump_handlers JEQ = Some H_jeq" "jump_handlers JNE = Some H_jne"
  "memory_handlers JMP = None" "memory_handlers JEQ = None" "memory_handlers JNE = None"
  by (simp_all add: memory_handlers_def jump_handlers_def opcode_defs)

lemma dispatch_simps:
  "dispatch LDI a (Some b) c = ldi_foo a b c"
  "dispatch PRN a None c = print_foo a c"
  "dispatch PUSH a None c = push_from_reg a c"
  "dispatch POP a None c = pop_to_reg a c"
  "dispatch CMP a (Some b) c = cmp_foo a b c"
  "dispatch JMP a None c = jmp_foo a c"
  "dispatch JEQ a None c = jeq_foo a c"
  "dispatch JNE a None c = jne_foo a c"
  by (simp_all add: dispatch_def handler_tables)

lemma dispatch_alu:
  assumes "i \<in> set ALU_OP_LIST"
  shows "dispatch i a b c = ebind (lift_exn c (alu i a b (reg c))) (\<lambda>v. set_reg a v c)"
proof -
  have "memory_handlers i = None" "jump_handlers i = None"
    using assms by (auto simp: memory_handlers_def jump_handlers_def ALU_OP_LIST_def opcode_defs)
  moreover obtain f where "ALU_DISPATCH i = Some f"
    using assms ALU_DISPATCH_None_iff [of i] by auto
  ultimately show ?thesis by (simp add: dispatch_def)
qed

lemma fl_low_bits: "0 \<le> f \<Longrightarrow> f < 8 \<Longrightarrow> f AND 248 = (0 :: int)"
proof -
  assume "0 \<le> f" "f < 8"
  then obtain n where n: "f = int n" "n < 8" by (metis nat_eq_iff2 nat_less_iff of_nat_numeral)
  then show ?thesis using nat_less_8_cases [OF n(2)] by auto
qed

lemma cmp_flags_cases: "cmp_flags x y \<in> {1, 2, 4}"
  by (simp add: cmp_flags_def)

lemma cmp_foo_Inr:
  assumes "cmp_foo a b c = Inr c'"
  shows "\<exists>x y. get_reg a c = Inr x \<and> get_reg b c = Inr y \<and>
    c' = c\<lparr>fl := (fl c AND 248) OR cmp_flags x y\<rparr>"
proof -
  obtain x where x: "get_reg a c = Inr x"
    using assms by (cases "get_reg a c") (simp_all add: cmp_foo_def)
  obtain y where y: "get_reg b c = Inr y"
    using assms x by (cases "get_reg b c") (simp_all add: cmp_foo_def)
  have "cmp_foo a b c = Inr (c\<lparr>fl := (fl c AND 248) OR cmp_flags x y\<rparr>)"
    using x y by (auto simp: cmp_foo_def cmp_flags_def Let_def flag_bits)
  with assms x y show ?thesis by auto
qed

lemma ldi_foo_wf: "wf_cpu c \<Longrightarrow> wf_after (ldi_foo a b c)"
  by (simp add: ldi_foo_def set_reg_wf)

lemma print_foo_wf: "wf_cpu c \<Longrightarrow> wf_after (print_foo a c)"
  unfolding print_foo_def by (rule wf_after_ebind_lift) (simp_all add: wf_cpu_def)

lemma cmp_foo_wf: "wf_cpu c \<Longrightarrow> wf_after (cmp_foo a b c)"
  unfolding cmp_foo_def by (intro wf_after_ebind_lift) (simp_all add: Let_def)

lemma jmp_foo_wf: "wf_cpu c \<Longrightarrow> wf_after (jmp_foo a c)"
  unfolding jmp_foo_def by (rule wf_after_ebind_lift) simp_all

lemma jeq_jne_wf: "wf_cpu c \<Longrightarrow> wf_after (jeq_foo a c)" "wf_cpu c \<Longrightarrow> wf_after (jne_foo a c)"
  by (simp_all add: jeq_foo_def jne_foo_def jmp_foo_wf)

lemma call_handler_wf: "wf_cpu c \<Longrightarrow> wf_after (call_handler h args c)"
  by (induction h args c rule: call_handler.induct)
     (simp_all add: ldi_foo_wf print_foo_wf push_from_reg_wf pop_to_reg_wf cmp_foo_wf jmp_foo_wf jeq_jne_wf)

lemma dispatch_wf: "wf_cpu c \<Longrightarrow> wf_after (dispatch i a b c)"
  unfolding dispatch_def Let_def
  by (auto simp: call_handler_wf set_reg_wf intro!: wf_after_ebind_lift split: option.splits)


section \<open>Properties of the handlers and the dispatcher\<close>

text \<open>
  Claim C3. With both registers valid, \<^verbatim>\<open>cmp_foo\<close> sets the three
  flag bits to exactly one of E (equal), G (greater) and L (less), keeps bits 3 to 7 of
  the old flags and clears every bit above 7 (the \<open>and_foo\<close> masks are bytes).
\<close>

theorem cmp_foo_flags:
  assumes "get_reg r1 c = Inr x" and "get_reg r2 c = Inr y"
  shows "cmp_foo r1 r2 c = Inr (c\<lparr>fl := (fl c AND 248) OR cmp_flags x y\<rparr>)"
  using assms by (auto simp: cmp_foo_def cmp_flags_def Let_def flag_bits)

theorem cmp_foo_flags_witness:
  "get_reg 0 (cpu_init\<lparr>reg := [5, 3, 0, 0, 0, 0, 0, 244]\<rparr>) = Inr 5 \<and> get_reg 1 (cpu_init\<lparr>reg := [5, 3, 0, 0, 0, 0, 0, 244]\<rparr>) = Inr 3 \<and>
   cmp_foo 0 1 (cpu_init\<lparr>reg := [5, 3, 0, 0, 0, 0, 0, 244]\<rparr>) = Inr (cpu_init\<lparr>reg := [5, 3, 0, 0, 0, 0, 0, 244]\<rparr>\<lparr>fl := (fl (cpu_init\<lparr>reg := [5, 3, 0, 0, 0, 0, 0, 244]\<rparr>) AND 248) OR cmp_flags 5 3\<rparr>) \<and>
   cmp_flags 5 3 = 2"
proof -
  have g: "get_reg 0 (cpu_init\<lparr>reg := [5, 3, 0, 0, 0, 0, 0, 244]\<rparr>) = Inr 5" "get_reg 1 (cpu_init\<lparr>reg := [5, 3, 0, 0, 0, 0, 0, 244]\<rparr>) = Inr 3"
    by (simp_all add: get_reg_def py_get_def py_index_def)
  show ?thesis using cmp_foo_flags [OF g] g by (simp add: cmp_flags_def)
qed

text \<open>
  Claim C7. An opcode that is in neither handler table nor in the
  ALU table is silently ignored by \<^verbatim>\<open>dispatch\<close>: the state is unchanged and no
  exception is raised. This covers the declared but unimplemented opcodes (NOP, LD, ST,
  PRA, INT, IRET, JGT, JLT, JLE, JGE) and every undeclared value, against section 7 of the
  specification (an unsupported opcode is a fatal \<open>UnsupportedOperation\<close>).
\<close>

theorem dispatch_unimplemented:
  assumes "i \<notin> {LDI, PRN, PUSH, POP, CMP, JMP, JEQ, JNE}" and "i \<notin> set ALU_OP_LIST"
  shows "dispatch i a b c = Inr c"
proof -
  have "memory_handlers i = None" "jump_handlers i = None"
    using assms(1) by (auto simp: memory_handlers_def jump_handlers_def)
  moreover have "ALU_DISPATCH i = None"
    using assms(2) by (simp add: ALU_DISPATCH_None_iff)
  ultimately show ?thesis by (simp add: dispatch_def)
qed

theorem dispatch_unimplemented_witness:
  "NOP \<notin> {LDI, PRN, PUSH, POP, CMP, JMP, JEQ, JNE} \<and> NOP \<notin> set ALU_OP_LIST \<and>
   dispatch NOP 0 (Some 1) cpu_init = Inr cpu_init"
proof -
  have h: "NOP \<notin> {LDI, PRN, PUSH, POP, CMP, JMP, JEQ, JNE}" "NOP \<notin> set ALU_OP_LIST"
    by (simp_all add: ALU_OP_LIST_def opcode_defs)
  show ?thesis using dispatch_unimplemented [OF h, where a = 0 and b = "Some 1" and c = cpu_init] h
    by simp
qed

text \<open>
  Claim C4. \<^verbatim>\<open>jmp_foo\<close> sets the program counter to the value of
  the named register; \<^verbatim>\<open>jeq_foo\<close> does so exactly when the E bit of the flags is
  set, \<^verbatim>\<open>jne_foo\<close> exactly when it is clear, and otherwise the state is unchanged.
\<close>

theorem jump_semantics:
  assumes "get_reg r c = Inr d"
  shows "jmp_foo r c = Inr (c\<lparr>pc := d\<rparr>) \<and>
    jeq_foo r c = Inr (if fl c AND 1 = 1 then c\<lparr>pc := d\<rparr> else c) \<and>
    jne_foo r c = Inr (if fl c AND 1 = 0 then c\<lparr>pc := d\<rparr> else c)"
  using assms by (simp add: jmp_foo_def jeq_foo_def jne_foo_def)

theorem jump_semantics_witness:
  "get_reg 1 (cpu_init\<lparr>reg := [5, 3, 0, 0, 0, 0, 0, 244], fl := 1\<rparr>) = Inr 3 \<and>
   jmp_foo 1 (cpu_init\<lparr>reg := [5, 3, 0, 0, 0, 0, 0, 244], fl := 1\<rparr>) = Inr (cpu_init\<lparr>reg := [5, 3, 0, 0, 0, 0, 0, 244], fl := 1\<rparr>\<lparr>pc := 3\<rparr>) \<and>
   jeq_foo 1 (cpu_init\<lparr>reg := [5, 3, 0, 0, 0, 0, 0, 244], fl := 1\<rparr>) = Inr (cpu_init\<lparr>reg := [5, 3, 0, 0, 0, 0, 0, 244], fl := 1\<rparr>\<lparr>pc := 3\<rparr>) \<and>
   jne_foo 1 (cpu_init\<lparr>reg := [5, 3, 0, 0, 0, 0, 0, 244], fl := 1\<rparr>) = Inr (cpu_init\<lparr>reg := [5, 3, 0, 0, 0, 0, 0, 244], fl := 1\<rparr>)"
proof -
  have g: "get_reg 1 (cpu_init\<lparr>reg := [5, 3, 0, 0, 0, 0, 0, 244], fl := 1\<rparr>) = Inr 3"
    by (simp add: get_reg_def py_get_def py_index_def)
  show ?thesis using jump_semantics [OF g] g by simp
qed

text \<open>
  Claim C22. A register operand from -8 to -1 is not rejected:
  Python's negative indexing makes it name register \<open>r + 8\<close>, so LDI into register -1
  overwrites the stack pointer R7 (the specification requires an invalid register index
  to be a fatal error).
\<close>

theorem ldi_negative_register:
  assumes "length (reg c) = 8" and "- 8 \<le> r" and "r < 0"
  shows "dispatch LDI r (Some v) c = Inr (c\<lparr>reg := (reg c)[nat (r + 8) := v]\<rparr>)"
  using assms by (simp add: dispatch_simps ldi_foo_def set_reg_def py_set_def py_index_def)

theorem ldi_negative_register_witness:
  "length (reg cpu_init) = 8 \<and>
   dispatch LDI (- 1) (Some 5) cpu_init = Inr (cpu_init\<lparr>reg := (reg cpu_init)[7 := 5]\<rparr>)"
proof -
  have l: "length (reg cpu_init) = 8" by (simp add: cpu_init_def)
  show ?thesis using ldi_negative_register [OF l, of "- 1" 5] l by simp
qed

text \<open>
  Claim C16. The dispatcher stores the ALU's result in register
  \<open>a\<close> as the unbounded integer the lambda returns: ADD stores \<open>x + y\<close> and SUB
  \<open>x - y\<close> for whatever the registers hold, so a sum above 255 or a negative
  difference lands in the register, against section 3 of the specification (every stored
  value is wrapped to 8 bits).
\<close>

theorem dispatch_add_unmasked:
  assumes "0 \<le> a" and "get_reg a c = Inr x" and "get_reg b c = Inr y"
  shows "dispatch ADD a (Some b) c = Inr (c\<lparr>reg := (reg c)[nat a := x + y]\<rparr>) \<and>
    dispatch SUB a (Some b) c = Inr (c\<lparr>reg := (reg c)[nat a := x - y]\<rparr>)"
proof -
  have ab: "py_get (reg c) a = Inr x" "py_get (reg c) b = Inr y"
    using assms(2,3) by (simp_all add: get_reg_def)
  then have "nat a < length (reg c)"
    using assms(1) by (auto simp: py_get_Inr_iff py_index_def split: if_splits)
  then have "set_reg a v c = Inr (c\<lparr>reg := (reg c)[nat a := v]\<rparr>)" for v
    using assms(1) by (simp add: set_reg_def py_set_def py_index_def)
  moreover have "ADD \<in> set ALU_OP_LIST" "SUB \<in> set ALU_OP_LIST"
    by (simp_all add: ALU_OP_LIST_def)
  ultimately show ?thesis
    using ab by (simp add: dispatch_alu alu_eval add.commute)
qed

theorem dispatch_add_unmasked_witness:
  "dispatch ADD 0 (Some 1) (cpu_init\<lparr>reg := [200, 100, 0, 0, 0, 0, 0, 244]\<rparr>) =
     Inr (cpu_init\<lparr>reg := [300, 100, 0, 0, 0, 0, 0, 244]\<rparr>) \<and>
   dispatch SUB 1 (Some 0) (cpu_init\<lparr>reg := [200, 100, 0, 0, 0, 0, 0, 244]\<rparr>) =
     Inr (cpu_init\<lparr>reg := [200, -100, 0, 0, 0, 0, 0, 244]\<rparr>)"
proof -
  have g: "get_reg 0 (cpu_init\<lparr>reg := [200, 100, 0, 0, 0, 0, 0, 244]\<rparr>) = Inr 200"
    "get_reg 1 (cpu_init\<lparr>reg := [200, 100, 0, 0, 0, 0, 0, 244]\<rparr>) = Inr 100"
    by (simp_all add: get_reg_def py_get_def py_index_def)
  show ?thesis
    using dispatch_add_unmasked [OF _ g(1) g(2)] dispatch_add_unmasked [OF _ g(2) g(1)] by simp
qed

end
