(* ===== verification/Run.thy ===== *)
theory Run
  imports Handlers "HOL-Library.Sublist"
begin

text \<open>
  The fetch-decode-execute loop \<^verbatim>\<open>CPU.run\<close> of \<^verbatim>\<open>src/cpu.py\<close> (lines 220 to
  256). One iteration of its \<^verbatim>\<open>while True\<close> is \<open>step\<close>: read the instruction
  register at \<open>pc\<close> (\<open>IR\<close>), read 0, 1 or 2 operand bytes according to the top two
  bits of \<open>IR\<close> and advance \<open>pc\<close> past them (\<open>fetch\<close>), then stop on HLT,
  handle CALL (\<open>call_op\<close>) and RET (\<open>ret_op\<close>) in the loop itself, and send
  every other opcode to \<open>dispatch\<close> (\<open>execute\<close>).

  The loop's locals \<open>a\<close> and \<open>b\<close> survive from one iteration to the next and are
  unbound before the first instruction with operands: the type \<open>operands\<close> holds
  them, \<open>None\<close> while they are unbound. An instruction with no operand bytes (top bits
  00 or 11) reuses the previous \<open>a\<close> and \<open>b\<close>, and if there are none yet, the call
  \<^verbatim>\<open>self.dispatch(IR, a, b)\<close> raises \<open>UnboundLocalError\<close>.

  The loop need not end, so \<open>run\<close> is a \<^theory_text>\<open>partial_function (option)\<close>:
  \<open>None\<close> is a run that never stops. \<open>steps n\<close> runs at most \<open>n\<close> iterations;
  lemma \<open>run_iff_steps\<close> shows that \<open>run\<close> returns exactly the outcomes some
  number of iterations reaches, so the fuel is only a proof device.
\<close>

type_synonym operands = "(int \<times> int option) option"

text \<open>How a run ends: at a HLT, or with an exception and the state it left.\<close>

datatype final = Halted cpu | Raised exn cpu

datatype stepped = Next cpu operands | Stop final

text \<open>The operand fetch of one iteration (source lines 225 to 243).\<close>

definition fetch :: "int \<Rightarrow> cpu \<Rightarrow> operands \<Rightarrow> (cpu, cpu \<times> operands) raising" where
  "fetch ops c ab =
     (if ops = 2 then
        ebind (lift_exn c (ram_read (pc c + 1) c)) (\<lambda>a.
        ebind (lift_exn c (ram_read (pc c + 2) c)) (\<lambda>b.
        Inr (c\<lparr>pc := pc c + 3\<rparr>, Some (a, Some b))))
      else if ops = 1 then
        ebind (lift_exn c (ram_read (pc c + 1) c)) (\<lambda>a. Inr (c\<lparr>pc := pc c + 2\<rparr>, Some (a, None)))
      else Inr (c\<lparr>pc := pc c + 1\<rparr>, ab))"

definition continue_with :: "operands \<Rightarrow> (cpu, cpu) raising \<Rightarrow> stepped" where
  "continue_with ab r = (case r of Inl (e, c) \<Rightarrow> Stop (Raised e c) | Inr c \<Rightarrow> Next c ab)"

text \<open>
  CALL (source lines 247 to 251): push the return address \<^verbatim>\<open>self.pc\<close>, already
  past the instruction, then jump to the value of register \<^verbatim>\<open>a\<close>.
\<close>

definition call_op :: "cpu \<Rightarrow> operands \<Rightarrow> (cpu, cpu) raising" where
  "call_op c ab =
     ebind (push_mdr (pc c) c) (\<lambda>c1.
       case ab of
         None \<Rightarrow> Inl (UnboundLocalError, c1)
       | Some (a, b) \<Rightarrow> ebind (lift_exn c1 (get_reg a c1)) (\<lambda>dest. Inr (c1\<lparr>pc := dest\<rparr>)))"

text \<open>RET (source lines 252 to 254): pop the stack into \<^verbatim>\<open>pc\<close>.\<close>

definition ret_op :: "cpu \<Rightarrow> (cpu, cpu) raising" where
  "ret_op c = ebind (pop_mdr c) (\<lambda>(v, c1). Inr (c1\<lparr>pc := v\<rparr>))"

text \<open>The evaluation of one iteration (source lines 244 to 256).\<close>

definition execute :: "int \<Rightarrow> cpu \<Rightarrow> operands \<Rightarrow> stepped" where
  "execute IR c ab =
     (if HLT = IR then Stop (Halted c)
      else if IR = CALL then continue_with ab (call_op c ab)
      else if IR = RET then continue_with ab (ret_op c)
      else
        continue_with ab
          (case ab of None \<Rightarrow> Inl (UnboundLocalError, c) | Some (a, b) \<Rightarrow> dispatch IR a b c))"

definition step :: "cpu \<Rightarrow> operands \<Rightarrow> stepped" where
  "step c ab =
     (case ram_read (pc c) c of
        Inl e \<Rightarrow> Stop (Raised e c)
      | Inr IR \<Rightarrow>
          (case fetch (operand_count IR) c ab of
             Inl (e, c1) \<Rightarrow> Stop (Raised e c1)
           | Inr (c1, ab1) \<Rightarrow> execute IR c1 ab1))"

partial_function (option) run :: "cpu \<Rightarrow> operands \<Rightarrow> final option" where
  "run c ab = (case step c ab of Stop f \<Rightarrow> Some f | Next c1 ab1 \<Rightarrow> run c1 ab1)"

declare run.simps [code]

fun steps :: "nat \<Rightarrow> cpu \<Rightarrow> operands \<Rightarrow> stepped" where
  "steps 0 c ab = Next c ab"
| "steps (Suc n) c ab = (case step c ab of Stop f \<Rightarrow> Stop f | Next c1 ab1 \<Rightarrow> steps n c1 ab1)"

text \<open>\<^verbatim>\<open>CPU.run()\<close>: the loop starts with \<open>a\<close> and \<open>b\<close> unbound.\<close>

definition cpu_run :: "cpu \<Rightarrow> final option" where
  "cpu_run c = run c None"

text \<open>The states one iteration after another leads to, as a relation.\<close>

inductive reaches :: "cpu \<Rightarrow> operands \<Rightarrow> cpu \<Rightarrow> operands \<Rightarrow> bool" where
  refl: "reaches c ab c ab"
| step: "step c ab = Next c1 ab1 \<Longrightarrow> reaches c1 ab1 c2 ab2 \<Longrightarrow> reaches c ab c2 ab2"

definition final_state :: "final \<Rightarrow> cpu" where
  "final_state f = (case f of Halted c \<Rightarrow> c | Raised e c \<Rightarrow> c)"

definition wf_stepped :: "stepped \<Rightarrow> bool" where
  "wf_stepped s = (case s of Next c ab \<Rightarrow> wf_cpu c | Stop f \<Rightarrow> wf_cpu (final_state f))"

text \<open>
  The flags register as the specification describes it (section 3): only the bits
  \<open>00000LGE\<close> may be set.
\<close>

definition fl_ok :: "cpu \<Rightarrow> bool" where
  "fl_ok c = (0 \<le> fl c \<and> fl c < 8)"

section \<open>Evaluation and invariant lemmas\<close>



lemma run_step_Stop: "step c ab = Stop f \<Longrightarrow> run c ab = Some f"
  by (simp add: run.simps)

lemma run_step_Next: "step c ab = Next c1 ab1 \<Longrightarrow> run c ab = run c1 ab1"
  by (simp add: run.simps)

lemma steps_Stop_run: "steps n c ab = Stop f \<Longrightarrow> run c ab = Some f"
proof (induction n arbitrary: c ab)
  case 0
  then show ?case by simp
next
  case (Suc n)
  show ?case
  proof (cases "step c ab")
    case (Next c1 ab1)
    with Suc.prems have "steps n c1 ab1 = Stop f" by simp
    then have "run c1 ab1 = Some f" by (rule Suc.IH)
    with Next show ?thesis by (simp add: run_step_Next)
  next
    case (Stop f')
    with Suc.prems show ?thesis by (simp add: run_step_Stop)
  qed
qed

lemma run_Some_steps:
  assumes ret: "run c ab = Some f"
  shows "\<exists>n. steps n c ab = Stop f"
proof (rule run.raw_induct [where P = "\<lambda>c ab f. \<exists>n. steps n c ab = Stop f", OF _ ret])
  fix r c ab f
  assume IH: "\<And>c ab f. r c ab = Some f \<Longrightarrow> \<exists>n. steps n c ab = Stop f"
    and eq: "(case step c ab of Stop f \<Rightarrow> Some f | Next c1 ab1 \<Rightarrow> r c1 ab1) = Some f"
  show "\<exists>n. steps n c ab = Stop f"
  proof (cases "step c ab")
    case (Next c1 ab1)
    with eq have "r c1 ab1 = Some f" by simp
    then obtain n where "steps n c1 ab1 = Stop f" using IH by blast
    with Next have "steps (Suc n) c ab = Stop f" by simp
    then show ?thesis ..
  next
    case (Stop f')
    with eq have "steps (Suc 0) c ab = Stop f" by simp
    then show ?thesis ..
  qed
qed

lemma wf_stepped_simps [simp]:
  "wf_stepped (Next c ab) = wf_cpu c"
  "wf_stepped (Stop (Halted c)) = wf_cpu c"
  "wf_stepped (Stop (Raised e c)) = wf_cpu c"
  by (simp_all add: wf_stepped_def final_state_def)

lemma continue_with_wf: "wf_after r \<Longrightarrow> wf_stepped (continue_with ab r)"
  by (auto simp: continue_with_def wf_after_def split: sum.splits)

lemma wf_after_ebind:
  "wf_after m \<Longrightarrow> (\<And>c1. m = Inr c1 \<Longrightarrow> wf_after (f c1)) \<Longrightarrow> wf_after (ebind m f)"
  by (cases m) (auto simp: wf_after_def)

lemma fetch_wf:
  "wf_cpu c \<Longrightarrow> fetch ops c ab = Inl (e, c1) \<Longrightarrow> wf_cpu c1"
  "wf_cpu c \<Longrightarrow> fetch ops c ab = Inr (c1, ab1) \<Longrightarrow> wf_cpu c1"
  by (auto simp: fetch_def ebind_def lift_exn_def split: if_splits sum.splits)

lemma execute_wf: "wf_cpu c \<Longrightarrow> wf_stepped (execute IR c ab)"
proof -
  assume w: "wf_cpu c"
  have call: "wf_after (call_op c ab)"
    unfolding call_op_def using w push_mdr_wf [OF w, of "pc c"]
    by (intro wf_after_ebind) (auto intro!: wf_after_ebind_lift split: option.splits)
  have ret: "wf_after (ret_op c)"
    unfolding ret_op_def using pop_mdr_wf [OF w] by (cases "pop_mdr c") (auto simp: wf_after_def)
  have other: "wf_after (case ab of None \<Rightarrow> Inl (UnboundLocalError, c) | Some (a, b) \<Rightarrow> dispatch IR a b c)"
    using w by (auto simp: dispatch_wf split: option.splits)
  show ?thesis
    using w call ret other by (simp add: execute_def continue_with_wf)
qed

lemma step_wf: "wf_cpu c \<Longrightarrow> wf_stepped (step c ab)"
  by (auto simp: step_def execute_wf dest: fetch_wf split: sum.splits)

lemma continue_with_not_Halted: "continue_with ab r \<noteq> Stop (Halted c)"
  by (simp add: continue_with_def split: sum.splits prod.splits)

lemma cpu_init_wf: "wf_cpu cpu_init"
  by (simp add: cpu_init_def wf_cpu_def)

lemma set_reg_pc: "set_reg i v c = Inr c' \<Longrightarrow> pc c' = pc c"
  by (auto simp: set_reg_def lift_exn_def py_set_def split: option.splits)

lemma ram_write_pc: "ram_write i v c = Inr c' \<Longrightarrow> pc c' = pc c"
  by (auto simp: ram_write_def lift_exn_def py_set_def split: option.splits)

lemma push_mdr_pc: "push_mdr v c = Inr c' \<Longrightarrow> pc c' = pc c"
  by (auto simp: push_mdr_def ebind_eq_Inr_iff dest!: set_reg_pc ram_write_pc)

lemma pop_mdr_pc: "pop_mdr c = Inr (v, c') \<Longrightarrow> pc c' = pc c"
  by (auto simp: pop_mdr_def ebind_eq_Inr_iff dest!: set_reg_pc split: if_splits)

lemma call_handler_pc:
  "call_handler h args c = Inr c' \<Longrightarrow> h \<notin> {H_jmp, H_jeq, H_jne} \<Longrightarrow> pc c' = pc c"
  by (induction h args c rule: call_handler.induct)
     (auto simp: ldi_foo_def print_foo_def push_from_reg_def pop_to_reg_def cmp_foo_def Let_def
        ebind_eq_Inr_iff dest!: set_reg_pc push_mdr_pc pop_mdr_pc)

lemma memory_handlers_Some: "memory_handlers i = Some h \<Longrightarrow> h \<in> {H_ldi, H_print, H_push, H_pop, H_cmp}"
  by (auto simp: memory_handlers_def split: if_splits)

lemma jump_handlers_Some: "jump_handlers i = Some h \<Longrightarrow> i \<in> {JMP, JEQ, JNE}"
  by (auto simp: jump_handlers_def split: if_splits)

lemma dispatch_pc: "i \<notin> {JMP, JEQ, JNE} \<Longrightarrow> dispatch i a b c = Inr c' \<Longrightarrow> pc c' = pc c"
  by (auto simp: dispatch_def Let_def ebind_eq_Inr_iff dest!: set_reg_pc memory_handlers_Some
      jump_handlers_Some call_handler_pc split: option.splits)

lemma fetch_pc:
  "fetch ops c ab = Inr (c1, ab1) \<Longrightarrow>
   pc c1 = pc c + (if ops = 2 then 3 else if ops = 1 then 2 else 1) \<and> c1 = c\<lparr>pc := pc c1\<rparr>"
  by (auto simp: fetch_def ebind_eq_Inr_iff split: if_splits)

lemma set_reg_frame: "set_reg i v c = Inr c' \<Longrightarrow> fl c' = fl c \<and> out c' = out c"
  by (auto simp: set_reg_def lift_exn_def py_set_def split: option.splits)

lemma ram_write_frame: "ram_write i v c = Inr c' \<Longrightarrow> fl c' = fl c \<and> out c' = out c"
  by (auto simp: ram_write_def lift_exn_def py_set_def split: option.splits)

lemma push_mdr_frame: "push_mdr v c = Inr c' \<Longrightarrow> fl c' = fl c \<and> out c' = out c"
  by (auto simp: push_mdr_def ebind_eq_Inr_iff dest!: set_reg_frame ram_write_frame)

lemma pop_mdr_frame: "pop_mdr c = Inr (v, c') \<Longrightarrow> fl c' = fl c \<and> out c' = out c"
  by (auto simp: pop_mdr_def ebind_eq_Inr_iff dest!: set_reg_frame split: if_splits)

lemma call_handler_frame:
  "call_handler h args c = Inr c' \<Longrightarrow> h \<noteq> H_cmp \<Longrightarrow> fl c' = fl c \<and> prefix (out c) (out c')"
  by (induction h args c rule: call_handler.induct)
     (auto simp: ldi_foo_def print_foo_def push_from_reg_def pop_to_reg_def jmp_foo_def jeq_foo_def
        jne_foo_def ebind_eq_Inr_iff dest!: set_reg_frame push_mdr_frame pop_mdr_frame split: if_splits)

lemma cmp_foo_fl_ok: "cmp_foo a b c = Inr c' \<Longrightarrow> fl_ok c \<Longrightarrow> fl_ok c' \<and> out c' = out c"
  by (auto simp: fl_ok_def fl_low_bits cmp_flags_def dest!: cmp_foo_Inr)

lemma memory_handlers_cmp: "memory_handlers i = Some H_cmp \<Longrightarrow> i = CMP"
  by (auto simp: memory_handlers_def split: if_splits)

lemma jump_handlers_handler: "jump_handlers i = Some h \<Longrightarrow> h \<in> {H_jmp, H_jeq, H_jne}"
  by (auto simp: jump_handlers_def split: if_splits)

lemma dispatch_frame:
  "dispatch i a b c = Inr c' \<Longrightarrow> i \<noteq> CMP \<Longrightarrow> fl c' = fl c \<and> prefix (out c) (out c')"
  by (auto simp: dispatch_def Let_def ebind_eq_Inr_iff dest!: set_reg_frame memory_handlers_cmp
      jump_handlers_handler call_handler_frame split: option.splits)

lemma dispatch_fl_ok:
  assumes "dispatch i a b c = Inr c'" and "fl_ok c"
  shows "fl_ok c' \<and> prefix (out c) (out c')"
proof (cases "i = CMP")
  case True
  then obtain bv where "cmp_foo a bv c = Inr c'"
    using assms(1) by (cases b) (auto simp: dispatch_def handler_tables)
  then show ?thesis using cmp_foo_fl_ok assms(2) by auto
next
  case False
  then show ?thesis using dispatch_frame [OF assms(1)] assms(2) by (simp add: fl_ok_def)
qed

lemma execute_frame:
  "execute IR c ab = Next c' ab' \<Longrightarrow> IR \<noteq> CMP \<Longrightarrow> fl c' = fl c \<and> prefix (out c) (out c')"
  by (auto simp: execute_def continue_with_def call_op_def ret_op_def ebind_eq_Inr_iff
      split: if_splits sum.splits option.splits prod.splits
      dest!: push_mdr_frame pop_mdr_frame dispatch_frame)

lemma execute_fl_ok:
  assumes "execute IR c ab = Next c' ab'" and "fl_ok c"
  shows "fl_ok c' \<and> prefix (out c) (out c')"
proof (cases "IR = CMP")
  case True
  then obtain a b where "dispatch CMP a b c = Inr c'"
    using assms(1) by (auto simp: execute_def continue_with_def opcode_defs
        split: option.splits sum.splits prod.splits)
  then show ?thesis using dispatch_fl_ok assms(2) by blast
next
  case False
  then show ?thesis using execute_frame [OF assms(1)] assms(2) by (simp add: fl_ok_def)
qed

lemma step_NextE:
  assumes "step c ab = Next c' ab'"
  obtains IR p ab1 where "ram_read (pc c) c = Inr IR" "execute IR (c\<lparr>pc := p\<rparr>) ab1 = Next c' ab'"
proof -
  obtain IR where IR: "ram_read (pc c) c = Inr IR"
    using assms by (auto simp: step_def split: sum.splits)
  then obtain c1 ab1 where f: "fetch (operand_count IR) c ab = Inr (c1, ab1)" "execute IR c1 ab1 = Next c' ab'"
    using assms by (auto simp: step_def split: sum.splits prod.splits)
  then have "c1 = c\<lparr>pc := pc c1\<rparr>" using fetch_pc [OF f(1)] by blast
  then show ?thesis using that IR f(2) by metis
qed

lemma ram_read_nat: "wf_cpu c \<Longrightarrow> 0 \<le> a \<Longrightarrow> a < 256 \<Longrightarrow> ram_read a c = Inr (ram c ! nat a)"
  by (simp add: ram_read_ok)

lemma get_reg_nat: "wf_cpu c \<Longrightarrow> 0 \<le> r \<Longrightarrow> r < 8 \<Longrightarrow> get_reg r c = Inr (reg c ! nat r)"
  by (simp add: wf_cpu_def get_reg_def py_get_def py_index_nonneg)

lemma set_reg_nat:
  "wf_cpu c \<Longrightarrow> 0 \<le> r \<Longrightarrow> r < 8 \<Longrightarrow> set_reg r v c = Inr (c\<lparr>reg := (reg c)[nat r := v]\<rparr>)"
  by (simp add: wf_cpu_def set_reg_def py_set_def py_index_nonneg)

lemma fetch_eval:
  assumes "wf_cpu c" and "0 \<le> pc c"
  shows "pc c + 2 < 256 \<Longrightarrow>
      fetch 2 c ab = Inr (c\<lparr>pc := pc c + 3\<rparr>, Some (ram c ! nat (pc c + 1), Some (ram c ! nat (pc c + 2))))"
    and "pc c + 1 < 256 \<Longrightarrow> fetch 1 c ab = Inr (c\<lparr>pc := pc c + 2\<rparr>, Some (ram c ! nat (pc c + 1), None))"
    and "ops \<noteq> 1 \<Longrightarrow> ops \<noteq> 2 \<Longrightarrow> fetch ops c ab = Inr (c\<lparr>pc := pc c + 1\<rparr>, ab)"
  using assms by (simp_all add: fetch_def ram_read_nat)

lemma opcodes_distinct:
  "HLT \<noteq> CALL" "HLT \<noteq> RET" "HLT \<noteq> LDI" "HLT \<noteq> PRN" "RET \<noteq> CALL"
  "LDI \<noteq> CALL" "LDI \<noteq> RET" "PRN \<noteq> CALL" "PRN \<noteq> RET"
  by (simp_all add: opcode_defs)

lemmas step_eval = step_def ram_read_nat fetch_eval opcode_operand_counts execute_def
  call_op_def ret_op_def
  continue_with_def opcodes_distinct

section \<open>Properties of the run loop\<close>

text \<open>
  The partial function \<open>run\<close> and the fuel-bounded \<open>steps\<close> agree: the loop ends
  with outcome \<open>f\<close> exactly when some finite number of iterations ends with it.
  This is the device by which termination of a concrete run is shown with fuel.
\<close>

lemma run_iff_steps: "run c ab = Some f \<longleftrightarrow> (\<exists>n. steps n c ab = Stop f)"
  using steps_Stop_run run_Some_steps by blast

text \<open>
  Claim C2. The flags register keeps the form the specification gives it,
  \<open>00000LGE\<close> (a value in 0 to 7), in every state the loop reaches from a state where
  it has that form, and the printed output only grows: no instruction takes back a line
  already printed.
\<close>

theorem reaches_fl_out: "reaches c ab c' ab' \<Longrightarrow> fl_ok c \<Longrightarrow> fl_ok c' \<and> prefix (out c) (out c')"
proof (induction rule: reaches.induct)
  case (refl c ab)
  then show ?case by simp
next
  case (step c ab c1 ab1 c2 ab2)
  obtain IR p ab0 where "execute IR (c\<lparr>pc := p\<rparr>) ab0 = Next c1 ab1"
    using step_NextE [OF step.hyps(1)] by metis
  then have "fl_ok c1 \<and> prefix (out c) (out c1)"
    using execute_fl_ok step.prems by (fastforce simp: fl_ok_def)
  then show ?case using step.IH prefix_order.trans by blast
qed

theorem reaches_fl_out_witness:
  "reaches (cpu_init\<lparr>ram := (ram cpu_init)[0 := 130, 2 := 5]\<rparr>) None (cpu_init\<lparr>ram := (ram cpu_init)[0 := 130, 2 := 5], pc := 3, reg := (reg cpu_init)[0 := 5]\<rparr>) (Some (0, Some 5)) \<and> fl_ok (cpu_init\<lparr>ram := (ram cpu_init)[0 := 130, 2 := 5]\<rparr>) \<and> fl_ok (cpu_init\<lparr>ram := (ram cpu_init)[0 := 130, 2 := 5], pc := 3, reg := (reg cpu_init)[0 := 5]\<rparr>) \<and> prefix (out (cpu_init\<lparr>ram := (ram cpu_init)[0 := 130, 2 := 5]\<rparr>)) (out (cpu_init\<lparr>ram := (ram cpu_init)[0 := 130, 2 := 5], pc := 3, reg := (reg cpu_init)[0 := 5]\<rparr>))"
proof -
  have s: "step (cpu_init\<lparr>ram := (ram cpu_init)[0 := 130, 2 := 5]\<rparr>) None = Next (cpu_init\<lparr>ram := (ram cpu_init)[0 := 130, 2 := 5], pc := 3, reg := (reg cpu_init)[0 := 5]\<rparr>) (Some (0, Some 5))"
    by code_simp
  have r: "reaches (cpu_init\<lparr>ram := (ram cpu_init)[0 := 130, 2 := 5]\<rparr>) None (cpu_init\<lparr>ram := (ram cpu_init)[0 := 130, 2 := 5], pc := 3, reg := (reg cpu_init)[0 := 5]\<rparr>) (Some (0, Some 5))"
    by (rule reaches.step [OF s reaches.refl])
  have w: "fl_ok (cpu_init\<lparr>ram := (ram cpu_init)[0 := 130, 2 := 5]\<rparr>)"
    by (simp add: fl_ok_def cpu_init_def)
  show ?thesis using reaches_fl_out [OF r w] r w by simp
qed

text \<open>
  Claim C10. Only CMP writes the flags register: an iteration of
  the loop that executes any other instruction and goes on leaves FL as it was and keeps
  the output printed so far.
\<close>

theorem step_fl_only_cmp:
  assumes "step c ab = Next c' ab'" and "ram_read (pc c) c = Inr IR" and "IR \<noteq> CMP"
  shows "fl c' = fl c \<and> prefix (out c) (out c')"
proof -
  obtain IR' p ab1 where "ram_read (pc c) c = Inr IR'"
    and "execute IR' (c\<lparr>pc := p\<rparr>) ab1 = Next c' ab'"
    using step_NextE [OF assms(1)] by metis
  then show ?thesis using assms(2,3) execute_frame by fastforce
qed

theorem step_fl_only_cmp_witness:
  "step (cpu_init\<lparr>ram := (ram cpu_init)[0 := 130, 2 := 5]\<rparr>) None = Next (cpu_init\<lparr>ram := (ram cpu_init)[0 := 130, 2 := 5], pc := 3, reg := (reg cpu_init)[0 := 5]\<rparr>) (Some (0, Some 5)) \<and> ram_read (pc (cpu_init\<lparr>ram := (ram cpu_init)[0 := 130, 2 := 5]\<rparr>)) (cpu_init\<lparr>ram := (ram cpu_init)[0 := 130, 2 := 5]\<rparr>) = Inr 130 \<and>
   fl (cpu_init\<lparr>ram := (ram cpu_init)[0 := 130, 2 := 5], pc := 3, reg := (reg cpu_init)[0 := 5]\<rparr>) = fl (cpu_init\<lparr>ram := (ram cpu_init)[0 := 130, 2 := 5]\<rparr>) \<and> prefix (out (cpu_init\<lparr>ram := (ram cpu_init)[0 := 130, 2 := 5]\<rparr>)) (out (cpu_init\<lparr>ram := (ram cpu_init)[0 := 130, 2 := 5], pc := 3, reg := (reg cpu_init)[0 := 5]\<rparr>))"
proof -
  have s: "step (cpu_init\<lparr>ram := (ram cpu_init)[0 := 130, 2 := 5]\<rparr>) None = Next (cpu_init\<lparr>ram := (ram cpu_init)[0 := 130, 2 := 5], pc := 3, reg := (reg cpu_init)[0 := 5]\<rparr>) (Some (0, Some 5))"
    by code_simp
  have r: "ram_read (pc (cpu_init\<lparr>ram := (ram cpu_init)[0 := 130, 2 := 5]\<rparr>)) (cpu_init\<lparr>ram := (ram cpu_init)[0 := 130, 2 := 5]\<rparr>) = Inr 130"
    by code_simp
  have "(130::int) \<noteq> CMP" by (simp add: opcode_defs)
  then show ?thesis using step_fl_only_cmp [OF s r] s r by simp
qed

text \<open>
  Claim C12. The decoder: an iteration that executes an instruction
  other than HLT, CALL, RET, JMP, JEQ and JNE and continues leaves the program counter
  just past the instruction, 3 bytes on for top bits 10, 2 for 01, and 1 for 00 and for
  the undocumented 11, which is read as an instruction with no operands.
\<close>

theorem step_advances_pc:
  assumes "ram_read (pc c) c = Inr IR" and "IR \<notin> {HLT, CALL, RET, JMP, JEQ, JNE}"
    and "step c ab = Next c' ab'"
  shows "pc c' = pc c + (if operand_count IR = 2 then 3 else if operand_count IR = 1 then 2 else 1)"
proof -
  obtain c1 ab1 where f: "fetch (operand_count IR) c ab = Inr (c1, ab1)"
    and e: "execute IR c1 ab1 = Next c' ab'"
    using assms(1,3) by (auto simp: step_def split: sum.splits)
  from e assms(2) obtain a b where d: "dispatch IR a b c1 = Inr c'"
    by (auto simp: execute_def continue_with_def split: option.splits sum.splits)
  have "pc c' = pc c1" using dispatch_pc [OF _ d] assms(2) by blast
  with fetch_pc [OF f] show ?thesis by simp
qed

theorem step_advances_pc_witness:
  "ram_read (pc (cpu_init\<lparr>ram := (ram cpu_init)[0 := 130, 2 := 5]\<rparr>)) (cpu_init\<lparr>ram := (ram cpu_init)[0 := 130, 2 := 5]\<rparr>) = Inr LDI \<and> LDI \<notin> {HLT, CALL, RET, JMP, JEQ, JNE} \<and>
   step (cpu_init\<lparr>ram := (ram cpu_init)[0 := 130, 2 := 5]\<rparr>) None = Next (cpu_init\<lparr>ram := (ram cpu_init)[0 := 130, 2 := 5], pc := 3, reg := (reg cpu_init)[0 := 5]\<rparr>) (Some (0, Some 5)) \<and>
   pc (cpu_init\<lparr>ram := (ram cpu_init)[0 := 130, 2 := 5], pc := 3, reg := (reg cpu_init)[0 := 5]\<rparr>) = pc (cpu_init\<lparr>ram := (ram cpu_init)[0 := 130, 2 := 5]\<rparr>) +
     (if operand_count LDI = 2 then 3 else if operand_count LDI = 1 then 2 else 1)"
proof -
  have h: "ram_read (pc (cpu_init\<lparr>ram := (ram cpu_init)[0 := 130, 2 := 5]\<rparr>)) (cpu_init\<lparr>ram := (ram cpu_init)[0 := 130, 2 := 5]\<rparr>) = Inr LDI" "LDI \<notin> {HLT, CALL, RET, JMP, JEQ, JNE}"
    "step (cpu_init\<lparr>ram := (ram cpu_init)[0 := 130, 2 := 5]\<rparr>) None = Next (cpu_init\<lparr>ram := (ram cpu_init)[0 := 130, 2 := 5], pc := 3, reg := (reg cpu_init)[0 := 5]\<rparr>) (Some (0, Some 5))"
    by code_simp+
  show ?thesis using step_advances_pc [OF h] h by simp
qed

text \<open>
  Claim C6. CALL through a register followed by the RET it
  reaches returns to the address just after the two-byte CALL, with every register (the
  stack pointer included) as before; only the return address is left in the stack's
  memory cell.
\<close>

theorem call_ret_roundtrip:
  assumes "wf_cpu c" and "0 \<le> pc c" and "pc c + 1 < 256"
    and "ram c ! nat (pc c) = CALL" and "ram c ! nat (pc c + 1) = r" and "0 \<le> r" and "r < 7"
    and "reg c ! nat r = t" and "0 \<le> t" and "t < 256" and "ram c ! nat t = RET"
    and "- 255 \<le> reg c ! 7" and "reg c ! 7 \<le> 244"
    and "nat t \<noteq> nat ((reg c ! 7 - 1) mod 256)"
  shows "steps 2 c ab =
    Next (c\<lparr>pc := pc c + 2, ram := (ram c)[nat ((reg c ! 7 - 1) mod 256) := pc c + 2]\<rparr>) (Some (r, None))"
proof -
  let ?sp = "reg c ! 7"
  let ?cell = "nat ((?sp - 1) mod 256)"
  let ?c2 = "c\<lparr>pc := pc c + 2, reg := (reg c)[7 := ?sp - 1], ram := (ram c)[?cell := pc c + 2]\<rparr>"
  have w2: "wf_cpu ?c2" using assms(1) by (simp add: wf_cpu_def)
  have push: "push_mdr (pc c + 2) (c\<lparr>pc := pc c + 2\<rparr>) =
      Inr (?c2)"
    using assms by (simp add: push_mdr_ok)
  have dest: "get_reg r ?c2 = Inr t"
    using assms w2 by (simp add: get_reg_nat nth_list_update)
  have s1: "step c ab = Next (?c2\<lparr>pc := t\<rparr>) (Some (r, None))"
    using assms push dest by (simp add: step_eval)
  have s2: "step (?c2\<lparr>pc := t\<rparr>) (Some (r, None)) =
      Next (c\<lparr>pc := pc c + 2, ram := (ram c)[?cell := pc c + 2]\<rparr>) (Some (r, None))"
    using assms by (simp add: step_eval pop_mdr_ok wf_cpu_def)
  show ?thesis using s1 s2 by (simp add: numeral_2_eq_2)
qed

theorem call_ret_roundtrip_witness:
  "steps 2 (cpu_init\<lparr>reg := (reg cpu_init)[1 := 6], ram := (ram cpu_init)[0 := CALL, 1 := 1, 6 := RET]\<rparr>) None =
    Next ((cpu_init\<lparr>reg := (reg cpu_init)[1 := 6], ram := (ram cpu_init)[0 := CALL, 1 := 1, 6 := RET]\<rparr>)\<lparr>pc := 2, ram := (ram (cpu_init\<lparr>reg := (reg cpu_init)[1 := 6], ram := (ram cpu_init)[0 := CALL, 1 := 1, 6 := RET]\<rparr>))[243 := 2]\<rparr>) (Some (1, None))"
  using call_ret_roundtrip [where c = "cpu_init\<lparr>reg := (reg cpu_init)[1 := 6], ram := (ram cpu_init)[0 := CALL, 1 := 1, 6 := RET]\<rparr>" and r = 1 and t = 6 and ab = None]
  by (simp add: wf_cpu_def cpu_init_def opcode_defs SP_def)

text \<open>
  Claim C19. An instruction without operand bytes, other than HLT
  and RET, executed before any instruction with operands raises
  \<open>UnboundLocalError\<close>: the loop's locals \<^verbatim>\<open>a\<close> and \<^verbatim>\<open>b\<close> are
  passed to \<^verbatim>\<open>dispatch\<close> before they were ever assigned.
\<close>

theorem step_unbound_operands:
  assumes "ram_read (pc c) c = Inr IR" and "operand_count IR \<noteq> 1" and "operand_count IR \<noteq> 2"
    and "IR \<noteq> HLT" and "IR \<noteq> RET"
  shows "step c None = Stop (Raised UnboundLocalError (c\<lparr>pc := pc c + 1\<rparr>))"
proof -
  have "IR \<noteq> CALL" using assms(2) opcode_operand_counts by auto
  then show ?thesis
    using assms by (simp add: step_def fetch_def execute_def continue_with_def)
qed

theorem step_unbound_operands_witness:
  "ram_read (pc cpu_init) cpu_init = Inr NOP \<and>
   step cpu_init None = Stop (Raised UnboundLocalError (cpu_init\<lparr>pc := 1\<rparr>))"
proof -
  have h: "ram_read (pc cpu_init) cpu_init = Inr NOP" "operand_count NOP \<noteq> 1"
    "operand_count NOP \<noteq> 2" "NOP \<noteq> HLT" "NOP \<noteq> RET"
    by code_simp+
  show ?thesis using step_unbound_operands [OF h] h by (simp add: cpu_init_def)
qed

text \<open>
  Claim C18. LDI of a value into a register followed by PRN of that
  register prints the value's decimal rendering as one line and leaves the value in the
  register.
\<close>

theorem ldi_then_prn:
  assumes "wf_cpu c" and "0 \<le> pc c" and "pc c + 4 < 256"
    and "ram c ! nat (pc c) = LDI" and "ram c ! nat (pc c + 1) = r" and "ram c ! nat (pc c + 2) = v"
    and "ram c ! nat (pc c + 3) = PRN" and "ram c ! nat (pc c + 4) = r" and "0 \<le> r" and "r < 8"
  shows "steps 2 c ab =
    Next (c\<lparr>pc := pc c + 5, reg := (reg c)[nat r := v], out := out c @ [py_str v]\<rparr>) (Some (r, None))"
proof -
  let ?c1 = "c\<lparr>pc := pc c + 3, reg := (reg c)[nat r := v]\<rparr>"
  have w1: "wf_cpu ?c1" using assms(1) by (simp add: wf_cpu_def)
  have s1: "step c ab = Next ?c1 (Some (r, Some v))"
    using assms by (simp add: step_eval dispatch_simps ldi_foo_def set_reg_nat)
  have len: "nat r < length (reg c)" using assms(1,9,10) by (simp add: wf_cpu_def)
  have s2: "step ?c1 (Some (r, Some v)) =
      Next (c\<lparr>pc := pc c + 5, reg := (reg c)[nat r := v], out := out c @ [py_str v]\<rparr>) (Some (r, None))"
    using assms w1 len by (simp add: step_eval dispatch_simps print_foo_def get_reg_nat add.assoc)
  show ?thesis using s1 s2 by (simp add: numeral_2_eq_2)
qed

theorem ldi_then_prn_witness:
  "steps 2 (cpu_init\<lparr>ram := (ram cpu_init)[0 := LDI, 1 := 0, 2 := 42, 3 := PRN, 4 := 0]\<rparr>) None =
    Next ((cpu_init\<lparr>ram := (ram cpu_init)[0 := LDI, 1 := 0, 2 := 42, 3 := PRN, 4 := 0]\<rparr>)\<lparr>pc := 5, reg := (reg cpu_init)[0 := 42], out := [''42'']\<rparr>) (Some (0, None))"
proof -
  have p: "py_str 42 = ''42''" by code_simp
  show ?thesis
    using ldi_then_prn [where c = "cpu_init\<lparr>ram := (ram cpu_init)[0 := LDI, 1 := 0, 2 := 42, 3 := PRN, 4 := 0]\<rparr>" and r = 0 and v = 42 and ab = None]
    by (simp add: wf_cpu_def cpu_init_def opcode_defs SP_def p)
qed

text \<open>
  Claim C11. The loop leaves the Running state for Halted only
  through a HLT: an iteration that halts has fetched the opcode HLT, and its only effect
  is to move the program counter past it.
\<close>

theorem step_halts_only_on_HLT:
  assumes "step c ab = Stop (Halted c')"
  shows "ram_read (pc c) c = Inr HLT \<and> c' = c\<lparr>pc := pc c + 1\<rparr>"
proof (cases "ram_read (pc c) c")
  case (Inl e)
  with assms show ?thesis by (simp add: step_def)
next
  case (Inr IR)
  show ?thesis
  proof (cases "fetch (operand_count IR) c ab")
    case (Inl ec)
    with assms Inr show ?thesis by (auto simp: step_def split: prod.splits)
  next
    case (Inr r)
    obtain c1 ab1 where r: "r = (c1, ab1)" by (cases r)
    from assms Inr r \<open>ram_read (pc c) c = Inr IR\<close>
    have "execute IR c1 ab1 = Stop (Halted c')" by (simp add: step_def)
    then have ir: "IR = HLT" and c1: "c' = c1"
      by (auto simp: execute_def continue_with_not_Halted split: if_splits)
    have "operand_count HLT = 0" by (simp add: opcode_operand_counts)
    with Inr r ir have "c1 = c\<lparr>pc := pc c + 1\<rparr>" by (simp add: fetch_def)
    with ir c1 \<open>ram_read (pc c) c = Inr IR\<close> show ?thesis by simp
  qed
qed

theorem step_halts_only_on_HLT_witness:
  "step (cpu_init\<lparr>ram := (ram cpu_init)[0 := 1]\<rparr>) None =
     Stop (Halted (cpu_init\<lparr>ram := (ram cpu_init)[0 := 1], pc := 1\<rparr>)) \<and>
   ram_read 0 (cpu_init\<lparr>ram := (ram cpu_init)[0 := 1]\<rparr>) = Inr HLT"
proof -
  have s: "step (cpu_init\<lparr>ram := (ram cpu_init)[0 := 1]\<rparr>) None =
     Stop (Halted (cpu_init\<lparr>ram := (ram cpu_init)[0 := 1], pc := 1\<rparr>))"
    by code_simp
  show ?thesis using step_halts_only_on_HLT [OF s] s by (simp add: cpu_init_def)
qed

end
