(* ===== verification/Loader.thy ===== *)
theory Loader
  imports Run
begin

text \<open>
  The program loader and entry point \<^verbatim>\<open>main\<close> of \<^verbatim>\<open>src/ls8.py\<close> (lines 10 to
  23). \<^verbatim>\<open>main\<close> reads the program file's lines, cuts each line at its first
  \<^verbatim>\<open>#\<close> and strips white space, drops the lines that are then empty, and converts
  every other line with \<^verbatim>\<open>int(n, 2)\<close>; then it builds a \<^verbatim>\<open>CPU\<close>, loads the
  list and runs it. Opening and reading the file is I/O: the model takes the list of
  lines \<^verbatim>\<open>f.readlines()\<close> returns. Characters are HOL \<open>char\<close>s, the code
  points 0 to 255; Python's \<^verbatim>\<open>str.strip\<close> and \<^verbatim>\<open>int(s, 2)\<close> are modelled on
  that range, where Python's white space is the characters 9 to 13, 28 to 32, 133 and 160
  and its binary digits are 0 and 1.

  \<^verbatim>\<open>int(s, 2)\<close> accepts more than the eight-digit lines the specification
  describes (section 6): an optional sign, an optional prefix \<^verbatim>\<open>0b\<close> or
  \<^verbatim>\<open>0B\<close>, single underscores between digits (and after the prefix), and any number
  of digits. Anything else raises \<open>ValueError\<close>, which \<^verbatim>\<open>main\<close> does not catch.
\<close>

text \<open>Python's \<^verbatim>\<open>str.isspace\<close> on the code points 0 to 255.\<close>

definition py_isspace :: "char \<Rightarrow> bool" where
  "py_isspace ch =
     (let n = (of_char ch :: nat) in (9 \<le> n \<and> n \<le> 13) \<or> (28 \<le> n \<and> n \<le> 32) \<or> n = 133 \<or> n = 160)"

definition py_strip :: "string \<Rightarrow> string" where
  "py_strip s = rev (dropWhile py_isspace (rev (dropWhile py_isspace s)))"

text \<open>\<^verbatim>\<open>code.split('#')[0]\<close>: the text before the first \<^verbatim>\<open>#\<close>.\<close>

definition split_comment :: "string \<Rightarrow> string" where
  "split_comment code = takeWhile (\<lambda>ch. ch \<noteq> CHR ''#'') code"

text \<open>
  The digit part of a base-2 literal: binary digits with single underscores between
  them, and a leading underscore only after a \<^verbatim>\<open>0b\<close> prefix.
\<close>

fun no_double_underscore :: "string \<Rightarrow> bool" where
  "no_double_underscore (a # b # s) =
     (\<not> (a = CHR ''_'' \<and> b = CHR ''_'') \<and> no_double_underscore (b # s))"
| "no_double_underscore _ = True"

definition bin_body_ok :: "bool \<Rightarrow> string \<Rightarrow> bool" where
  "bin_body_ok prefixed s =
     (s \<noteq> [] \<and> set s \<subseteq> {CHR ''0'', CHR ''1'', CHR ''_''} \<and> last s \<noteq> CHR ''_''
      \<and> no_double_underscore s \<and> (prefixed \<or> hd s \<noteq> CHR ''_''))"

definition bin_value :: "string \<Rightarrow> int" where
  "bin_value s =
     foldl (\<lambda>acc ch. if ch = CHR ''_'' then acc else 2 * acc + (if ch = CHR ''1'' then 1 else 0)) 0 s"

text \<open>Python's \<^verbatim>\<open>int(s, 2)\<close>.\<close>

definition py_int_base2 :: "string \<Rightarrow> exn + int" where
  "py_int_base2 s0 =
     (let s = py_strip s0;
          (neg, s1) = (case s of
                          ch # r \<Rightarrow>
                            if ch = CHR ''-'' then (True, r)
                            else if ch = CHR ''+'' then (False, r) else (False, s)
                        | [] \<Rightarrow> (False, []));
          (prefixed, s2) = (case s1 of
                               c1 # c2 # r \<Rightarrow>
                                 if c1 = CHR ''0'' \<and> (c2 = CHR ''b'' \<or> c2 = CHR ''B'') then (True, r)
                                 else (False, s1)
                             | _ \<Rightarrow> (False, s1))
      in if bin_body_ok prefixed s2 then Inr (if neg then - bin_value s2 else bin_value s2)
         else Inl ValueError)"

text \<open>
  \<^verbatim>\<open>list(map(int(_, 2), filter(len > 0, map(strip . split('#')[0], lines))))\<close>:
  the first line that does not convert raises.
\<close>

fun convert_all :: "string list \<Rightarrow> exn + int list" where
  "convert_all [] = Inr []"
| "convert_all (n # ns) =
     ebind (py_int_base2 n) (\<lambda>v. ebind (convert_all ns) (\<lambda>vs. Inr (v # vs)))"

definition parse_program :: "string list \<Rightarrow> exn + int list" where
  "parse_program lines =
     convert_all (filter (\<lambda>s. length s > 0) (map (\<lambda>code. py_strip (split_comment code)) lines))"

text \<open>
  The encoding of the specification (section 6), used to state the loader's round trip:
  \<open>w\<close> binary digits, most significant first.
\<close>

fun bin_digits :: "nat \<Rightarrow> nat \<Rightarrow> string" where
  "bin_digits 0 n = []"
| "bin_digits (Suc w) n = bin_digits w (n div 2) @ [if odd n then CHR ''1'' else CHR ''0'']"

text \<open>A program file in that encoding: one byte per line, then a comment.\<close>

definition encode_program :: "(nat \<times> string) list \<Rightarrow> string list" where
  "encode_program prog = map (\<lambda>(n, cmt). bin_digits 8 n @ '' #'' @ cmt) prog"

text \<open>How \<^verbatim>\<open>main\<close> ends: a line that does not parse, or the CPU's run.\<close>

datatype ls8_outcome = ParseFailed exn | Ended final

text \<open>
  \<^verbatim>\<open>cpu = CPU(); cpu.load(program); cpu.run()\<close> (lines 21 to 23): an exception of
  \<^verbatim>\<open>load\<close> ends the run before the loop starts. \<open>None\<close> is a run that never
  stops.
\<close>

definition load_and_run :: "int list \<Rightarrow> final option" where
  "load_and_run program =
     (case load (Some program) cpu_init of
        Inl (e, c) \<Rightarrow> Some (Raised e c)
      | Inr c \<Rightarrow> cpu_run c)"

text \<open>\<^verbatim>\<open>main(program_file)\<close> on the file's lines.\<close>

definition ls8_main :: "string list \<Rightarrow> ls8_outcome option" where
  "ls8_main lines =
     (case parse_program lines of
        Inl e \<Rightarrow> Some (ParseFailed e)
      | Inr program \<Rightarrow> map_option Ended (load_and_run program))"

section \<open>Lemmas on the line parser and on running a program\<close>

text \<open>
  A run of a concrete program is evaluated by the kernel: if the loaded program stops
  within \<open>n\<close> iterations with an outcome satisfying \<open>P\<close>, then
  \<open>load_and_run\<close> returns that outcome.
\<close>

lemma load_and_run_by_steps:
  assumes "case load (Some p) cpu_init of
             Inl ec \<Rightarrow> False
           | Inr c \<Rightarrow> (case steps n c None of Stop f \<Rightarrow> P f | Next c' ab' \<Rightarrow> False)"
  shows "\<exists>f. load_and_run p = Some f \<and> P f"
proof (cases "load (Some p) cpu_init")
  case (Inl ec)
  with assms show ?thesis by simp
next
  case (Inr c)
  show ?thesis
  proof (cases "steps n c None")
    case (Stop f)
    then have "run c None = Some f" by (rule steps_Stop_run)
    with Inr Stop assms show ?thesis by (auto simp: load_and_run_def cpu_run_def)
  next
    case (Next c' ab')
    with Inr assms show ?thesis by simp
  qed
qed


lemma load_and_run_halts:
  assumes "case load (Some p) cpu_init of
             Inl ec \<Rightarrow> False
           | Inr c \<Rightarrow> (case steps n c None of
                          Stop f \<Rightarrow> (case f of Halted c' \<Rightarrow> P c' | Raised e c' \<Rightarrow> False)
                        | Next c' ab' \<Rightarrow> False)"
  shows "\<exists>c. load_and_run p = Some (Halted c) \<and> P c"
proof -
  from load_and_run_by_steps [OF assms] obtain f where
    f: "load_and_run p = Some f" and P: "case f of Halted c' \<Rightarrow> P c' | Raised e c' \<Rightarrow> False"
    by blast
  show ?thesis
  proof (cases f)
    case (Halted c')
    with f P show ?thesis by auto
  next
    case (Raised e c')
    with P show ?thesis by simp
  qed
qed

lemma bin_value_snoc: "bin_value (xs @ [ch]) =
   (if ch = CHR ''_'' then bin_value xs else 2 * bin_value xs + (if ch = CHR ''1'' then 1 else 0))"
  by (simp add: bin_value_def)

lemma bin_value_bin_digits: "bin_value (bin_digits w n) = int (n mod 2 ^ w)"
proof (induction w arbitrary: n)
  case 0
  then show ?case by (simp add: bin_value_def)
next
  case (Suc w)
  have "n mod 2 ^ Suc w = 2 * (n div 2 mod 2 ^ w) + n mod 2"
    by (simp add: mod_mult2_eq mult.commute)
  then show ?case using Suc.IH by (auto simp: bin_value_snoc odd_iff_mod_2_eq_one)
qed

lemma set_bin_digits: "set (bin_digits w n) \<subseteq> {CHR ''0'', CHR ''1''}"
  by (induction w arbitrary: n) auto

lemma length_bin_digits [simp]: "length (bin_digits w n) = w"
  by (induction w arbitrary: n) auto

lemma bin_digits_nonempty [simp]: "bin_digits (Suc w) n \<noteq> []"
  by simp

lemma bin_digits_8_nonempty [simp]: "bin_digits 8 n \<noteq> []"
  by (simp add: numeral_eq_Suc)

lemma no_double_underscore_01: "set s \<subseteq> {CHR ''0'', CHR ''1''} \<Longrightarrow> no_double_underscore s"
  by (induction s rule: no_double_underscore.induct) auto

lemma py_isspace_01: "ch \<in> {CHR ''0'', CHR ''1''} \<Longrightarrow> \<not> py_isspace ch"
  by (auto simp: py_isspace_def)

lemma dropWhile_space_01: "set s \<subseteq> {CHR ''0'', CHR ''1''} \<Longrightarrow> dropWhile py_isspace s = s"
  by (cases s) (auto simp: py_isspace_01)

lemma py_strip_01_space:
  assumes "set s \<subseteq> {CHR ''0'', CHR ''1''}" and "set sp \<subseteq> {CHR '' ''}" and "s \<noteq> []"
  shows "py_strip (s @ sp) = s"
proof -
  have sp: "\<And>x. x \<in> set (rev sp) \<Longrightarrow> py_isspace x"
    using assms(2) by (auto simp: py_isspace_def)
  have "dropWhile py_isspace (rev sp @ rev s) = dropWhile py_isspace (rev s)"
    using sp by (rule dropWhile_append2)
  also have "\<dots> = rev s" using assms(1) by (simp add: dropWhile_space_01)
  finally have "dropWhile py_isspace (rev sp @ rev s) = rev s" .
  moreover have "dropWhile py_isspace (s @ sp) = s @ sp"
    using assms by (cases s) (auto simp: py_isspace_01)
  ultimately show ?thesis using assms by (simp add: py_strip_def dropWhile_space_01)
qed

lemma py_int_base2_01:
  assumes "set s \<subseteq> {CHR ''0'', CHR ''1''}" and "s \<noteq> []"
  shows "py_int_base2 s = Inr (bin_value s)"
proof -
  have strip: "py_strip s = s" using py_strip_01_space [OF assms(1) _ assms(2), of "[]"] by simp
  obtain c r where s: "s = c # r" using assms(2) by (cases s) auto
  have c: "c \<in> {CHR ''0'', CHR ''1''}" using assms(1) s by auto
  have pre: "(case s of c1 # c2 # r \<Rightarrow>
                 if c1 = CHR ''0'' \<and> (c2 = CHR ''b'' \<or> c2 = CHR ''B'') then (True, r) else (False, s)
               | _ \<Rightarrow> (False, s)) = (False, s)"
    using assms(1) by (auto split: list.splits)
  have ok: "bin_body_ok False s"
  proof -
    have "hd s \<in> {CHR ''0'', CHR ''1''}" and "last s \<in> {CHR ''0'', CHR ''1''}"
      using assms hd_in_set last_in_set by blast+
    then show ?thesis using assms by (auto simp: bin_body_ok_def no_double_underscore_01)
  qed
  show ?thesis using strip c s pre ok by (auto simp: py_int_base2_def)
qed

lemma clean_encoded_line:
  "py_strip (split_comment (bin_digits 8 n @ CHR '' '' # CHR ''#'' # cmt)) = bin_digits 8 n"
proof -
  have no_hash: "\<And>x. x \<in> set (bin_digits 8 n) \<Longrightarrow> x \<noteq> CHR ''#''"
    using set_bin_digits [of 8 n] by auto
  have "split_comment (bin_digits 8 n @ CHR '' '' # CHR ''#'' # cmt) = bin_digits 8 n @ '' ''"
    unfolding split_comment_def using no_hash by simp
  then show ?thesis using set_bin_digits [of 8 n] by (simp add: py_strip_01_space)
qed

lemma py_int_base2_bin8: "n < 256 \<Longrightarrow> py_int_base2 (bin_digits 8 n) = Inr (int n)"
proof -
  assume "n < 256"
  then show ?thesis
    using set_bin_digits [of 8 n] by (simp add: py_int_base2_01 bin_value_bin_digits)
qed

lemma py_strip_plain:
  assumes "t \<noteq> []" and "\<not> py_isspace (hd t)" and "\<not> py_isspace (last t)"
  shows "py_strip t = t"
proof -
  have "dropWhile py_isspace t = t" using assms by (cases t) auto
  moreover have "dropWhile py_isspace (rev t) = rev t"
    using assms by (cases "rev t") (auto simp: rev_eq_Cons_iff)
  ultimately show ?thesis by (simp add: py_strip_def)
qed

lemma parse_program_single:
  assumes "CHR ''#'' \<notin> set t" and "t \<noteq> []" and "\<not> py_isspace (hd t)" and "\<not> py_isspace (last t)"
  shows "parse_program [t] = ebind (py_int_base2 t) (\<lambda>v. Inr [v])"
proof -
  have "split_comment t = t" using assms(1) by (auto simp: split_comment_def)
  then show ?thesis using assms by (simp add: parse_program_def py_strip_plain)
qed

lemma py_int_base2_signed:
  assumes "set s \<subseteq> {CHR ''0'', CHR ''1''}" and "s \<noteq> []"
  shows "py_int_base2 (CHR ''-'' # s) = Inr (- bin_value s) \<and> py_int_base2 (CHR ''0'' # CHR ''b'' # s) = Inr (bin_value s)"
proof -
  have ls: "\<not> py_isspace (last s)" using assms last_in_set py_isspace_01 by blast
  have strip: "py_strip (CHR ''-'' # s) = CHR ''-'' # s" "py_strip (CHR ''0'' # CHR ''b'' # s) = CHR ''0'' # CHR ''b'' # s"
    using ls assms(2) by (simp_all add: py_strip_plain py_isspace_def)
  obtain c r where s: "s = c # r" using assms(2) by (cases s) auto
  have c: "c \<in> {CHR ''0'', CHR ''1''}" using assms(1) s by auto
  have ok: "bin_body_ok False s" "bin_body_ok True s"
  proof -
    have "hd s \<in> {CHR ''0'', CHR ''1''}" and "last s \<in> {CHR ''0'', CHR ''1''}"
      using assms hd_in_set last_in_set by blast+
    then show "bin_body_ok False s" "bin_body_ok True s"
      using assms by (auto simp: bin_body_ok_def no_double_underscore_01)
  qed
  have pre: "(case s of c1 # c2 # r \<Rightarrow>
                 if c1 = CHR ''0'' \<and> (c2 = CHR ''b'' \<or> c2 = CHR ''B'') then (True, r) else (False, s)
               | _ \<Rightarrow> (False, s)) = (False, s)"
    using assms(1) by (auto split: list.splits)
  show ?thesis using strip c s pre ok by (auto simp: py_int_base2_def)
qed

lemma bin_value_nonneg: "0 \<le> bin_value s"
  by (induction s rule: rev_induct) (auto simp: bin_value_snoc bin_value_def)

lemma bin_value_Cons:
  "set s \<subseteq> {CHR ''0'', CHR ''1''} \<Longrightarrow> bin_value (c # s) = bin_value [c] * 2 ^ length s + bin_value s"
proof (induction s rule: rev_induct)
  case Nil
  then show ?case by (simp add: bin_value_def)
next
  case (snoc x xs)
  have "bin_value (c # xs @ [x]) = bin_value ((c # xs) @ [x])" by simp
  then show ?case using snoc by (auto simp only: bin_value_snoc) (auto simp: algebra_simps)
qed

lemma parse_encoded:
  "parse_program (encode_program prog) = convert_all (map (bin_digits 8) (map fst prog))"
proof -
  have "filter (\<lambda>s. length s > 0) (map (\<lambda>code. py_strip (split_comment code)) (encode_program prog)) =
     map (bin_digits 8) (map fst prog)"
    by (induction prog) (auto simp: encode_program_def clean_encoded_line)
  then show ?thesis by (simp only: parse_program_def)
qed

lemma convert_all_bin8:
  "\<forall>n \<in> set ns. n < 256 \<Longrightarrow> convert_all (map (bin_digits 8) ns) = Inr (map int ns)"
  by (induction ns) (simp_all add: py_int_base2_bin8)

lemma parse_encoded_bytes:
  assumes "\<forall>(n, cmt) \<in> set prog. n < 256"
  shows "convert_all (map (bin_digits 8) (map fst prog)) = Inr (map (\<lambda>(n, cmt). int n) prog)"
proof -
  have "\<forall>n \<in> set (map fst prog). n < 256" using assms by auto
  then have "convert_all (map (bin_digits 8) (map fst prog)) = Inr (map int (map fst prog))"
    by (rule convert_all_bin8)
  also have "map int (map fst prog) = map (\<lambda>(n, cmt). int n) prog"
    by (auto simp: case_prod_beta)
  finally show ?thesis .
qed

section \<open>Properties of the loader\<close>

text \<open>
  Claim C24. A program file in the specification's encoding, one
  byte per line as eight binary digits followed by a comment, is read back by
  \<^verbatim>\<open>main\<close> as exactly the list of bytes it encodes.
\<close>

theorem parse_program_roundtrip:
  assumes "\<forall>(n, cmt) \<in> set prog. n < 256"
  shows "parse_program (encode_program prog) = Inr (map (\<lambda>(n, cmt). int n) prog)"
  using assms by (simp only: parse_encoded parse_encoded_bytes)

theorem parse_program_roundtrip_witness:
  "parse_program (encode_program [(130, '' LDI R0,8''), (0, ''''), (8, ''''), (1, '' HLT'')]) =
     Inr [130, 0, 8, 1]"
proof -
  have h: "\<forall>(n, cmt) \<in> set [(130::nat, '' LDI R0,8''), (0, ''''), (8, ''''), (1, '' HLT'')]. n < 256"
    by simp
  show ?thesis using parse_program_roundtrip [OF h] by simp
qed

text \<open>
  Claim C25. The loader accepts lines the specification's encoding
  (section 6: eight binary digits) does not allow, and loads values that are not bytes:
  a line of nine or more digits starting with 1 gives a value of at least 256, a leading
  minus sign gives a negative value, and a \<^verbatim>\<open>0b\<close> prefix is accepted.
\<close>

theorem parse_accepts_non_bytes:
  assumes "set s \<subseteq> {CHR ''0'', CHR ''1''}" and "s \<noteq> []"
  shows "parse_program [CHR ''1'' # s] = Inr [bin_value (CHR ''1'' # s)] \<and>
    2 ^ length s \<le> bin_value (CHR ''1'' # s) \<and>
    parse_program [CHR ''-'' # s] = Inr [- bin_value s] \<and>
    parse_program [''0b'' @ s] = Inr [bin_value s]"
proof -
  have one: "set (CHR ''1'' # s) \<subseteq> {CHR ''0'', CHR ''1''}" using assms(1) by simp
  have ls: "\<not> py_isspace (last s)" using assms last_in_set py_isspace_01 by blast
  have nh: "CHR ''#'' \<notin> set s" using assms(1) by auto
  have "parse_program [CHR ''1'' # s] = Inr [bin_value (CHR ''1'' # s)]"
    using one ls nh assms(2) by (simp add: parse_program_single py_int_base2_01 py_isspace_def)
  moreover have "2 ^ length s \<le> bin_value (CHR ''1'' # s)"
  proof -
    have "bin_value [CHR ''1''] = 1" by (simp add: bin_value_def)
    then show ?thesis using bin_value_Cons [OF assms(1), of "CHR ''1''"] bin_value_nonneg [of s] by simp
  qed
  moreover have "parse_program [CHR ''-'' # s] = Inr [- bin_value s]"
    using assms ls nh by (simp add: parse_program_single py_int_base2_signed py_isspace_def)
  moreover have "parse_program [''0b'' @ s] = Inr [bin_value s]"
    using assms ls nh by (simp add: parse_program_single py_int_base2_signed py_isspace_def)
  ultimately show ?thesis by blast
qed

theorem parse_accepts_non_bytes_witness:
  "parse_program [''111111111''] = Inr [511] \<and> parse_program [''-11111111''] = Inr [-255] \<and>
   parse_program [''0b11111111''] = Inr [255]"
proof -
  have h: "set ''11111111'' \<subseteq> {CHR ''0'', CHR ''1''}" "''11111111'' \<noteq> []" by simp_all
  have b: "bin_value ''111111111'' = 511" "bin_value ''11111111'' = 255" by code_simp+
  have a: "''0b'' @ ''11111111'' = ''0b11111111''" by simp
  show ?thesis using parse_accepts_non_bytes [OF h] unfolding a b by simp
qed

end
