(* ===== verification/Cli.thy ===== *)
theory Cli
  imports Loader
begin

text \<open>
  The command line entry point of \<^verbatim>\<open>src/ls8.py\<close>: \<^verbatim>\<open>resolve_program\<close>
  (lines 26 to 36) and the \<^verbatim>\<open>__main__\<close> block (lines 39 to 51). The file system
  is a parameter: \<open>exists\<close> is \<^verbatim>\<open>os.path.exists\<close> and \<open>readlines\<close> the lines
  \<^verbatim>\<open>open(f).readlines()\<close> returns. \<open>here\<close> is
  \<^verbatim>\<open>path.abspath(path.dirname(__file__))\<close>, an absolute normalised directory, so that
  the examples directory \<^verbatim>\<open>abspath(join(dirname(__file__), "examples"))\<close> is
  \<open>path_join here ''examples''\<close>. The printed lines are a list of strings, the CPU's
  \<^verbatim>\<open>print\<close> output first.
\<close>

text \<open>\<^verbatim>\<open>str.split(sep)\<close> for a one-character separator.\<close>

fun split_acc :: "char \<Rightarrow> string \<Rightarrow> string \<Rightarrow> string list" where
  "split_acc d acc [] = [rev acc]"
| "split_acc d acc (x # xs) =
     (if x = d then rev acc # split_acc d [] xs else split_acc d (x # acc) xs)"

definition py_split :: "char \<Rightarrow> string \<Rightarrow> string list" where
  "py_split d s = split_acc d [] s"

text \<open>\<^verbatim>\<open>os.path.join(a, b)\<close> on POSIX.\<close>

definition path_join :: "string \<Rightarrow> string \<Rightarrow> string" where
  "path_join a b =
     (if take 1 b = ''/'' then b
      else if a = [] \<or> last a = CHR ''/'' then a @ b
      else a @ ''/'' @ b)"

text \<open>
  \<^verbatim>\<open>resolve_program()\<close>: \<^verbatim>\<open>argv[1]\<close> (an \<open>IndexError\<close> when there is no
  argument), its last path component up to the first dot, with \<^verbatim>\<open>.ls8\<close> appended,
  in the examples directory when that exists and beside the script otherwise.
\<close>

definition resolve_program ::
  "string \<Rightarrow> (string \<Rightarrow> bool) \<Rightarrow> string list \<Rightarrow> exn + string" where
  "resolve_program here exists argv =
     ebind (py_get argv 1) (\<lambda>program.
       let examples_dir = path_join here ''examples'';
           fname = hd (py_split CHR ''.'' (last (py_split CHR ''/'' program))) @ ''.ls8''
       in Inr (if exists examples_dir then path_join examples_dir fname
               else path_join here fname))"

text \<open>How the script ends: normally, or with an exception it does not catch.\<close>

datatype cli_end = Completed | Uncaught exn

text \<open>The five \<^verbatim>\<open>print\<close> calls of the \<^verbatim>\<open>except IndexError\<close> branch.\<close>

definition usage_banner :: "string list" where
  "usage_banner =
     [CHR 0x0A # ''    ---------------------- '',
      ''      REQUIRES A PROGRAM '',
      ''    ---------------------- '' @ [CHR 0x0A],
      ''***   USAGE: python3 ls8.py PROGRAM   ***'',
      CHR 0x0A # ''*** EXAMPLE: python3 ls8.py sctest ***'' @ [CHR 0x0A]]"

text \<open>
  The \<^verbatim>\<open>except\<close> clauses: an \<open>IndexError\<close> raised anywhere in the
  \<^verbatim>\<open>try\<close> block prints the usage banner after what was printed so far; any other
  exception escapes.
\<close>

definition handle_exn :: "string list \<Rightarrow> exn \<Rightarrow> string list \<times> cli_end" where
  "handle_exn printed e =
     (if e = IndexError then (printed @ usage_banner, Completed) else (printed, Uncaught e))"

text \<open>What \<^verbatim>\<open>main(program_file)\<close> printed and how it ended.\<close>

fun main_result :: "ls8_outcome \<Rightarrow> string list \<times> cli_end" where
  "main_result (ParseFailed e) = handle_exn [] e"
| "main_result (Ended (Halted c)) = (out c, Completed)"
| "main_result (Ended (Raised e c)) = handle_exn (out c) e"

text \<open>
  The \<^verbatim>\<open>__main__\<close> block: resolve the file name, \<^verbatim>\<open>assert\<close> that it exists
  (an \<^verbatim>\<open>AssertionError\<close> prints \<^verbatim>\<open>cannot find program\<close>), and run
  \<^verbatim>\<open>main\<close>. \<open>None\<close> is a program that never halts.
\<close>

definition ls8_script ::
  "string \<Rightarrow> (string \<Rightarrow> bool) \<Rightarrow> (string \<Rightarrow> string list) \<Rightarrow> string list
     \<Rightarrow> (string list \<times> cli_end) option" where
  "ls8_script here exists readlines argv =
     (case resolve_program here exists argv of
        Inl e \<Rightarrow> Some (handle_exn [] e)
      | Inr program_file \<Rightarrow>
          if \<not> exists program_file
          then Some ([''cannot find program: '' @ argv ! 1], Completed)
          else map_option main_result (ls8_main (readlines program_file)))"

section \<open>Lemmas on splitting path names\<close>

lemma split_acc_nonempty [simp]: "split_acc d acc s \<noteq> []"
  by (induction s arbitrary: acc) auto

lemma split_acc_no_sep: "d \<notin> set s \<Longrightarrow> split_acc d acc s = [rev acc @ s]"
  by (induction s arbitrary: acc) auto

lemma hd_split_acc_sep:
  "d \<notin> set s \<Longrightarrow> hd (split_acc d acc (s @ d # t)) = rev acc @ s"
  by (induction s arbitrary: acc) auto

lemma last_split_acc_sep:
  "last (split_acc d acc (s @ d # t)) = last (split_acc d [] t)"
  by (induction s arbitrary: acc) auto

lemma resolve_program_Inr:
  "1 < length argv \<Longrightarrow> resolve_program here exists argv =
     Inr (let fname = hd (py_split CHR ''.'' (last (py_split CHR ''/'' (argv ! 1)))) @ ''.ls8''
          in if exists (path_join here ''examples'') then path_join (path_join here ''examples'') fname
             else path_join here fname)"
  by (simp add: resolve_program_def py_get_def py_index_def Let_def)

section \<open>Properties of the command line entry point\<close>

text \<open>
  Claim C26. Started without a program argument, the script prints the
  usage banner and nothing else, whatever the file system holds.
\<close>

theorem cli_no_argument:
  assumes "length argv < 2"
  shows "ls8_script here exists readlines argv = Some (usage_banner, Completed)"
  using assms
  by (simp add: ls8_script_def resolve_program_def py_get_def py_index_def handle_exn_def)

theorem cli_no_argument_witness:
  "length [''ls8.py''] < 2 \<and>
   ls8_script ''/ls8'' (\<lambda>p. True) (\<lambda>p. []) [''ls8.py''] = Some (usage_banner, Completed)"
  using cli_no_argument [where argv = "[''ls8.py'']" and here = "''/ls8''"
      and exists = "\<lambda>p. True" and readlines = "\<lambda>p. []"]
  by simp

text \<open>
  Claim C27. \<^verbatim>\<open>resolve_program\<close> keeps only the base name
  of its argument: a path with directories and an extension names the same file as the
  bare program name.
\<close>

theorem resolve_program_basename:
  assumes "CHR ''/'' \<notin> set name" "CHR ''.'' \<notin> set name" "CHR ''/'' \<notin> set ext"
  shows "resolve_program here exists [arg0, dir @ ''/'' @ name @ ''.'' @ ext] =
    resolve_program here exists [arg0, name]"
proof -
  have "last (py_split CHR ''/'' (dir @ CHR ''/'' # name @ CHR ''.'' # ext)) = name @ CHR ''.'' # ext"
    using assms by (simp add: py_split_def last_split_acc_sep split_acc_no_sep)
  moreover have "hd (py_split CHR ''.'' (name @ CHR ''.'' # ext)) = name"
    using assms by (simp add: py_split_def hd_split_acc_sep)
  moreover have "last (py_split CHR ''/'' name) = name" "hd (py_split CHR ''.'' name) = name"
    using assms by (simp_all add: py_split_def split_acc_no_sep)
  ultimately show ?thesis
    by (simp add: resolve_program_Inr)
qed

theorem resolve_program_basename_witness:
  "resolve_program ''/ls8'' (\<lambda>p. True) [''ls8.py'', ''examples/sctest.ls8''] =
     resolve_program ''/ls8'' (\<lambda>p. True) [''ls8.py'', ''sctest''] \<and>
   resolve_program ''/ls8'' (\<lambda>p. True) [''ls8.py'', ''sctest''] = Inr ''/ls8/examples/sctest.ls8''"
proof -
  have "resolve_program ''/ls8'' (\<lambda>p. True) [''ls8.py'', ''examples'' @ ''/'' @ ''sctest'' @ ''.'' @ ''ls8''] =
     resolve_program ''/ls8'' (\<lambda>p. True) [''ls8.py'', ''sctest'']"
    by (rule resolve_program_basename) simp_all
  moreover have "resolve_program ''/ls8'' (\<lambda>p. True) [''ls8.py'', ''sctest''] = Inr ''/ls8/examples/sctest.ls8''"
    by code_simp
  ultimately show ?thesis by simp
qed

text \<open>
  Claim C28. The \<^verbatim>\<open>except IndexError\<close> clause meant for a
  missing argument also catches an \<open>IndexError\<close> of the running program: whenever the
  program file resolves and exists and its run raises \<open>IndexError\<close> (a register, memory
  or stack access out of range), the script prints what the program printed followed by
  the usage banner, as if no program had been given, and ends normally.
\<close>

theorem cli_runtime_index_error:
  assumes "resolve_program here exists argv = Inr f" and "exists f"
    and "ls8_main (readlines f) = Some (Ended (Raised IndexError c))"
  shows "ls8_script here exists readlines argv = Some (out c @ usage_banner, Completed)"
  using assms by (simp add: ls8_script_def handle_exn_def)

theorem cli_runtime_index_error_witness:
  "ls8_script ''/ls8'' (\<lambda>p. True) (\<lambda>p. [''01000111 # PRN R8'', ''00001000''])
     [''ls8.py'', ''bad''] = Some (usage_banner, Completed)"
proof -
  have r: "resolve_program ''/ls8'' (\<lambda>p. True) [''ls8.py'', ''bad''] = Inr ''/ls8/examples/bad.ls8''"
    by code_simp
  have m: "ls8_main [''01000111 # PRN R8'', ''00001000''] =
    Some (Ended (Raised IndexError (cpu_init\<lparr>ram := [71, 8] @ replicate 254 0, pc := 2\<rparr>)))"
    by code_simp
  have "out (cpu_init\<lparr>ram := [71, 8] @ replicate 254 0, pc := 2\<rparr>) = []"
    by (simp add: cpu_init_def)
  then show ?thesis
    using cli_runtime_index_error [where readlines = "\<lambda>p. [''01000111 # PRN R8'', ''00001000'']", OF r _ m]
    by simp
qed

end
