(* ===== verification/SpecMachine.thy ===== *)
theory SpecMachine
  imports ALU
begin

text \<open>
  The abstract 8-bit machine of the specification (\<^verbatim>\<open>spec.md\<close>, sections 3 and 4),
  against which the code's loop is compared in theory \<open>Refinement\<close>. Registers,
  memory cells, the program counter and the flags are bytes (\<open>8 word\<close>), so every
  store wraps and every address is in range. One instruction is \<open>sstep\<close>: fetch the
  opcode at \<open>spc\<close> and its two following bytes, advance \<open>spc\<close> by one plus the
  operand count in the top two bits, then execute (\<open>sexec\<close>). Executing yields the
  next state, a halt, or a fault: the specification's fatal errors (section 7), that is,
  an unsupported opcode, a register index outside 0 to 7, and MOD by zero. The arithmetic
  is \<open>alu_spec\<close> of theory \<open>ALU\<close>. The stack follows section 4.4: push decrements the
  stack pointer and writes, pop reads and increments only below \<open>0xF4\<close>. CALL pushes
  the advanced program counter and then reads the target register, in the order of
  section 4.5.
\<close>

record spec_state =
  sreg :: "8 word list"
  spc :: "8 word"
  sfl :: "8 word"
  sram :: "8 word list"
  sout :: "string list"

datatype spec_result = SNext spec_state | SHalt spec_state | SFault

text \<open>Memory read; memory has 256 cells, so every byte address is valid.\<close>

definition sread :: "spec_state \<Rightarrow> 8 word \<Rightarrow> 8 word" where
  "sread m a = sram m ! unat a"

text \<open>Register read and write; an index outside 0 to 7 is a fault.\<close>

definition sget :: "spec_state \<Rightarrow> 8 word \<Rightarrow> 8 word option" where
  "sget m r = (if unat r < 8 then Some (sreg m ! unat r) else None)"

definition sset :: "8 word \<Rightarrow> 8 word \<Rightarrow> spec_state \<Rightarrow> spec_state option" where
  "sset r v m = (if unat r < 8 then Some (m\<lparr>sreg := (sreg m)[unat r := v]\<rparr>) else None)"

text \<open>Push and pop (section 4.4).\<close>

definition spush :: "8 word \<Rightarrow> spec_state \<Rightarrow> spec_state" where
  "spush v m =
     (let sp = sreg m ! 7 - 1 in m\<lparr>sreg := (sreg m)[7 := sp], sram := (sram m)[unat sp := v]\<rparr>)"

definition spop :: "spec_state \<Rightarrow> 8 word \<times> spec_state" where
  "spop m =
     (let sp = sreg m ! 7
      in (sram m ! unat sp, if sp < 0xF4 then m\<lparr>sreg := (sreg m)[7 := sp + 1]\<rparr> else m))"

text \<open>The flags of a comparison: bit 0 equal, bit 1 greater, bit 2 less, the rest 0.\<close>

definition scmp_flags :: "8 word \<Rightarrow> 8 word \<Rightarrow> 8 word" where
  "scmp_flags x y = (if x = y then 1 else 0) OR (if x > y then 2 else 0) OR (if x < y then 4 else 0)"

definition sjump :: "8 word \<Rightarrow> spec_state \<Rightarrow> spec_result" where
  "sjump r m = (case sget m r of None \<Rightarrow> SFault | Some d \<Rightarrow> SNext (m\<lparr>spc := d\<rparr>))"

text \<open>The ALU operations of arity 1 (section 4.2).\<close>

definition unary_ops :: "int list" where
  "unary_ops = [INC, DEC, NOT_op]"

text \<open>
  An ALU instruction: read register \<open>a\<close> and, for a binary operation, register
  \<open>b\<close>, compute on bytes and store the result in register \<open>a\<close>.
\<close>

definition salu :: "int \<Rightarrow> 8 word \<Rightarrow> 8 word \<Rightarrow> spec_state \<Rightarrow> spec_result" where
  "salu op a b m =
     (case sget m a of
        None \<Rightarrow> SFault
      | Some x \<Rightarrow>
          (case (if op \<in> set unary_ops then Some 0 else sget m b) of
             None \<Rightarrow> SFault
           | Some y \<Rightarrow>
               (case alu_spec op x y of
                  Inl e \<Rightarrow> SFault
                | Inr v \<Rightarrow> (case sset a v m of None \<Rightarrow> SFault | Some m' \<Rightarrow> SNext m'))))"

text \<open>The opcodes the specification defines (sections 4.2 and 4.5).\<close>

definition spec_opcodes :: "int list" where
  "spec_opcodes = [HLT, LDI, PRN, PUSH, POP, CMP, JMP, JEQ, JNE, CALL, RET] @ ALU_OP_LIST"

text \<open>Executing a decoded instruction on the state with \<open>spc\<close> already advanced.\<close>

definition sexec :: "int \<Rightarrow> 8 word \<Rightarrow> 8 word \<Rightarrow> spec_state \<Rightarrow> spec_result" where
  "sexec op a b m =
     (if op = HLT then SHalt m
      else if op = LDI then (case sset a b m of None \<Rightarrow> SFault | Some m' \<Rightarrow> SNext m')
      else if op = PRN then
        (case sget m a of None \<Rightarrow> SFault | Some v \<Rightarrow> SNext (m\<lparr>sout := sout m @ [nat_str (unat v)]\<rparr>))
      else if op = PUSH then (case sget m a of None \<Rightarrow> SFault | Some v \<Rightarrow> SNext (spush v m))
      else if op = POP then
        (case spop m of (v, m') \<Rightarrow> (case sset a v m' of None \<Rightarrow> SFault | Some m'' \<Rightarrow> SNext m''))
      else if op = CMP then
        (case (sget m a, sget m b) of
           (Some x, Some y) \<Rightarrow> SNext (m\<lparr>sfl := scmp_flags x y\<rparr>)
         | _ \<Rightarrow> SFault)
      else if op = JMP then sjump a m
      else if op = JEQ then (if sfl m AND 1 = 1 then sjump a m else SNext m)
      else if op = JNE then (if sfl m AND 1 = 0 then sjump a m else SNext m)
      else if op = CALL then sjump a (spush (spc m) m)
      else if op = RET then (case spop m of (v, m') \<Rightarrow> SNext (m'\<lparr>spc := v\<rparr>))
      else if op \<in> set ALU_OP_LIST then salu op a b m
      else SFault)"

text \<open>One instruction: fetch, decode (section 4.3) and execute.\<close>

definition sstep :: "spec_state \<Rightarrow> spec_result" where
  "sstep m =
     (let ir = sread m (spc m); ops = drop_bit 6 (ir AND 192)
      in sexec (uint ir) (sread m (spc m + 1)) (sread m (spc m + 2)) (m\<lparr>spc := spc m + 1 + ops\<rparr>))"

section \<open>Execution by opcode\<close>

lemma sexec_simps:
  "sexec HLT a b m = SHalt m"
  "sexec LDI a b m = (case sset a b m of None \<Rightarrow> SFault | Some m' \<Rightarrow> SNext m')"
  "sexec PRN a b m =
     (case sget m a of None \<Rightarrow> SFault | Some v \<Rightarrow> SNext (m\<lparr>sout := sout m @ [nat_str (unat v)]\<rparr>))"
  "sexec PUSH a b m = (case sget m a of None \<Rightarrow> SFault | Some v \<Rightarrow> SNext (spush v m))"
  "sexec POP a b m =
     (case spop m of (v, m') \<Rightarrow> (case sset a v m' of None \<Rightarrow> SFault | Some m'' \<Rightarrow> SNext m''))"
  "sexec CMP a b m =
     (case (sget m a, sget m b) of (Some x, Some y) \<Rightarrow> SNext (m\<lparr>sfl := scmp_flags x y\<rparr>) | _ \<Rightarrow> SFault)"
  "sexec JMP a b m = sjump a m"
  "sexec JEQ a b m = (if sfl m AND 1 = 1 then sjump a m else SNext m)"
  "sexec JNE a b m = (if sfl m AND 1 = 0 then sjump a m else SNext m)"
  "sexec CALL a b m = sjump a (spush (spc m) m)"
  "sexec RET a b m = (case spop m of (v, m') \<Rightarrow> SNext (m'\<lparr>spc := v\<rparr>))"
  by (simp_all add: sexec_def opcode_defs)

lemma sexec_alu: "op \<in> set ALU_OP_LIST \<Longrightarrow> sexec op a b m = salu op a b m"
  by (auto simp: sexec_def opcode_defs ALU_OP_LIST_def)

lemma sexec_unsupported: "op \<notin> set spec_opcodes \<Longrightarrow> sexec op a b m = SFault"
  by (auto simp: sexec_def spec_opcodes_def)

end
