(* ===== verification/Refinement.thy ===== *)
theory Refinement
  imports Run SpecMachine
begin

text \<open>
  The code's loop refines the specification's 8-bit machine. \<open>abs_cpu\<close> reads the
  code's state (unbounded Python integers) as the specification's state by reducing every
  value modulo 256 (\<open>word_of_int\<close>); the printed lines are kept as they are. The
  result of one iteration is read by \<open>abs_stepped\<close>: a continuing iteration is a step
  of the specification, a halt a halt, and any exception a fault.

  The refinement holds on the states the specification describes (\<open>byte_state\<close>:
  eight registers and 256 cells holding bytes, a program counter that is an address, and
  flags with only the three comparison bits), for the opcodes the specification defines,
  when the instruction's operand bytes lie inside memory. Outside these hypotheses the
  code departs from the specification, as the theorems of the other theories show: it
  ignores unsupported opcodes, does not wrap the program counter, and keeps values that
  are not bytes. The lemmas are one per operation: each handler of the code, run on a
  state, is followed through \<open>abs_cpu\<close> by the specification's operation.
\<close>

definition abs_cpu :: "cpu \<Rightarrow> spec_state" where
  "abs_cpu c =
     \<lparr>sreg = map word_of_int (reg c), spc = word_of_int (pc c), sfl = word_of_int (fl c),
      sram = map word_of_int (ram c), sout = out c\<rparr>"

definition abs_raising :: "(cpu, cpu) raising \<Rightarrow> spec_result" where
  "abs_raising r = (case r of Inl ec \<Rightarrow> SFault | Inr c \<Rightarrow> SNext (abs_cpu c))"

definition abs_stepped :: "stepped \<Rightarrow> spec_result" where
  "abs_stepped s =
     (case s of
        Next c ab \<Rightarrow> SNext (abs_cpu c)
      | Stop (Halted c) \<Rightarrow> SHalt (abs_cpu c)
      | Stop (Raised e c) \<Rightarrow> SFault)"

definition is_byte :: "int \<Rightarrow> bool" where
  "is_byte v = (0 \<le> v \<and> v < 256)"

definition bytes_ok :: "cpu \<Rightarrow> bool" where
  "bytes_ok c =
     (wf_cpu c \<and> list_all is_byte (reg c) \<and> list_all is_byte (ram c) \<and> 0 \<le> fl c \<and> fl c < 8)"

definition byte_state :: "cpu \<Rightarrow> bool" where
  "byte_state c = (bytes_ok c \<and> is_byte (pc c))"

section \<open>Bytes and the abstraction\<close>

text \<open>The decimal rendering stays folded: its equation unfolds forever on a variable.\<close>

declare nat_str.simps [simp del]

lemma unat_w8: "unat (word_of_int x :: 8 word) = nat (x mod 256)"
  by (simp add: unat_eq_nat_uint uint_word_of_int)

lemma unat_byte: "0 \<le> x \<Longrightarrow> x < 256 \<Longrightarrow> unat (word_of_int x :: 8 word) = nat x"
  by (simp add: unat_w8)

lemma map_w8_update: "map word_of_int (xs[i := v]) = (map word_of_int xs)[i := (word_of_int v :: 8 word)]"
  by (simp add: map_update)

lemma byte_nth: "list_all is_byte xs \<Longrightarrow> i < length xs \<Longrightarrow> 0 \<le> xs ! i \<and> xs ! i < 256"
  by (simp add: list_all_length is_byte_def)

lemma w8_less_iff: "is_byte x \<Longrightarrow> is_byte y \<Longrightarrow> (word_of_int x < (word_of_int y :: 8 word)) = (x < y)"
  by (simp add: is_byte_def word_less_def uint_byte)

lemma w8_eq_iff: "is_byte x \<Longrightarrow> is_byte y \<Longrightarrow> (word_of_int x = (word_of_int y :: 8 word)) = (x = y)"
  by (metis is_byte_def uint_byte)

lemma abs_cpu_simps [simp]:
  "sreg (abs_cpu c) = map word_of_int (reg c)" "spc (abs_cpu c) = word_of_int (pc c)"
  "sfl (abs_cpu c) = word_of_int (fl c)" "sram (abs_cpu c) = map word_of_int (ram c)"
  "sout (abs_cpu c) = out c"
  by (simp_all add: abs_cpu_def)

lemma abs_cpu_upd [simp]:
  "abs_cpu (c\<lparr>out := ls\<rparr>) = abs_cpu c\<lparr>sout := ls\<rparr>"
  "abs_cpu (c\<lparr>pc := p\<rparr>) = abs_cpu c\<lparr>spc := word_of_int p\<rparr>"
  "abs_cpu (c\<lparr>fl := f\<rparr>) = abs_cpu c\<lparr>sfl := word_of_int f\<rparr>"
  by (simp_all add: abs_cpu_def)

lemma abs_raising_simps [simp]:
  "abs_raising (Inl ec) = SFault" "abs_raising (Inr c) = SNext (abs_cpu c)"
  by (simp_all add: abs_raising_def)

section \<open>Registers, memory and the stack\<close>

lemma sget_abs:
  assumes "wf_cpu c" "0 \<le> a" "a < 256"
  shows "sget (abs_cpu c) (word_of_int a) =
    (case get_reg a c of Inl e \<Rightarrow> None | Inr v \<Rightarrow> Some (word_of_int v))"
  using assms
  by (auto simp: sget_def unat_byte wf_cpu_def get_reg_def py_get_def py_index_def nat_less_iff)

lemma sset_abs:
  assumes "wf_cpu c" "0 \<le> a" "a < 256"
  shows "(case sset (word_of_int a) (word_of_int v) (abs_cpu c) of None \<Rightarrow> SFault | Some m \<Rightarrow> SNext m) =
    abs_raising (set_reg a v c)"
  using assms
  by (auto simp: sset_def unat_byte wf_cpu_def set_reg_def py_set_def py_index_def nat_less_iff
      abs_cpu_def map_w8_update)

lemma spush_abs:
  assumes "wf_cpu c" "- 255 \<le> reg c ! 7" "reg c ! 7 \<le> 256"
  shows "abs_raising (push_mdr v c) = SNext (spush (word_of_int v) (abs_cpu c))"
proof -
  have "(word_of_int (reg c ! 7) :: 8 word) - 1 = word_of_int (reg c ! 7 - 1)" by simp
  then have "unat ((word_of_int (reg c ! 7) :: 8 word) - 1) = nat ((reg c ! 7 - 1) mod 256)"
    by (simp only: unat_w8)
  then show ?thesis
    using assms
    by (simp add: push_mdr_ok spush_def Let_def abs_cpu_def map_w8_update unat_w8 wf_cpu_def)
qed

lemma spop_abs:
  assumes "wf_cpu c" "0 \<le> reg c ! 7" "reg c ! 7 < 256" "pop_mdr c = Inr (v, c')"
  shows "spop (abs_cpu c) = (word_of_int v, abs_cpu c')"
proof -
  have sp: "(map word_of_int (reg c) ! 7 :: 8 word) = word_of_int (reg c ! 7)"
    using assms(1) by (simp add: wf_cpu_def)
  have lt: "(word_of_int (reg c ! 7) < (0xF4 :: 8 word)) = (reg c ! 7 < 244)"
    using assms(2,3) w8_less_iff [of "reg c ! 7" 244] by (simp add: is_byte_def)
  have "v = ram c ! nat (reg c ! 7)"
    "c' = (if reg c ! 7 < 244 then c\<lparr>reg := (reg c)[7 := reg c ! 7 + 1]\<rparr> else c)"
    using assms pop_mdr_ok [OF assms(1)] by simp_all
  then show ?thesis
    using assms(1,2,3) sp lt
    by (simp add: spop_def Let_def abs_cpu_def map_w8_update unat_byte wf_cpu_def of_int_add)
qed

lemma get_reg_byte:
  assumes "bytes_ok c" "get_reg a c = Inr v"
  shows "0 \<le> v \<and> v < 256"
proof -
  obtain j where j: "py_index (length (reg c)) a = Some j" "v = reg c ! j"
    using assms(2) by (auto simp: get_reg_def py_get_Inr_iff)
  then have "j < length (reg c)" by (simp add: py_index_lt)
  with j assms(1) show ?thesis by (simp add: bytes_ok_def byte_nth)
qed

section \<open>The handlers\<close>

lemma py_str_byte: "0 \<le> v \<Longrightarrow> v < 256 \<Longrightarrow> py_str v = nat_str (unat (word_of_int v :: 8 word))"
  by (simp add: py_str_def unat_byte)

lemma print_abs:
  assumes "bytes_ok c" "0 \<le> a" "a < 256"
  shows "abs_raising (print_foo a c) =
    (case sget (abs_cpu c) (word_of_int a) of
       None \<Rightarrow> SFault
     | Some v \<Rightarrow> SNext (abs_cpu c\<lparr>sout := sout (abs_cpu c) @ [nat_str (unat v)]\<rparr>))"
proof (cases "get_reg a c")
  case (Inl e)
  with assms show ?thesis by (simp add: print_foo_def sget_abs bytes_ok_def)
next
  case (Inr v)
  then have "0 \<le> v \<and> v < 256" by (rule get_reg_byte [OF assms(1)])
  with Inr assms show ?thesis
    by (simp add: print_foo_def sget_abs bytes_ok_def py_str_byte)
qed

lemma push_from_reg_abs:
  assumes "bytes_ok c" "0 \<le> a" "a < 256"
  shows "abs_raising (push_from_reg a c) =
    (case sget (abs_cpu c) (word_of_int a) of None \<Rightarrow> SFault | Some v \<Rightarrow> SNext (spush v (abs_cpu c)))"
proof -
  have w: "wf_cpu c" using assms by (simp add: bytes_ok_def)
  have "0 \<le> reg c ! 7 \<and> reg c ! 7 < 256"
    using assms by (intro byte_nth) (simp_all add: bytes_ok_def wf_cpu_def)
  then show ?thesis
    using assms w by (cases "get_reg a c") (simp_all add: push_from_reg_def sget_abs spush_abs)
qed

lemma pop_to_reg_abs:
  assumes "bytes_ok c" "0 \<le> a" "a < 256"
  shows "abs_raising (pop_to_reg a c) =
    (case spop (abs_cpu c) of
       (v, m') \<Rightarrow> (case sset (word_of_int a) v m' of None \<Rightarrow> SFault | Some m'' \<Rightarrow> SNext m''))"
proof -
  have w: "wf_cpu c" using assms by (simp add: bytes_ok_def)
  have sp: "0 \<le> reg c ! 7 \<and> reg c ! 7 < 256"
    using assms by (intro byte_nth) (simp_all add: bytes_ok_def wf_cpu_def)
  obtain v c' where p: "pop_mdr c = Inr (v, c')"
    using pop_mdr_ok [OF w] sp by auto
  have w': "wf_cpu c'" using pop_mdr_wf [OF w] p by simp
  have "spop (abs_cpu c) = (word_of_int v, abs_cpu c')"
    using w sp p by (intro spop_abs) simp_all
  then show ?thesis
    using p sset_abs [OF w' assms(2,3)] by (simp add: pop_to_reg_def)
qed

lemma w8_cmp_flags:
  "is_byte x \<Longrightarrow> is_byte y \<Longrightarrow>
   (word_of_int (cmp_flags x y) :: 8 word) = scmp_flags (word_of_int x) (word_of_int y)"
  by (cases x y rule: linorder_cases)
    (simp_all add: cmp_flags_def scmp_flags_def w8_less_iff w8_eq_iff)

lemma cmp_abs:
  assumes "bytes_ok c" "is_byte a" "is_byte b"
  shows "abs_raising (cmp_foo a b c) =
    (case (sget (abs_cpu c) (word_of_int a), sget (abs_cpu c) (word_of_int b)) of
       (Some x, Some y) \<Rightarrow> SNext (abs_cpu c\<lparr>sfl := scmp_flags x y\<rparr>)
     | _ \<Rightarrow> SFault)"
proof -
  have w: "wf_cpu c" and f: "0 \<le> fl c" "fl c < 8" using assms(1) by (simp_all add: bytes_ok_def)
  have ga: "sget (abs_cpu c) (word_of_int a) =
      (case get_reg a c of Inl e \<Rightarrow> None | Inr v \<Rightarrow> Some (word_of_int v))"
    and gb: "sget (abs_cpu c) (word_of_int b) =
      (case get_reg b c of Inl e \<Rightarrow> None | Inr v \<Rightarrow> Some (word_of_int v))"
    using w assms(2,3) by (simp_all add: sget_abs is_byte_def)
  show ?thesis
  proof (cases "get_reg a c")
    case (Inl e)
    with ga show ?thesis by (simp add: cmp_foo_def)
  next
    case (Inr x)
    show ?thesis
    proof (cases "get_reg b c")
      case (Inl e)
      with Inr ga gb show ?thesis by (simp add: cmp_foo_def)
    next
      case (Inr y)
      have bx: "is_byte x" and "is_byte y"
        using get_reg_byte [OF assms(1)] \<open>get_reg a c = Inr x\<close> Inr by (simp_all add: is_byte_def)
      have "cmp_foo a b c = Inr (c\<lparr>fl := (fl c AND 248) OR cmp_flags x y\<rparr>)"
        using \<open>get_reg a c = Inr x\<close> Inr by (auto simp: cmp_foo_def cmp_flags_def Let_def flag_bits)
      with \<open>get_reg a c = Inr x\<close> Inr ga gb bx \<open>is_byte y\<close> f show ?thesis
        by (simp add: fl_low_bits w8_cmp_flags)
    qed
  qed
qed

lemma jmp_abs:
  "wf_cpu c \<Longrightarrow> is_byte a \<Longrightarrow> abs_raising (jmp_foo a c) = sjump (word_of_int a) (abs_cpu c)"
  by (cases "get_reg a c") (simp_all add: jmp_foo_def sjump_def sget_abs is_byte_def)

lemma w8_flag_bit:
  "(word_of_int f AND (1 :: 8 word) = 1) = (f AND 1 = 1)"
  "(word_of_int f AND (1 :: 8 word) = 0) = (f AND 1 = 0)"
proof -
  have h: "word_of_int f AND (1 :: 8 word) = word_of_int (f AND 1)" by (simp add: of_int_and_eq)
  have b: "is_byte (f AND 1)" by (simp add: is_byte_def and_one_eq)
  show "(word_of_int f AND (1 :: 8 word) = 1) = (f AND 1 = 1)"
    using w8_eq_iff [OF b, of 1] by (simp add: h is_byte_def)
  show "(word_of_int f AND (1 :: 8 word) = 0) = (f AND 1 = 0)"
    using w8_eq_iff [OF b, of 0] by (simp add: h is_byte_def)
qed

lemma jeq_jne_abs:
  assumes "wf_cpu c" "is_byte a"
  shows "abs_raising (jeq_foo a c) =
      (if sfl (abs_cpu c) AND 1 = 1 then sjump (word_of_int a) (abs_cpu c) else SNext (abs_cpu c))"
    and "abs_raising (jne_foo a c) =
      (if sfl (abs_cpu c) AND 1 = 0 then sjump (word_of_int a) (abs_cpu c) else SNext (abs_cpu c))"
  using assms by (simp_all add: jeq_foo_def jne_foo_def jmp_abs w8_flag_bit)

lemma call_abs:
  assumes "bytes_ok c" "is_byte a"
  shows "abs_raising (call_op c (Some (a, ob))) =
    sjump (word_of_int a) (spush (spc (abs_cpu c)) (abs_cpu c))"
proof -
  have w: "wf_cpu c" using assms by (simp add: bytes_ok_def)
  have sp: "0 \<le> reg c ! 7 \<and> reg c ! 7 < 256"
    using assms by (intro byte_nth) (simp_all add: bytes_ok_def wf_cpu_def)
  obtain c1 where p: "push_mdr (pc c) c = Inr c1"
    using push_mdr_ok [OF w] sp by auto
  have "SNext (abs_cpu c1) = SNext (spush (word_of_int (pc c)) (abs_cpu c))"
    using spush_abs [OF w, of "pc c"] sp p by simp
  moreover have "wf_cpu c1" using push_mdr_wf [OF w, of "pc c"] p by simp
  ultimately show ?thesis
    using p jmp_abs [of c1 a] assms(2) by (simp add: call_op_def jmp_foo_def [symmetric])
qed

lemma ret_abs:
  assumes "bytes_ok c"
  shows "abs_raising (ret_op c) = (case spop (abs_cpu c) of (v, m') \<Rightarrow> SNext (m'\<lparr>spc := v\<rparr>))"
proof -
  have w: "wf_cpu c" using assms by (simp add: bytes_ok_def)
  have sp: "0 \<le> reg c ! 7 \<and> reg c ! 7 < 256"
    using assms by (intro byte_nth) (simp_all add: bytes_ok_def wf_cpu_def)
  obtain v c' where p: "pop_mdr c = Inr (v, c')"
    using pop_mdr_ok [OF w] sp by auto
  have "spop (abs_cpu c) = (word_of_int v, abs_cpu c')"
    using w sp p by (intro spop_abs) simp_all
  then show ?thesis using p by (simp add: ret_op_def)
qed

lemma unary_ops_simps:
  "INC \<in> set unary_ops" "DEC \<in> set unary_ops" "NOT_op \<in> set unary_ops"
  "ADD \<notin> set unary_ops" "SUB \<notin> set unary_ops" "MUL \<notin> set unary_ops" "AND_op \<notin> set unary_ops"
  "OR_op \<notin> set unary_ops" "XOR_op \<notin> set unary_ops" "SHL \<notin> set unary_ops"
  "SHR \<notin> set unary_ops" "MOD \<notin> set unary_ops"
  by (simp_all add: unary_ops_def opcode_defs)

lemma w8_zero_iff: "is_byte y \<Longrightarrow> ((word_of_int y :: 8 word) = 0) = (y = 0)"
  using w8_eq_iff [of y 0] by (simp add: is_byte_def)

lemma alu_bytes_unary:
  assumes "op \<in> set ALU_OP_LIST" "op \<in> set unary_ops" "py_get regs ra = Inr x"
  shows "map_sum id word_of_int (alu op ra None regs) = alu_spec op (word_of_int x) 0"
proof -
  have "op = INC \<or> op = DEC \<or> op = NOT_op"
    using assms(2) by (simp add: unary_ops_def)
  then show ?thesis
    using assms(3) by (auto simp: alu_eval wi_hom_syms w8_xor_255)
qed

lemma alu_bytes_binary:
  assumes "op \<in> set ALU_OP_LIST" "op \<notin> set unary_ops" "py_get regs ra = Inr x" "py_get regs rb = Inr y"
    "is_byte x" "is_byte y"
  shows "map_sum id word_of_int (alu op ra (Some rb) regs) = alu_spec op (word_of_int x) (word_of_int y)"
proof -
  have "op \<in> {ADD, SUB, MUL, AND_op, OR_op, XOR_op, SHL, SHR, MOD}"
    using assms(1,2) by (auto simp: ALU_OP_LIST_def unary_ops_simps)
  moreover have "unat (word_of_int y :: 8 word) = nat y"
    using assms(6) by (simp add: is_byte_def unat_byte)
  ultimately show ?thesis
    using assms(3-6)
    by (auto simp: alu_eval wi_hom_syms of_int_and_eq of_int_or_eq of_int_xor_eq ac_simps
        py_lshift_def py_rshift_def py_mod_def w8_push w8_drop w8_mod w8_zero_iff is_byte_def)
qed

lemma alu_store_abs:
  assumes "wf_cpu c" "is_byte a"
  shows "abs_raising (ebind (lift_exn c r) (\<lambda>v. set_reg a v c)) =
    (case map_sum id word_of_int r of
       Inl e \<Rightarrow> SFault
     | Inr v \<Rightarrow> (case sset (word_of_int a) v (abs_cpu c) of None \<Rightarrow> SFault | Some m \<Rightarrow> SNext m))"
  using assms by (cases r) (simp_all add: sset_abs is_byte_def)

lemma salu_abs:
  assumes "bytes_ok c" "op \<in> set ALU_OP_LIST" "is_byte a" "is_byte b"
  shows "abs_raising (dispatch op a (if op \<in> set unary_ops then None else Some b) c) =
    salu op (word_of_int a) (word_of_int b) (abs_cpu c)"
proof -
  have w: "wf_cpu c" using assms(1) by (simp add: bytes_ok_def)
  obtain f where f: "ALU_DISPATCH op = Some f"
    using assms(2) ALU_DISPATCH_None_iff [of op] by auto
  have ga: "sget (abs_cpu c) (word_of_int a) =
      (case get_reg a c of Inl e \<Rightarrow> None | Inr v \<Rightarrow> Some (word_of_int v))"
    and gb: "sget (abs_cpu c) (word_of_int b) =
      (case get_reg b c of Inl e \<Rightarrow> None | Inr v \<Rightarrow> Some (word_of_int v))"
    using w assms(3,4) by (simp_all add: sget_abs is_byte_def)
  note store = alu_store_abs [OF w assms(3)]
  show ?thesis
  proof (cases "get_reg a c")
    case (Inl e)
    then show ?thesis
      using assms(2) ga f store by (simp add: dispatch_alu salu_def alu_def get_reg_def)
  next
    case (Inr x)
    show ?thesis
    proof (cases "op \<in> set unary_ops")
      case True
      then show ?thesis
        using assms(2) Inr ga store alu_bytes_unary [of op "reg c" a x]
        by (simp add: dispatch_alu salu_def get_reg_def)
    next
      case False
      show ?thesis
      proof (cases "get_reg b c")
        case (Inl e)
        then show ?thesis
          using assms(2) False Inr ga gb f store by (simp add: dispatch_alu salu_def alu_def get_reg_def)
      next
        case (Inr y)
        have "is_byte x" "is_byte y"
          using get_reg_byte [OF assms(1)] \<open>get_reg a c = Inr x\<close> Inr by (simp_all add: is_byte_def)
        then show ?thesis
          using assms(2) False \<open>get_reg a c = Inr x\<close> Inr ga gb store
            alu_bytes_binary [of op "reg c" a x b y]
          by (simp add: dispatch_alu salu_def get_reg_def)
      qed
    qed
  qed
qed

section \<open>One iteration\<close>

lemma abs_continue_with [simp]: "abs_stepped (continue_with ab r) = abs_raising r"
  by (cases r) (auto simp: continue_with_def abs_stepped_def)

lemma execute_dispatch:
  "IR \<noteq> HLT \<Longrightarrow> IR \<noteq> CALL \<Longrightarrow> IR \<noteq> RET \<Longrightarrow>
   execute IR c (Some (a, ob)) = continue_with (Some (a, ob)) (dispatch IR a ob c)"
  by (simp add: execute_def)

lemma not_call_ret:
  "LDI \<noteq> HLT" "LDI \<noteq> CALL" "LDI \<noteq> RET" "PRN \<noteq> HLT" "PRN \<noteq> CALL" "PRN \<noteq> RET"
  "PUSH \<noteq> HLT" "PUSH \<noteq> CALL" "PUSH \<noteq> RET" "POP \<noteq> HLT" "POP \<noteq> CALL" "POP \<noteq> RET"
  "CMP \<noteq> HLT" "CMP \<noteq> CALL" "CMP \<noteq> RET" "JMP \<noteq> HLT" "JMP \<noteq> CALL" "JMP \<noteq> RET"
  "JEQ \<noteq> HLT" "JEQ \<noteq> CALL" "JEQ \<noteq> RET" "JNE \<noteq> HLT" "JNE \<noteq> CALL" "JNE \<noteq> RET"
  "CALL \<noteq> HLT" "RET \<noteq> HLT" "RET \<noteq> CALL"
  by (simp_all add: opcode_defs)

lemma alu_not_call_ret: "op \<in> set ALU_OP_LIST \<Longrightarrow> op \<noteq> HLT \<and> op \<noteq> CALL \<and> op \<noteq> RET"
  by (auto simp: ALU_OP_LIST_def opcode_defs)

lemma alu_operand_count:
  "op \<in> set ALU_OP_LIST \<Longrightarrow> operand_count op = (if op \<in> set unary_ops then 1 else 2)"
  by (auto simp: ALU_OP_LIST_def opcode_operand_counts unary_ops_simps)

text \<open>
  Executing a decoded instruction: \<open>ab1\<close> is what the operand fetch left in the locals
  \<^verbatim>\<open>a\<close> and \<^verbatim>\<open>b\<close>, which the instructions without operands (HLT and RET) ignore.
\<close>

lemma exec_abs:
  assumes "bytes_ok c" "IR \<in> set spec_opcodes" "is_byte a" "is_byte b"
    and ab1: "ab1 = (if operand_count IR = 2 then Some (a, Some b)
                     else if operand_count IR = 1 then Some (a, None) else ab0)"
  shows "abs_stepped (execute IR c ab1) = sexec IR (word_of_int a) (word_of_int b) (abs_cpu c)"
proof -
  have w: "wf_cpu c" using assms(1) by (simp add: bytes_ok_def)
  have ab: "0 \<le> a" "a < 256" using assms(3) by (simp_all add: is_byte_def)
  consider "IR = HLT" | "IR = LDI" | "IR = PRN" | "IR = PUSH" | "IR = POP" | "IR = CMP"
    | "IR = JMP" | "IR = JEQ" | "IR = JNE" | "IR = CALL" | "IR = RET" | "IR \<in> set ALU_OP_LIST"
    using assms(2) by (auto simp: spec_opcodes_def)
  then show ?thesis
  proof cases
    case 1
    then show ?thesis by (simp add: execute_def abs_stepped_def sexec_simps)
  next
    case 2
    then show ?thesis
      using ab1 w ab by (simp add: opcode_operand_counts execute_dispatch not_call_ret dispatch_simps
          ldi_foo_def sexec_simps sset_abs)
  next
    case 3
    then show ?thesis
      using ab1 assms(1) ab by (simp add: opcode_operand_counts execute_dispatch not_call_ret
          dispatch_simps sexec_simps print_abs)
  next
    case 4
    then show ?thesis
      using ab1 assms(1) ab by (simp add: opcode_operand_counts execute_dispatch not_call_ret
          dispatch_simps sexec_simps push_from_reg_abs)
  next
    case 5
    then show ?thesis
      using ab1 assms(1) ab by (simp add: opcode_operand_counts execute_dispatch not_call_ret
          dispatch_simps sexec_simps pop_to_reg_abs)
  next
    case 6
    then show ?thesis
      using ab1 assms(1,3,4) by (simp add: opcode_operand_counts execute_dispatch not_call_ret
          dispatch_simps sexec_simps cmp_abs)
  next
    case 7
    then show ?thesis
      using ab1 w assms(3) by (simp add: opcode_operand_counts execute_dispatch not_call_ret
          dispatch_simps sexec_simps jmp_abs)
  next
    case 8
    then show ?thesis
      using ab1 w assms(3) by (simp add: opcode_operand_counts execute_dispatch not_call_ret
          dispatch_simps sexec_simps jeq_jne_abs)
  next
    case 9
    then show ?thesis
      using ab1 w assms(3) by (simp add: opcode_operand_counts execute_dispatch not_call_ret
          dispatch_simps sexec_simps jeq_jne_abs)
  next
    case 10
    then show ?thesis
      using ab1 assms(1,3) by (simp add: opcode_operand_counts execute_def opcodes_distinct
          sexec_simps call_abs)
  next
    case 11
    then show ?thesis
      using assms(1) by (simp add: execute_def opcodes_distinct sexec_simps ret_abs)
  next
    case 12
    then have "ab1 = Some (a, if IR \<in> set unary_ops then None else Some b)"
      using ab1 by (simp add: alu_operand_count)
    then show ?thesis
      using 12 assms(1,3,4) alu_not_call_ret [OF 12]
      by (simp add: execute_dispatch sexec_alu salu_abs [symmetric])
  qed
qed

lemma spec_opcodes_operands: "IR \<in> set spec_opcodes \<Longrightarrow> operand_count IR \<le> 2"
  by (auto simp: spec_opcodes_def ALU_OP_LIST_def opcode_operand_counts)

lemma w8_operand_count:
  assumes "is_byte IR"
  shows "drop_bit 6 (word_of_int IR AND (192 :: 8 word)) = word_of_int (operand_count IR)"
proof -
  have "0 \<le> IR AND 192" "IR AND 192 \<le> IR" using assms by (simp_all add: is_byte_def and_less_eq)
  then have "0 \<le> IR AND 192" "IR AND 192 < 256" using assms by (simp_all add: is_byte_def)
  then have 1: "(word_of_int (drop_bit 6 (IR AND 192)) :: 8 word) = drop_bit 6 (word_of_int (IR AND 192))"
    by (rule w8_drop)
  have 2: "(word_of_int (IR AND 192) :: 8 word) = word_of_int IR AND 192"
    by (metis of_int_and_eq of_int_numeral)
  show ?thesis by (simp only: operand_count_def 1 2)
qed

lemma sread_abs:
  "wf_cpu c \<Longrightarrow> sread (abs_cpu c) (word_of_int i) = word_of_int (ram c ! nat (i mod 256))"
  by (simp add: sread_def unat_w8 wf_cpu_def)

lemma sread_abs_next:
  assumes "wf_cpu c"
  shows "sread (abs_cpu c) (spc (abs_cpu c) + 1) = word_of_int (ram c ! nat ((pc c + 1) mod 256))"
    and "sread (abs_cpu c) (spc (abs_cpu c) + 2) = word_of_int (ram c ! nat ((pc c + 2) mod 256))"
  using sread_abs [OF assms, of "pc c + 1"] sread_abs [OF assms, of "pc c + 2"] by simp_all

lemma fetch_abs:
  assumes "byte_state c" "operand_count IR \<le> 2" "pc c + operand_count IR < 256"
  shows "fetch (operand_count IR) c ab =
    Inr (c\<lparr>pc := pc c + 1 + operand_count IR\<rparr>,
         if operand_count IR = 2 then Some (ram c ! nat ((pc c + 1) mod 256), Some (ram c ! nat ((pc c + 2) mod 256)))
         else if operand_count IR = 1 then Some (ram c ! nat ((pc c + 1) mod 256), None) else ab)"
proof -
  have w: "wf_cpu c" and p: "0 \<le> pc c" using assms(1) by (simp_all add: byte_state_def bytes_ok_def is_byte_def)
  have "0 \<le> operand_count IR" by (simp add: operand_count_def)
  then consider "operand_count IR = 0" | "operand_count IR = 1" | "operand_count IR = 2"
    using assms(2) by linarith
  then show ?thesis
    by cases (use assms(3) w p in \<open>simp_all add: fetch_eval\<close>)
qed

lemma sstep_abs:
  assumes "byte_state c"
  shows "sstep (abs_cpu c) =
      sexec (ram c ! nat (pc c)) (word_of_int (ram c ! nat ((pc c + 1) mod 256)))
        (word_of_int (ram c ! nat ((pc c + 2) mod 256)))
        (abs_cpu (c\<lparr>pc := pc c + 1 + operand_count (ram c ! nat (pc c))\<rparr>))"
proof -
  define IR where "IR = ram c ! nat (pc c)"
  have bo: "bytes_ok c" and w: "wf_cpu c" and p: "0 \<le> pc c" "pc c < 256"
    using assms(1) by (simp_all add: byte_state_def bytes_ok_def is_byte_def)
  have ir: "is_byte IR"
    using bo w p by (simp add: IR_def bytes_ok_def wf_cpu_def list_all_length nat_less_iff)
  have 1: "sread (abs_cpu c) (spc (abs_cpu c)) = word_of_int IR"
    using sread_abs [OF w, of "pc c"] p by (simp add: IR_def)
  have 2: "uint (word_of_int IR :: 8 word) = IR" using ir by (simp add: is_byte_def uint_byte)
  have 3: "abs_cpu c\<lparr>spc := spc (abs_cpu c) + 1 + word_of_int (operand_count IR)\<rparr> =
      abs_cpu (c\<lparr>pc := pc c + 1 + operand_count IR\<rparr>)"
    by (simp add: abs_cpu_def)
  have "sstep (abs_cpu c) =
      sexec IR (word_of_int (ram c ! nat ((pc c + 1) mod 256))) (word_of_int (ram c ! nat ((pc c + 2) mod 256)))
        (abs_cpu (c\<lparr>pc := pc c + 1 + operand_count IR\<rparr>))"
    unfolding sstep_def Let_def 1 2 w8_operand_count [OF ir] sread_abs_next [OF w] 3 ..
  then show ?thesis unfolding IR_def .
qed

section \<open>Refinement\<close>

text \<open>
  Claim C1. One iteration of the code's loop, on a state the
  specification describes and an opcode it defines whose operand bytes lie inside memory,
  is one step of the specification's 8-bit machine read through \<open>abs_cpu\<close>: it
  continues in the abstract successor, halts in the abstract final state, or raises an
  exception exactly where the specification faults (a register index outside 0 to 7, MOD
  by zero).
\<close>

theorem step_refines_spec:
  assumes "byte_state c" and "ram c ! nat (pc c) \<in> set spec_opcodes"
    and "pc c + operand_count (ram c ! nat (pc c)) < 256"
  shows "sstep (abs_cpu c) = abs_stepped (step c ab)"
proof -
  define IR where "IR = ram c ! nat (pc c)"
  have bo: "bytes_ok c" and w: "wf_cpu c" and p: "0 \<le> pc c" "pc c < 256"
    using assms(1) by (simp_all add: byte_state_def bytes_ok_def is_byte_def)
  have rb: "\<And>i. is_byte (ram c ! nat (i mod 256))"
    using bo w by (simp add: bytes_ok_def wf_cpu_def list_all_length nat_less_iff)
  have ir: "is_byte IR" using rb [of "pc c"] p by (simp add: IR_def)
  have ops: "operand_count IR \<le> 2" using assms(2) by (simp add: IR_def spec_opcodes_operands)
  have bo1: "bytes_ok (c\<lparr>pc := pc c + 1 + operand_count IR\<rparr>)" using bo by (simp add: bytes_ok_def)
  have spec: "sstep (abs_cpu c) =
      sexec IR (word_of_int (ram c ! nat ((pc c + 1) mod 256))) (word_of_int (ram c ! nat ((pc c + 2) mod 256)))
        (abs_cpu (c\<lparr>pc := pc c + 1 + operand_count IR\<rparr>))"
    using sstep_abs [OF assms(1)] by (simp add: IR_def)
  have code: "step c ab = execute IR (c\<lparr>pc := pc c + 1 + operand_count IR\<rparr>)
      (if operand_count IR = 2 then Some (ram c ! nat ((pc c + 1) mod 256), Some (ram c ! nat ((pc c + 2) mod 256)))
       else if operand_count IR = 1 then Some (ram c ! nat ((pc c + 1) mod 256), None) else ab)"
    using assms(1,3) ops w p by (simp add: step_def ram_read_nat IR_def [symmetric] fetch_abs)
  have "IR \<in> set spec_opcodes" using assms(2) by (simp add: IR_def)
  show ?thesis
    unfolding spec code by (rule sym, rule exec_abs [OF bo1 \<open>IR \<in> set spec_opcodes\<close> rb rb HOL.refl])
qed

theorem step_refines_spec_witness:
  "byte_state (cpu_init\<lparr>reg := [200, 100, 0, 0, 0, 0, 0, 244], ram := (ram cpu_init)[0 := ADD, 1 := 0, 2 := 1]\<rparr>) \<and> ram (cpu_init\<lparr>reg := [200, 100, 0, 0, 0, 0, 0, 244], ram := (ram cpu_init)[0 := ADD, 1 := 0, 2 := 1]\<rparr>) ! nat (pc (cpu_init\<lparr>reg := [200, 100, 0, 0, 0, 0, 0, 244], ram := (ram cpu_init)[0 := ADD, 1 := 0, 2 := 1]\<rparr>)) \<in> set spec_opcodes \<and>
   pc (cpu_init\<lparr>reg := [200, 100, 0, 0, 0, 0, 0, 244], ram := (ram cpu_init)[0 := ADD, 1 := 0, 2 := 1]\<rparr>) + operand_count (ram (cpu_init\<lparr>reg := [200, 100, 0, 0, 0, 0, 0, 244], ram := (ram cpu_init)[0 := ADD, 1 := 0, 2 := 1]\<rparr>) ! nat (pc (cpu_init\<lparr>reg := [200, 100, 0, 0, 0, 0, 0, 244], ram := (ram cpu_init)[0 := ADD, 1 := 0, 2 := 1]\<rparr>))) < 256 \<and>
   step (cpu_init\<lparr>reg := [200, 100, 0, 0, 0, 0, 0, 244], ram := (ram cpu_init)[0 := ADD, 1 := 0, 2 := 1]\<rparr>) None = Next ((cpu_init\<lparr>reg := [200, 100, 0, 0, 0, 0, 0, 244], ram := (ram cpu_init)[0 := ADD, 1 := 0, 2 := 1]\<rparr>)\<lparr>pc := 3, reg := [300, 100, 0, 0, 0, 0, 0, 244]\<rparr>) (Some (0, Some 1)) \<and>
   sstep (abs_cpu (cpu_init\<lparr>reg := [200, 100, 0, 0, 0, 0, 0, 244], ram := (ram cpu_init)[0 := ADD, 1 := 0, 2 := 1]\<rparr>)) = abs_stepped (step (cpu_init\<lparr>reg := [200, 100, 0, 0, 0, 0, 0, 244], ram := (ram cpu_init)[0 := ADD, 1 := 0, 2 := 1]\<rparr>) None)"
proof -
  have h: "byte_state (cpu_init\<lparr>reg := [200, 100, 0, 0, 0, 0, 0, 244], ram := (ram cpu_init)[0 := ADD, 1 := 0, 2 := 1]\<rparr>)" "ram (cpu_init\<lparr>reg := [200, 100, 0, 0, 0, 0, 0, 244], ram := (ram cpu_init)[0 := ADD, 1 := 0, 2 := 1]\<rparr>) ! nat (pc (cpu_init\<lparr>reg := [200, 100, 0, 0, 0, 0, 0, 244], ram := (ram cpu_init)[0 := ADD, 1 := 0, 2 := 1]\<rparr>)) \<in> set spec_opcodes"
    "pc (cpu_init\<lparr>reg := [200, 100, 0, 0, 0, 0, 0, 244], ram := (ram cpu_init)[0 := ADD, 1 := 0, 2 := 1]\<rparr>) + operand_count (ram (cpu_init\<lparr>reg := [200, 100, 0, 0, 0, 0, 0, 244], ram := (ram cpu_init)[0 := ADD, 1 := 0, 2 := 1]\<rparr>) ! nat (pc (cpu_init\<lparr>reg := [200, 100, 0, 0, 0, 0, 0, 244], ram := (ram cpu_init)[0 := ADD, 1 := 0, 2 := 1]\<rparr>))) < 256"
    "step (cpu_init\<lparr>reg := [200, 100, 0, 0, 0, 0, 0, 244], ram := (ram cpu_init)[0 := ADD, 1 := 0, 2 := 1]\<rparr>) None = Next ((cpu_init\<lparr>reg := [200, 100, 0, 0, 0, 0, 0, 244], ram := (ram cpu_init)[0 := ADD, 1 := 0, 2 := 1]\<rparr>)\<lparr>pc := 3, reg := [300, 100, 0, 0, 0, 0, 0, 244]\<rparr>) (Some (0, Some 1))"
    by code_simp+
  show ?thesis using step_refines_spec [OF h(1-3), of None] h by simp
qed

text \<open>
  Claim C15. Where the specification faults the code goes on: on a
  state the specification describes, an opcode it does not define (a declared but
  unimplemented one such as PRA, or any other byte) stops the 8-bit machine with a fault
  (section 7, \<open>UnsupportedOperation\<close>), while the code's iteration skips the
  instruction and its operand bytes and continues with nothing else changed, provided
  operands are bound (it has operand bytes, or an earlier instruction had).
\<close>

theorem unsupported_opcode_diverges:
  assumes "byte_state c" and "ram c ! nat (pc c) \<notin> set spec_opcodes"
    and "operand_count (ram c ! nat (pc c)) \<le> 2" and "pc c + operand_count (ram c ! nat (pc c)) < 256"
    and "ab \<noteq> None \<or> operand_count (ram c ! nat (pc c)) \<noteq> 0"
  shows "sstep (abs_cpu c) = SFault \<and>
    (\<exists>ab'. step c ab = Next (c\<lparr>pc := pc c + 1 + operand_count (ram c ! nat (pc c))\<rparr>) ab')"
proof -
  define IR where "IR = ram c ! nat (pc c)"
  have w: "wf_cpu c" and p: "0 \<le> pc c" "pc c < 256"
    using assms(1) by (simp_all add: byte_state_def bytes_ok_def is_byte_def)
  have ni: "IR \<notin> {HLT, LDI, PRN, PUSH, POP, CMP, JMP, JEQ, JNE, CALL, RET}" "IR \<notin> set ALU_OP_LIST"
    using assms(2) by (auto simp: IR_def spec_opcodes_def)
  have "memory_handlers IR = None" "jump_handlers IR = None" "ALU_DISPATCH IR = None"
    using ni by (auto simp: memory_handlers_def jump_handlers_def ALU_DISPATCH_None_iff)
  then have d: "\<And>a b c'. dispatch IR a b c' = Inr c'" by (simp add: dispatch_def)
  have f: "fetch (operand_count IR) c ab =
    Inr (c\<lparr>pc := pc c + 1 + operand_count IR\<rparr>,
         if operand_count IR = 2 then Some (ram c ! nat ((pc c + 1) mod 256), Some (ram c ! nat ((pc c + 2) mod 256)))
         else if operand_count IR = 1 then Some (ram c ! nat ((pc c + 1) mod 256), None) else ab)"
    using fetch_abs [OF assms(1)] assms(3,4) by (simp add: IR_def)
  have "\<exists>ab'. step c ab = Next (c\<lparr>pc := pc c + 1 + operand_count IR\<rparr>) ab'"
  proof -
    have "operand_count IR \<le> 2" "ab \<noteq> None \<or> operand_count IR \<noteq> 0" using assms(3,5) by (simp_all add: IR_def)
    then consider "operand_count IR = 0" "ab \<noteq> None" | "operand_count IR = 1" | "operand_count IR = 2"
      using operand_count_range [of IR] by fastforce
    then show ?thesis
      by cases (use ni w p d f in \<open>auto simp: step_def ram_read_nat IR_def [symmetric] execute_def continue_with_def\<close>)
  qed
  moreover have "sstep (abs_cpu c) = SFault"
    using sstep_abs [OF assms(1)] assms(2) by (simp add: sexec_unsupported)
  ultimately show ?thesis by (simp add: IR_def)
qed

theorem unsupported_opcode_diverges_witness:
  "sstep (abs_cpu (cpu_init\<lparr>ram := (ram cpu_init)[0 := PRA]\<rparr>)) = SFault \<and> step (cpu_init\<lparr>ram := (ram cpu_init)[0 := PRA]\<rparr>) None = Next ((cpu_init\<lparr>ram := (ram cpu_init)[0 := PRA]\<rparr>)\<lparr>pc := 2\<rparr>) (Some (0, None))"
proof -
  have h: "byte_state (cpu_init\<lparr>ram := (ram cpu_init)[0 := PRA]\<rparr>)" "ram (cpu_init\<lparr>ram := (ram cpu_init)[0 := PRA]\<rparr>) ! nat (pc (cpu_init\<lparr>ram := (ram cpu_init)[0 := PRA]\<rparr>)) \<notin> set spec_opcodes"
    "operand_count (ram (cpu_init\<lparr>ram := (ram cpu_init)[0 := PRA]\<rparr>) ! nat (pc (cpu_init\<lparr>ram := (ram cpu_init)[0 := PRA]\<rparr>))) \<le> 2" "pc (cpu_init\<lparr>ram := (ram cpu_init)[0 := PRA]\<rparr>) + operand_count (ram (cpu_init\<lparr>ram := (ram cpu_init)[0 := PRA]\<rparr>) ! nat (pc (cpu_init\<lparr>ram := (ram cpu_init)[0 := PRA]\<rparr>))) < 256"
    "None \<noteq> None \<or> operand_count (ram (cpu_init\<lparr>ram := (ram cpu_init)[0 := PRA]\<rparr>) ! nat (pc (cpu_init\<lparr>ram := (ram cpu_init)[0 := PRA]\<rparr>))) \<noteq> 0"
    by code_simp+
  have s: "step (cpu_init\<lparr>ram := (ram cpu_init)[0 := PRA]\<rparr>) None = Next ((cpu_init\<lparr>ram := (ram cpu_init)[0 := PRA]\<rparr>)\<lparr>pc := 2\<rparr>) (Some (0, None))"
    by code_simp
  show ?thesis using unsupported_opcode_diverges [OF h] s by simp
qed

end
