(* ===== verification/Spec2Isabelle.thy ===== *)
theory Spec2Isabelle
  imports Cli Refinement
begin

text \<open>
  \<^bold>\<open>A verification development of the LS-8 emulator.\<close>

  The program is an emulator of an 8-bit computer written in Python: \<^verbatim>\<open>src/cpu.py\<close>
  holds the opcode table, the ALU table and the class \<^verbatim>\<open>CPU\<close> (state, memory
  access, stack, instruction handlers, \<^verbatim>\<open>dispatch\<close> and the loop \<^verbatim>\<open>run\<close>);
  \<^verbatim>\<open>src/ls8.py\<close> reads a program file of binary literals, builds a \<^verbatim>\<open>CPU\<close>,
  loads the bytes and runs them, behind a command line entry point. The loop fetches the
  byte at \<^verbatim>\<open>pc\<close>, reads as many operand bytes as its top two bits say, advances
  \<^verbatim>\<open>pc\<close>, and then halts, handles CALL and RET itself, or hands the instruction to
  \<^verbatim>\<open>dispatch\<close>, which looks it up in two handler tables and else in the ALU table.

  \<^bold>\<open>Theories.\<close> They follow the code's layering, each importing the previous one.
  \<^item> \<open>Prelude\<close>: Python's exceptions as the datatype \<open>exn\<close>; a computation
    that may raise is a value of \<open>(exn \<times> 's) + 'a\<close>, the exception paired with
    the object's state at the raise (the attributes a handler assigned before raising
    stay assigned), sequenced by \<open>ebind\<close>. Python list indexing \<open>py_get\<close> and
    \<open>py_set\<close>, negative indices and \<open>IndexError\<close> included, and
    \<open>str\<close> of an integer (\<open>py_str\<close>).
  \<^item> \<open>Opcodes\<close>: the constants of \<^verbatim>\<open>cpu.py\<close> lines 6 to 50 (\<open>AND\<close>,
    \<open>OR\<close>, \<open>XOR\<close>, \<open>NOT\<close> and \<open>INT\<close> are \<open>AND_op\<close> and so on, the
    bare names being HOL syntax) and the decoder's \<open>operand_count\<close>
    (\<^verbatim>\<open>(IR & 0b11000000) >> 6\<close>).
  \<^item> \<open>ALU\<close>: \<^verbatim>\<open>ALU_OP_LIST\<close>, \<^verbatim>\<open>ALU_OP_FUNC\<close> (each lambda with its
    arity, its argument order and Python's semantics on unbounded integers: \<open>%\<close>
    raising \<open>ZeroDivisionError\<close>, shifts raising \<open>ValueError\<close> on a negative
    count), \<^verbatim>\<open>ALU_DISPATCH\<close> and \<^verbatim>\<open>CPU.alu\<close>; and \<open>alu_spec\<close>, the
    specification's ALU on \<open>8 word\<close>.
  \<^item> \<open>Machine\<close>: the record \<open>cpu\<close> of the attributes \<^verbatim>\<open>reg\<close>,
    \<^verbatim>\<open>pc\<close>, \<^verbatim>\<open>fl\<close> and \<^verbatim>\<open>ram\<close> (Python integers as \<open>int\<close>, lists as
    lists), with the lines printed so far as \<open>out\<close>; \<^verbatim>\<open>__init__\<close>,
    \<^verbatim>\<open>ram_read\<close>, \<^verbatim>\<open>ram_write\<close>, \<^verbatim>\<open>load\<close> and the stack methods
    \<^verbatim>\<open>push_mdr\<close>, \<^verbatim>\<open>pop_mdr\<close>, \<^verbatim>\<open>push_from_reg\<close>,
    \<^verbatim>\<open>pop_to_reg\<close>, each a function from the state to the new state or an exception.
  \<^item> \<open>Handlers\<close>: \<^verbatim>\<open>ldi_foo\<close>, \<^verbatim>\<open>print_foo\<close>, \<^verbatim>\<open>cmp_foo\<close>,
    \<^verbatim>\<open>jmp_foo\<close>, \<^verbatim>\<open>jeq_foo\<close>, \<^verbatim>\<open>jne_foo\<close>; the handler tables of
    \<^verbatim>\<open>dispatch\<close> as maps to the datatype \<open>handler\<close> of bound methods, called by
    \<open>call_handler\<close> with one or two arguments (a wrong arity is a \<open>TypeError\<close>);
    and \<^verbatim>\<open>dispatch\<close> itself.
  \<^item> \<open>Run\<close>: one iteration of \<^verbatim>\<open>CPU.run\<close> as \<open>step\<close> (\<open>fetch\<close> and
    \<open>execute\<close>), whose state carries the loop's locals \<^verbatim>\<open>a\<close> and
    \<^verbatim>\<open>b\<close> (\<open>None\<close> while they are unbound, since an instruction without
    operand bytes leaves them as the previous instruction set them); the loop as the
    \<^theory_text>\<open>partial_function (option)\<close> \<open>run\<close>, its fuel-bounded version
    \<open>steps\<close>, and the reachability relation \<open>reaches\<close>.
  \<^item> \<open>Loader\<close>: \<^verbatim>\<open>main\<close> of \<^verbatim>\<open>ls8.py\<close>: the line cleaning, Python's
    \<^verbatim>\<open>int(s, 2)\<close> on the strings a line can hold, and the run of the parsed program.
  \<^item> \<open>Cli\<close>: \<^verbatim>\<open>resolve_program\<close> and the \<^verbatim>\<open>__main__\<close> block, over a
    file system given as the functions \<open>exists\<close> and \<open>readlines\<close>.
  \<^item> \<open>SpecMachine\<close>: the specification's 8-bit machine (\<^verbatim>\<open>spec.md\<close>,
    sections 3 and 4), modelled from the specification, not from code: bytes as
    \<open>8 word\<close>, one instruction as \<open>sstep\<close>, faults for its fatal errors.
  \<^item> \<open>Refinement\<close>: the abstraction \<open>abs_cpu\<close> (every value modulo 256) and one
    lemma per handler showing that the code's handler, read through \<open>abs_cpu\<close>, is
    the specification's operation; they combine into \<open>step_refines_spec\<close>.
  \<^item> this theory: the loader and the CPU together.

  \<^bold>\<open>What is proved.\<close> One iteration of the loop refines one step of the
  specification's 8-bit machine (\<open>step_refines_spec\<close>) on the states the specification
  describes (bytes everywhere), for the opcodes it defines and with the operand bytes inside
  memory; the code's values are read modulo 256, so the missing truncation is invisible in
  one step though it shows over several (a later comparison or address sees the
  untruncated value). For the opcodes the specification does not define, the same
  abstraction shows where the two part: the specification faults and the code goes on
  (\<open>unsupported_opcode_diverges\<close>). The ALU computes the specification's 8-bit
  operations modulo 256 (a functional refinement through \<open>word_of_int\<close>), exactly for
  the ring and bitwise operations and for byte operands for the shifts and MOD, and raises
  on each of its error paths; ADD and SUB store the unbounded result
  (\<open>dispatch_add_unmasked\<close>). The flags \<^verbatim>\<open>cmp_foo\<close> sets, the jumps, the
  stack's push/pop round trip and the bound of the pop guard, CALL followed by RET, LDI
  followed by PRN, and how far the decoder advances \<open>pc\<close>. Along every reachable run
  (rule induction on \<open>reaches\<close>) the flags register keeps the form
  \<open>00000LGE\<close> of the specification and the printed output only grows; only CMP
  writes the flags; the loop leaves Running for Halted only through HLT. The loader reads
  back the specification's file encoding, and with the CPU loads a file's bytes at address
  0 in file order and runs them (\<open>ls8_file_loaded_at_zero\<close>); it also accepts more
  than the encoding (\<open>parse_accepts_non_bytes\<close>). The entry point resolves names to
  files, and reports errors, an \<open>IndexError\<close> of the running program included.

  \<^bold>\<open>Fuel.\<close> \<open>run\<close> is partial: a program may loop forever, and then \<open>run\<close>
  is \<open>None\<close>. The fuel-bounded \<open>steps\<close> agrees with it (\<open>run_iff_steps\<close>:
  \<open>run\<close> returns an outcome exactly when some number of iterations produces it), so a
  concrete run, such as the one of a witness, is evaluated by giving the number of
  iterations it takes. The theorems on the loop are stated over single iterations and
  over \<open>reaches\<close>, and need no fuel.

  \<^bold>\<open>Where the code departs from the specification\<close> (each a theorem):
  values are never truncated to 8 bits; an opcode outside the tables, the declared but
  unimplemented ones included, is silently ignored; an instruction without operands run
  before any with operands raises \<open>UnboundLocalError\<close>;
  the top-bit pattern 11 is read as no operands; memory and the stack pointer are not
  masked (Python's negative indices wrap, larger ones raise \<open>IndexError\<close>), and a
  register operand from -8 to -1 silently names a register; the
  loader accepts signs, \<^verbatim>\<open>0b\<close> prefixes, underscores and any number of digits; and the
  entry point reports an \<open>IndexError\<close> of the running program as a missing argument.

  \<^bold>\<open>Not modelled.\<close> \<^verbatim>\<open>CPU.trace\<close> (lines 102 to 120), a debugging printer no
  code calls; the opening of files (the model takes the lines \<^verbatim>\<open>readlines\<close>
  returns and the result of \<^verbatim>\<open>os.path.exists\<close>); \<^verbatim>\<open>sys.argv\<close> beyond its
  list of strings; Python's traceback printing for an exception that escapes (the model
  returns the exception). Characters are the code points 0 to 255.
\<close>

section \<open>Properties spanning the loader and the CPU\<close>

text \<open>
  Claim C17. The loader and the CPU together: \<^verbatim>\<open>main\<close> on a
  file in the specification's encoding (one byte per line, with comments) of at most 256
  lines runs the CPU from the initial state with the file's bytes in memory from address
  0, in file order, and the rest of memory zero.
\<close>

theorem ls8_file_loaded_at_zero:
  assumes "\<forall>(n, cmt) \<in> set prog. n < 256" and "length prog \<le> 256"
  shows "ls8_main (encode_program prog) =
    map_option Ended
      (cpu_run (cpu_init\<lparr>ram := map (\<lambda>(n, cmt). int n) prog @ replicate (256 - length prog) 0\<rparr>))"
proof -
  let ?p = "map (\<lambda>(n, cmt). int n) prog"
  have "load (Some ?p) cpu_init = Inr (cpu_init\<lparr>ram := ?p @ drop (length ?p) (ram cpu_init)\<rparr>)"
    using assms(2) load_from_ok [of 0 ?p cpu_init] by (simp add: load_def cpu_init_def)
  moreover have "drop (length ?p) (ram cpu_init) = replicate (256 - length prog) 0"
    by (simp add: cpu_init_def)
  moreover have "parse_program (encode_program prog) = Inr ?p"
    using assms(1) by (simp only: parse_encoded parse_encoded_bytes)
  ultimately show ?thesis by (simp add: ls8_main_def load_and_run_def)
qed

theorem ls8_file_loaded_at_zero_witness:
  "ls8_main (encode_program [(1, '' HLT'')]) =
     map_option Ended (cpu_run (cpu_init\<lparr>ram := [1] @ replicate 255 0\<rparr>))"
  using ls8_file_loaded_at_zero [of "[(1, '' HLT'')]"] by simp

end
